theory Spec2Isabelle
  imports Main "HOL-Library.Word" "HOL-Library.Stream"
begin

section \<open>The LinkIO contract (contracts/LinkIO.sol)\<close>

text \<open>
  Solidity's \<open>uint256\<close> and \<open>address\<close> are machine words; \<open>string\<close> is a byte
  string, so \<open>bytes(s).length\<close> is \<open>length s\<close>. A \<open>mapping\<close> is a total function
  whose default is the zero value of its range.
\<close>

type_synonym uint256 = "256 word"
type_synonym address = "160 word"

datatype ContentType = LINK | MEDIA

record LinkData =
  originalUrl :: string
  creator :: address
  createdAt :: uint256
  clicks :: uint256
  exists :: bool

record MediaData =
  ipfsHash :: string
  fileName :: string
  fileType :: string
  fileSize :: uint256
  creator :: address
  createdAt :: uint256
  views :: uint256
  exists :: bool

text \<open>
  The storage of the contract. \<open>linkCounter\<close> and \<open>mediaCounter\<close> are the values of
  the two \<open>Counters.Counter\<close> fields. The events the functions emit are log entries,
  not storage, and are left out, and so is the owner that the contract inherits from
  \<open>Ownable\<close>: no function below reads or writes it.
\<close>

record LinkIO =
  linkCounter :: uint256
  mediaCounter :: uint256
  links :: "string \<Rightarrow> LinkData"
  media :: "string \<Rightarrow> MediaData"
  userLinks :: "address \<Rightarrow> string list"
  userMedia :: "address \<Rightarrow> string list"

definition deployed :: LinkIO where
  "deployed =
     \<lparr>linkCounter = 0, mediaCounter = 0,
      links = (\<lambda>_. \<lparr>originalUrl = [], LinkData.creator = 0, LinkData.createdAt = 0,
                      clicks = 0, LinkData.exists = False\<rparr>),
      media = (\<lambda>_. \<lparr>ipfsHash = [], fileName = [], fileType = [], fileSize = 0,
                      MediaData.creator = 0, MediaData.createdAt = 0, views = 0,
                      MediaData.exists = False\<rparr>),
      userLinks = (\<lambda>_. []), userMedia = (\<lambda>_. [])\<rparr>"

text \<open>What a call reads from its transaction and block.\<close>

record tx_env =
  block_timestamp :: uint256
  block_prevrandao :: uint256
  msg_sender :: address

text \<open>
  \<open>keccak256(abi.encodePacked(timestamp, prevrandao, sender, counter))\<close> is a built-in
  of the machine; every function that hashes takes it as the parameter \<open>H\<close>.
\<close>

type_synonym keccak = "uint256 \<Rightarrow> uint256 \<Rightarrow> address \<Rightarrow> uint256 \<Rightarrow> uint256"

text \<open>
  A call ends by returning, by a failed \<open>require\<close>, by the arithmetic panic of a
  checked overflow, or by running out of gas. In the last three cases the storage is
  rolled back, so a failed call carries no new state.
\<close>

datatype revert = Revert string | Panic_overflow | OutOfGas

definition chars :: string where
  "chars = ''abcdefghijklmnopqrstuvwxyzABCDEFGHIJKLMNOPQRSTUVWXYZ0123456789''"

text \<open>The loop \<open>for (i = 0; i < 6; i++) { shortCode[i] = chars[seed % 62]; seed = seed / 62; }\<close>.\<close>

function shortCode_loop :: "nat \<Rightarrow> uint256 \<Rightarrow> string \<Rightarrow> string" where
  "shortCode_loop i seed shortCode =
     (if i < 6
      then shortCode_loop (i + 1) (seed div 62) (shortCode[i := chars ! unat (seed mod 62)])
      else shortCode)"
  by pat_completeness auto
termination
  by (relation "measure (\<lambda>(i, seed, shortCode). 6 - i)") auto

text \<open>
  \<open>_generateShortCode\<close>: \<open>Counters.increment\<close> adds one to the stored value (the
  library does it unchecked, which is addition on the word), \<open>current\<close> reads it.
\<close>

definition contract_generateShortCode ::
    "keccak \<Rightarrow> tx_env \<Rightarrow> ContentType \<Rightarrow> LinkIO \<Rightarrow> string \<times> LinkIO" where
  "contract_generateShortCode H e contentType s =
     (let s' = (if contentType = LINK then s\<lparr>linkCounter := linkCounter s + 1\<rparr>
                else s\<lparr>mediaCounter := mediaCounter s + 1\<rparr>);
          counter = (if contentType = LINK then linkCounter s' else mediaCounter s');
          seed = H (block_timestamp e) (block_prevrandao e) (msg_sender e) counter
      in (shortCode_loop 0 seed (replicate 6 (CHR 0x00)), s'))"

text \<open>
  The loops \<open>while (links[shortCode].exists) shortCode = _generateShortCode(LINK)\<close>
  and its media twin. The first argument is the number of further iterations the gas of
  the transaction pays for; with none left the call fails.
\<close>

fun links_unique :: "nat \<Rightarrow> keccak \<Rightarrow> tx_env \<Rightarrow> string \<Rightarrow> LinkIO \<Rightarrow> revert + string \<times> LinkIO" where
  "links_unique 0 H e shortCode s =
     (if LinkData.exists (LinkIO.links s shortCode) then Inl OutOfGas else Inr (shortCode, s))"
| "links_unique (Suc gas) H e shortCode s =
     (if LinkData.exists (LinkIO.links s shortCode)
      then links_unique gas H e (fst (contract_generateShortCode H e LINK s))
             (snd (contract_generateShortCode H e LINK s))
      else Inr (shortCode, s))"

fun media_unique :: "nat \<Rightarrow> keccak \<Rightarrow> tx_env \<Rightarrow> string \<Rightarrow> LinkIO \<Rightarrow> revert + string \<times> LinkIO" where
  "media_unique 0 H e shortCode s =
     (if MediaData.exists (LinkIO.media s shortCode) then Inl OutOfGas else Inr (shortCode, s))"
| "media_unique (Suc gas) H e shortCode s =
     (if MediaData.exists (LinkIO.media s shortCode)
      then media_unique gas H e (fst (contract_generateShortCode H e MEDIA s))
             (snd (contract_generateShortCode H e MEDIA s))
      else Inr (shortCode, s))"

definition createShortLink ::
    "keccak \<Rightarrow> tx_env \<Rightarrow> nat \<Rightarrow> string \<Rightarrow> LinkIO \<Rightarrow> revert + string \<times> LinkIO" where
  "createShortLink H e gas url s =
     (if \<not> length url > 0 then Inl (Revert ''URL cannot be empty'')
      else if \<not> length url \<le> 2048 then Inl (Revert ''URL too long'')
      else
        (case links_unique gas H e (fst (contract_generateShortCode H e LINK s))
                (snd (contract_generateShortCode H e LINK s)) of
           Inl r \<Rightarrow> Inl r
         | Inr (shortCode, s1) \<Rightarrow>
             Inr (shortCode,
               s1\<lparr>LinkIO.links := (LinkIO.links s1)(shortCode :=
                      \<lparr>originalUrl = url, LinkData.creator = msg_sender e,
                       LinkData.createdAt = block_timestamp e, clicks = 0,
                       LinkData.exists = True\<rparr>),
                  userLinks := (userLinks s1)(msg_sender e :=
                      userLinks s1 (msg_sender e) @ [shortCode])\<rparr>)))"

definition uploadMedia ::
    "keccak \<Rightarrow> tx_env \<Rightarrow> nat \<Rightarrow> string \<Rightarrow> string \<Rightarrow> string \<Rightarrow> uint256 \<Rightarrow> LinkIO
       \<Rightarrow> revert + string \<times> LinkIO" where
  "uploadMedia H e gas hash name ftype fsize s =
     (if \<not> length hash > 0 then Inl (Revert ''IPFS hash cannot be empty'')
      else if \<not> length name > 0 then Inl (Revert ''File name cannot be empty'')
      else
        (case media_unique gas H e (fst (contract_generateShortCode H e MEDIA s))
                (snd (contract_generateShortCode H e MEDIA s)) of
           Inl r \<Rightarrow> Inl r
         | Inr (shortCode, s1) \<Rightarrow>
             Inr (shortCode,
               s1\<lparr>LinkIO.media := (LinkIO.media s1)(shortCode :=
                      \<lparr>ipfsHash = hash, fileName = name, fileType = ftype, fileSize = fsize,
                       MediaData.creator = msg_sender e,
                       MediaData.createdAt = block_timestamp e, views = 0,
                       MediaData.exists = True\<rparr>),
                  userMedia := (userMedia s1)(msg_sender e :=
                      userMedia s1 (msg_sender e) @ [shortCode])\<rparr>)))"

text \<open>
  \<open>getLink\<close> and \<open>getMedia\<close>: \<open>clicks++\<close> is checked arithmetic under the
  contract's pragma, so it panics at the largest value instead of wrapping.
\<close>

definition getLink :: "string \<Rightarrow> LinkIO \<Rightarrow> revert + string \<times> LinkIO" where
  "getLink shortCode s =
     (if \<not> LinkData.exists (LinkIO.links s shortCode) then Inl (Revert ''Link does not exist'')
      else if clicks (LinkIO.links s shortCode) = - 1 then Inl Panic_overflow
      else
        (let s' = s\<lparr>LinkIO.links := (LinkIO.links s)(shortCode :=
                     (LinkIO.links s shortCode)\<lparr>clicks := clicks (LinkIO.links s shortCode) + 1\<rparr>)\<rparr>
         in Inr (originalUrl (LinkIO.links s' shortCode), s')))"

definition getMedia ::
    "string \<Rightarrow> LinkIO \<Rightarrow> revert + (string \<times> string \<times> string \<times> uint256) \<times> LinkIO" where
  "getMedia shortCode s =
     (if \<not> MediaData.exists (LinkIO.media s shortCode) then Inl (Revert ''Media does not exist'')
      else if views (LinkIO.media s shortCode) = - 1 then Inl Panic_overflow
      else
        (let s' = s\<lparr>LinkIO.media := (LinkIO.media s)(shortCode :=
                     (LinkIO.media s shortCode)\<lparr>views := views (LinkIO.media s shortCode) + 1\<rparr>)\<rparr>;
             m = LinkIO.media s' shortCode
         in Inr ((ipfsHash m, fileName m, fileType m, fileSize m), s')))"

text \<open>The \<open>view\<close> functions read the storage and return no new state.\<close>

definition getLinkData ::
    "string \<Rightarrow> LinkIO \<Rightarrow> revert + string \<times> address \<times> uint256 \<times> uint256" where
  "getLinkData shortCode s =
     (if \<not> LinkData.exists (LinkIO.links s shortCode) then Inl (Revert ''Link does not exist'')
      else (let l = LinkIO.links s shortCode
            in Inr (originalUrl l, LinkData.creator l, LinkData.createdAt l, clicks l)))"

definition getMediaData ::
    "string \<Rightarrow> LinkIO
       \<Rightarrow> revert + string \<times> string \<times> string \<times> uint256 \<times> address \<times> uint256 \<times> uint256" where
  "getMediaData shortCode s =
     (if \<not> MediaData.exists (LinkIO.media s shortCode) then Inl (Revert ''Media does not exist'')
      else (let m = LinkIO.media s shortCode
            in Inr (ipfsHash m, fileName m, fileType m, fileSize m, MediaData.creator m,
                    MediaData.createdAt m, views m)))"

definition getUserLinks :: "address \<Rightarrow> LinkIO \<Rightarrow> string list" where
  "getUserLinks user s = userLinks s user"

definition getUserMedia :: "address \<Rightarrow> LinkIO \<Rightarrow> string list" where
  "getUserMedia user s = userMedia s user"

definition getTotalLinks :: "LinkIO \<Rightarrow> uint256" where
  "getTotalLinks s = linkCounter s"

definition getTotalMedia :: "LinkIO \<Rightarrow> uint256" where
  "getTotalMedia s = mediaCounter s"

definition linkExists :: "string \<Rightarrow> LinkIO \<Rightarrow> bool" where
  "linkExists shortCode s = LinkData.exists (LinkIO.links s shortCode)"

definition mediaExists :: "string \<Rightarrow> LinkIO \<Rightarrow> bool" where
  "mediaExists shortCode s = MediaData.exists (LinkIO.media s shortCode)"

text \<open>
  The external functions of the contract, and the storage a transaction leaves behind:
  the new storage of a call that returns, the old one after a failed call or a
  \<open>view\<close> call.
\<close>

datatype call =
    CreateShortLink string
  | UploadMedia string string string uint256
  | GetLink string
  | GetMedia string
  | GetLinkData string
  | GetMediaData string
  | GetUserLinks address
  | GetUserMedia address
  | GetTotalLinks
  | GetTotalMedia
  | LinkExists string
  | MediaExists string

fun transact :: "keccak \<Rightarrow> tx_env \<times> nat \<times> call \<Rightarrow> LinkIO \<Rightarrow> LinkIO" where
  "transact H (e, gas, CreateShortLink url) s =
     (case createShortLink H e gas url s of Inl r \<Rightarrow> s | Inr (c, s') \<Rightarrow> s')"
| "transact H (e, gas, UploadMedia hash name ftype fsize) s =
     (case uploadMedia H e gas hash name ftype fsize s of Inl r \<Rightarrow> s | Inr (c, s') \<Rightarrow> s')"
| "transact H (e, gas, GetLink c) s = (case getLink c s of Inl r \<Rightarrow> s | Inr (u, s') \<Rightarrow> s')"
| "transact H (e, gas, GetMedia c) s = (case getMedia c s of Inl r \<Rightarrow> s | Inr (m, s') \<Rightarrow> s')"
| "transact H (e, gas, c) s = s"

fun transact_all :: "keccak \<Rightarrow> (tx_env \<times> nat \<times> call) list \<Rightarrow> LinkIO \<Rightarrow> LinkIO" where
  "transact_all H [] s = s"
| "transact_all H (t # ts) s = transact_all H ts (transact H t s)"

text \<open>
  The short codes a run of transactions hands out in each namespace, in order: the
  return values of the calls of \<open>createShortLink\<close> (of \<open>uploadMedia\<close>) that succeed.
\<close>

fun link_codes :: "keccak \<Rightarrow> (tx_env \<times> nat \<times> call) list \<Rightarrow> LinkIO \<Rightarrow> string list" where
  "link_codes H [] s = []"
| "link_codes H ((e, gas, CreateShortLink url) # ts) s =
     (case createShortLink H e gas url s of
        Inl r \<Rightarrow> link_codes H ts s
      | Inr (c, s') \<Rightarrow> c # link_codes H ts s')"
| "link_codes H (t # ts) s = link_codes H ts (transact H t s)"

fun media_codes :: "keccak \<Rightarrow> (tx_env \<times> nat \<times> call) list \<Rightarrow> LinkIO \<Rightarrow> string list" where
  "media_codes H [] s = []"
| "media_codes H ((e, gas, UploadMedia hash name ftype fsize) # ts) s =
     (case uploadMedia H e gas hash name ftype fsize s of
        Inl r \<Rightarrow> media_codes H ts s
      | Inr (c, s') \<Rightarrow> c # media_codes H ts s')"
| "media_codes H (t # ts) s = media_codes H ts (transact H t s)"

section \<open>The database service (the Express server over SQLite)\<close>

text \<open>
  The server handles one request at a time and every handler runs to its end without
  yielding, so a handler is a function from the database to a reply and a new database.
  A table is the list of its rows in insertion order. \<open>links_seq\<close> and \<open>media_seq\<close>
  are the \<open>AUTOINCREMENT\<close> sequences: the largest row id handed out so far, so that
  an id is never used twice. The column \<open>id\<close> is the field \<open>rowid\<close>, since \<open>id\<close> is
  the identity function of the logic. The numbers of request bodies and of replies are
  natural numbers here (they are JSON numbers, exact up to \<open>2^53\<close>), and so are the
  integers of the database; what the 64 bits of an SQLite \<open>INTEGER\<close> do to the
  counters is written out at the two statements that count.
\<close>

record links_row =
  rowid :: nat
  short_code :: string
  original_url :: string
  creator :: string
  created_at :: nat
  clicks :: nat

record media_row =
  rowid :: nat
  short_code :: string
  ipfs_hash :: string
  file_name :: string
  file_type :: string
  file_size :: nat
  creator :: string
  created_at :: nat
  views :: nat

record db =
  links :: "links_row list"
  links_seq :: nat
  media :: "media_row list"
  media_seq :: nat

definition empty_db :: db where
  "empty_db = \<lparr>links = [], links_seq = 0, media = [], media_seq = 0\<rparr>"

text \<open>
  \<open>crypto.randomBytes(n)\<close> takes the next \<open>n\<close> bytes of the system's random source,
  which is a stream of bytes threaded through the handlers; the source is taken to
  deliver always.
\<close>

type_synonym byte = "8 word"
type_synonym entropy = "byte stream"

definition randomBytes :: "nat \<Rightarrow> entropy \<Rightarrow> byte list \<times> entropy" where
  "randomBytes n rnd = (stake n rnd, sdrop n rnd)"

text \<open>The loop \<open>for (let i = 0; i < length; i++) result += chars[bytes[i] % chars.length]\<close>.\<close>

function generateShortCode_loop :: "byte list \<Rightarrow> nat \<Rightarrow> nat \<Rightarrow> string \<Rightarrow> string" where
  "generateShortCode_loop bytes len i result =
     (if i < len
      then generateShortCode_loop bytes len (i + 1)
             (result @ [chars ! (unat (bytes ! i) mod length chars)])
      else result)"
  by pat_completeness auto
termination
  by (relation "measure (\<lambda>(bytes, len, i, result). len - i)") auto

definition generateShortCode :: "nat \<Rightarrow> entropy \<Rightarrow> string \<times> entropy" where
  "generateShortCode len rnd =
     (case randomBytes len rnd of (bytes, rnd') \<Rightarrow> (generateShortCode_loop bytes len 0 [], rnd'))"

text \<open>
  The loop \<open>while (checkStmt.get(shortCode)) shortCode = generateShortCode()\<close> of both
  creation handlers, over the check of the handler's own table. Nothing bounds the number
  of its iterations: where it never ends the value is \<open>None\<close>.
\<close>

partial_function (option) while_taken ::
    "(string \<Rightarrow> bool) \<Rightarrow> string \<Rightarrow> entropy \<Rightarrow> (string \<times> entropy) option" where
  "while_taken checkStmt_get shortCode rnd =
     (if checkStmt_get shortCode
      then while_taken checkStmt_get (fst (generateShortCode 6 rnd)) (snd (generateShortCode 6 rnd))
      else Some (shortCode, rnd))"

text \<open>The statements the handlers prepare.\<close>

definition links_has :: "string \<Rightarrow> db \<Rightarrow> bool" where
  \<comment> \<open>\<open>SELECT 1 FROM links WHERE short_code = ?\<close>\<close>
  "links_has c d = (find (\<lambda>r. links_row.short_code r = c) (links d) \<noteq> None)"

definition media_has :: "string \<Rightarrow> db \<Rightarrow> bool" where
  \<comment> \<open>\<open>SELECT 1 FROM media WHERE short_code = ?\<close>\<close>
  "media_has c d = (find (\<lambda>r. media_row.short_code r = c) (media d) \<noteq> None)"

definition links_insert :: "string \<Rightarrow> string \<Rightarrow> string \<Rightarrow> nat \<Rightarrow> db \<Rightarrow> db option" where
  \<comment> \<open>\<open>INSERT INTO links ... VALUES (?, ?, ?, ?, 0)\<close>; the \<open>UNIQUE\<close> column makes it throw\<close>
  "links_insert c url cr t d =
     (if links_has c d then None
      else Some (d\<lparr>links := links d @
                     [\<lparr>links_row.rowid = links_seq d + 1, links_row.short_code = c,
                       original_url = url, links_row.creator = cr,
                       links_row.created_at = t, clicks = 0\<rparr>],
                   links_seq := links_seq d + 1\<rparr>))"

definition media_insert ::
    "string \<Rightarrow> string \<Rightarrow> string \<Rightarrow> string \<Rightarrow> nat \<Rightarrow> string \<Rightarrow> nat \<Rightarrow> db \<Rightarrow> db option" where
  \<comment> \<open>\<open>INSERT INTO media ... VALUES (?, ?, ?, ?, ?, ?, ?, 0)\<close>\<close>
  "media_insert c h n ty sz cr t d =
     (if media_has c d then None
      else Some (d\<lparr>media := media d @
                     [\<lparr>media_row.rowid = media_seq d + 1, media_row.short_code = c,
                       ipfs_hash = h, file_name = n, file_type = ty, file_size = sz,
                       media_row.creator = cr, media_row.created_at = t, views = 0\<rparr>],
                   media_seq := media_seq d + 1\<rparr>))"

definition links_get :: "string \<Rightarrow> db \<Rightarrow> links_row option" where
  \<comment> \<open>\<open>SELECT * FROM links WHERE short_code = ?\<close>, first row\<close>
  "links_get c d = find (\<lambda>r. links_row.short_code r = c) (links d)"

definition media_get :: "string \<Rightarrow> db \<Rightarrow> media_row option" where
  "media_get c d = find (\<lambda>r. media_row.short_code r = c) (media d)"

text \<open>
  The sum \<open>clicks + 1\<close> (\<open>views + 1\<close>) of the two \<open>UPDATE\<close> statements, on a column
  declared \<open>INTEGER\<close>. SQLite keeps an integer in 64 bits with a sign. Up to
  \<open>2^63 - 2\<close> the sum is the next integer. At \<open>2^63 - 1\<close> the integer addition
  overflows, SQLite computes the sum in floating point instead, and the column stores the
  \<open>REAL\<close> value \<open>2^63\<close>, which fits no 64-bit integer. From there on the sum is
  the floating-point sum of \<open>2^63\<close> and 1, which rounds to \<open>2^63\<close> again: the
  counter has stopped. A counter is a natural number here, \<open>2^63\<close> standing for that
  \<open>REAL\<close> value.
\<close>

definition sqlite_plus_1 :: "nat \<Rightarrow> nat" where
  "sqlite_plus_1 n = (if n < 2 ^ 63 then n + 1 else n)"

definition links_click :: "string \<Rightarrow> db \<Rightarrow> db" where
  \<comment> \<open>\<open>UPDATE links SET clicks = clicks + 1 WHERE short_code = ?\<close>\<close>
  "links_click c d =
     d\<lparr>links := map (\<lambda>r. if links_row.short_code r = c
                         then r\<lparr>clicks := sqlite_plus_1 (clicks r)\<rparr> else r)
                    (links d)\<rparr>"

definition media_view :: "string \<Rightarrow> db \<Rightarrow> db" where
  \<comment> \<open>\<open>UPDATE media SET views = views + 1 WHERE short_code = ?\<close>\<close>
  "media_view c d =
     d\<lparr>media := map (\<lambda>r. if media_row.short_code r = c
                         then r\<lparr>views := sqlite_plus_1 (views r)\<rparr> else r)
                    (media d)\<rparr>"

text \<open>
  \<open>ORDER BY created_at DESC LIMIT n\<close>. SQL leaves the order of rows with equal
  \<open>created_at\<close> open; the sort here keeps them in insertion order.
\<close>

definition links_newest :: "nat \<Rightarrow> links_row list \<Rightarrow> links_row list" where
  "links_newest n rows = take n (sort_key (\<lambda>r. - int (links_row.created_at r)) rows)"

definition media_newest :: "nat \<Rightarrow> media_row list \<Rightarrow> media_row list" where
  "media_newest n rows = take n (sort_key (\<lambda>r. - int (media_row.created_at r)) rows)"

definition links_of_creator :: "string \<Rightarrow> db \<Rightarrow> links_row list" where
  \<comment> \<open>\<open>SELECT * FROM links WHERE creator = ? ORDER BY created_at DESC LIMIT 10\<close>\<close>
  "links_of_creator w d = links_newest 10 (filter (\<lambda>r. links_row.creator r = w) (links d))"

definition media_of_creator :: "string \<Rightarrow> db \<Rightarrow> media_row list" where
  "media_of_creator w d = media_newest 10 (filter (\<lambda>r. media_row.creator r = w) (media d))"

definition links_delete :: "string \<Rightarrow> db \<Rightarrow> nat \<times> db" where
  \<comment> \<open>\<open>DELETE FROM links WHERE short_code = ?\<close>, with the number of rows it removed\<close>
  "links_delete c d =
     (length (filter (\<lambda>r. links_row.short_code r = c) (links d)),
      d\<lparr>links := filter (\<lambda>r. links_row.short_code r \<noteq> c) (links d)\<rparr>)"

definition media_delete :: "string \<Rightarrow> db \<Rightarrow> nat \<times> db" where
  "media_delete c d =
     (length (filter (\<lambda>r. media_row.short_code r = c) (media d)),
      d\<lparr>media := filter (\<lambda>r. media_row.short_code r \<noteq> c) (media d)\<rparr>)"

text \<open>
  The JSON objects of the replies, as tuples in the order of their fields:
  \<open>{shortCode, originalUrl, creator, createdAt, clicks}\<close> and
  \<open>{shortCode, ipfsHash, fileName, fileType, fileSize, creator, createdAt, views}\<close>.
\<close>

type_synonym link_json = "string \<times> string \<times> string \<times> nat \<times> nat"
type_synonym media_json = "string \<times> string \<times> string \<times> string \<times> nat \<times> string \<times> nat \<times> nat"

definition link_json :: "links_row \<Rightarrow> link_json" where
  "link_json link =
     (links_row.short_code link, original_url link, links_row.creator link,
      links_row.created_at link, clicks link)"

definition media_json :: "media_row \<Rightarrow> media_json" where
  "media_json m =
     (media_row.short_code m, ipfs_hash m, file_name m, file_type m, file_size m,
      media_row.creator m, media_row.created_at m, views m)"

datatype reply =
    Error nat string  \<comment> \<open>\<open>res.status(n).json({error})\<close>\<close>
  | Link link_json
  | Media media_json
  | Target string  \<comment> \<open>\<open>{originalUrl}\<close>\<close>
  | Links "link_json list"
  | Medias "media_json list"
  | Stats nat nat  \<comment> \<open>\<open>{totalLinks, totalMedia}\<close>\<close>
  | Health
  | LinkRows "links_row list"
  | MediaRows "media_row list"
  | Message string

text \<open>
  A field of a request body is absent or a string (a number for \<open>fileSize\<close>);
  \<open>!x\<close> holds of an absent field, of the empty string and of zero, and
  \<open>creator || 'anonymous'\<close> replaces an absent or empty creator.
\<close>

definition or_anonymous :: "string option \<Rightarrow> string" where
  "or_anonymous cr = (case cr of None \<Rightarrow> ''anonymous'' | Some c \<Rightarrow> if c = [] then ''anonymous'' else c)"

definition post_api_links ::
    "string option \<Rightarrow> string option \<Rightarrow> nat \<Rightarrow> db \<times> entropy \<Rightarrow> (reply \<times> db \<times> entropy) option" where
  "post_api_links body_originalUrl cr now st =
     (case st of (d, rnd) \<Rightarrow>
        (case body_originalUrl of
           None \<Rightarrow> Some (Error 400 ''Original URL is required'', d, rnd)
         | Some url \<Rightarrow>
             if url = [] then Some (Error 400 ''Original URL is required'', d, rnd)
             else
               (case while_taken (\<lambda>c. links_has c d) (fst (generateShortCode 6 rnd))
                       (snd (generateShortCode 6 rnd)) of
                  None \<Rightarrow> None
                | Some (shortCode, rnd') \<Rightarrow>
                    (case links_insert shortCode url (or_anonymous cr) now d of
                       None \<Rightarrow> Some (Error 500 ''Failed to create short link'', d, rnd')
                     | Some d' \<Rightarrow>
                         Some (Link (shortCode, url, or_anonymous cr, now, 0), d', rnd')))))"

definition post_api_media ::
    "string option \<Rightarrow> string option \<Rightarrow> string option \<Rightarrow> nat option \<Rightarrow> string option \<Rightarrow> nat
       \<Rightarrow> db \<times> entropy \<Rightarrow> (reply \<times> db \<times> entropy) option" where
  "post_api_media body_ipfsHash body_fileName body_fileType body_fileSize cr now st =
     (case st of (d, rnd) \<Rightarrow>
        (case (body_ipfsHash, body_fileName, body_fileType, body_fileSize) of
           (Some h, Some n, Some ty, Some sz) \<Rightarrow>
             if h = [] \<or> n = [] \<or> ty = [] \<or> sz = 0
             then Some (Error 400 ''Missing required fields'', d, rnd)
             else
               (case while_taken (\<lambda>c. media_has c d) (fst (generateShortCode 6 rnd))
                       (snd (generateShortCode 6 rnd)) of
                  None \<Rightarrow> None
                | Some (shortCode, rnd') \<Rightarrow>
                    (case media_insert shortCode h n ty sz (or_anonymous cr) now d of
                       None \<Rightarrow> Some (Error 500 ''Failed to save media metadata'', d, rnd')
                     | Some d' \<Rightarrow>
                         Some (Media (shortCode, h, n, ty, sz, or_anonymous cr, now, 0), d', rnd')))
         | _ \<Rightarrow> Some (Error 400 ''Missing required fields'', d, rnd)))"

definition get_api_links :: "string \<Rightarrow> db \<Rightarrow> reply" where
  "get_api_links shortCode d =
     (case links_get shortCode d of
        None \<Rightarrow> Error 404 ''Link not found''
      | Some link \<Rightarrow> Link (link_json link))"

definition get_api_media :: "string \<Rightarrow> db \<Rightarrow> reply" where
  "get_api_media shortCode d =
     (case media_get shortCode d of
        None \<Rightarrow> Error 404 ''Media not found''
      | Some m \<Rightarrow> Media (media_json m))"

definition get_api_links_redirect :: "string \<Rightarrow> db \<Rightarrow> reply \<times> db" where
  "get_api_links_redirect shortCode d =
     (case links_get shortCode d of
        None \<Rightarrow> (Error 404 ''Link not found'', d)
      | Some link \<Rightarrow> (Target (original_url link), links_click shortCode d))"

definition get_api_media_view :: "string \<Rightarrow> db \<Rightarrow> reply \<times> db" where
  "get_api_media_view shortCode d =
     (case media_get shortCode d of
        None \<Rightarrow> (Error 404 ''Media not found'', d)
      | Some m \<Rightarrow>
          (Media (media_row.short_code m, ipfs_hash m, file_name m, file_type m, file_size m,
                  media_row.creator m, media_row.created_at m, views m + 1),
           media_view shortCode d))"

definition get_api_users_links :: "string \<Rightarrow> db \<Rightarrow> reply" where
  "get_api_users_links walletAddress d = Links (map link_json (links_of_creator walletAddress d))"

definition get_api_users_media :: "string \<Rightarrow> db \<Rightarrow> reply" where
  "get_api_users_media walletAddress d = Medias (map media_json (media_of_creator walletAddress d))"

definition get_api_stats :: "db \<Rightarrow> reply" where
  \<comment> \<open>\<open>SELECT COUNT(*) as count FROM links\<close> and the same of \<open>media\<close>\<close>
  "get_api_stats d = Stats (length (links d)) (length (media d))"

definition get_api_admin_links :: "db \<Rightarrow> reply" where
  "get_api_admin_links d = LinkRows (links_newest 100 (links d))"

definition get_api_admin_media :: "db \<Rightarrow> reply" where
  "get_api_admin_media d = MediaRows (media_newest 100 (media d))"

definition delete_api_admin_links :: "string \<Rightarrow> db \<Rightarrow> reply \<times> db" where
  "delete_api_admin_links shortCode d =
     (case links_delete shortCode d of
        (changes, d') \<Rightarrow>
          if changes = 0 then (Error 404 ''Link not found'', d') else (Message ''Link deleted'', d'))"

definition delete_api_admin_media :: "string \<Rightarrow> db \<Rightarrow> reply \<times> db" where
  "delete_api_admin_media shortCode d =
     (case media_delete shortCode d of
        (changes, d') \<Rightarrow>
          if changes = 0 then (Error 404 ''Media not found'', d') else (Message ''Media deleted'', d'))"

text \<open>The routes of the server; a request comes with the clock reading of its arrival.\<close>

datatype request =
    POST_api_links "string option" "string option"
  | GET_api_links string
  | GET_api_links_redirect string
  | GET_api_users_links string
  | POST_api_media "string option" "string option" "string option" "nat option" "string option"
  | GET_api_media string
  | GET_api_media_view string
  | GET_api_users_media string
  | GET_api_stats
  | GET_api_health
  | GET_api_admin_links
  | GET_api_admin_media
  | DELETE_api_admin_links string
  | DELETE_api_admin_media string

fun handle :: "request \<times> nat \<Rightarrow> db \<times> entropy \<Rightarrow> (reply \<times> db \<times> entropy) option" where
  "handle (POST_api_links u cr, now) st = post_api_links u cr now st"
| "handle (POST_api_media h n ty sz cr, now) st = post_api_media h n ty sz cr now st"
| "handle (GET_api_links c, now) (d, rnd) = Some (get_api_links c d, d, rnd)"
| "handle (GET_api_media c, now) (d, rnd) = Some (get_api_media c d, d, rnd)"
| "handle (GET_api_links_redirect c, now) (d, rnd) =
     Some (fst (get_api_links_redirect c d), snd (get_api_links_redirect c d), rnd)"
| "handle (GET_api_media_view c, now) (d, rnd) =
     Some (fst (get_api_media_view c d), snd (get_api_media_view c d), rnd)"
| "handle (GET_api_users_links w, now) (d, rnd) = Some (get_api_users_links w d, d, rnd)"
| "handle (GET_api_users_media w, now) (d, rnd) = Some (get_api_users_media w d, d, rnd)"
| "handle (GET_api_stats, now) (d, rnd) = Some (get_api_stats d, d, rnd)"
| "handle (GET_api_health, now) (d, rnd) = Some (Health, d, rnd)"
| "handle (GET_api_admin_links, now) (d, rnd) = Some (get_api_admin_links d, d, rnd)"
| "handle (GET_api_admin_media, now) (d, rnd) = Some (get_api_admin_media d, d, rnd)"
| "handle (DELETE_api_admin_links c, now) (d, rnd) =
     Some (fst (delete_api_admin_links c d), snd (delete_api_admin_links c d), rnd)"
| "handle (DELETE_api_admin_media c, now) (d, rnd) =
     Some (fst (delete_api_admin_media c d), snd (delete_api_admin_media c d), rnd)"

text \<open>Serving a list of requests in order; \<open>None\<close> when one of them never ends.\<close>

fun serve :: "(request \<times> nat) list \<Rightarrow> db \<times> entropy \<Rightarrow> (reply list \<times> db \<times> entropy) option" where
  "serve [] st = Some ([], st)"
| "serve (q # qs) st =
     (case handle q st of
        None \<Rightarrow> None
      | Some (r, st') \<Rightarrow>
          (case serve qs st' of None \<Rightarrow> None | Some (rs, st'') \<Rightarrow> Some (r # rs, st'')))"

text \<open>The short codes that the creation requests of a served list were answered with.\<close>

fun posted_link_codes :: "(request \<times> nat) list \<Rightarrow> reply list \<Rightarrow> string list" where
  "posted_link_codes ((POST_api_links u c, now) # qs) (Link j # rs) = fst j # posted_link_codes qs rs"
| "posted_link_codes (q # qs) (r # rs) = posted_link_codes qs rs"
| "posted_link_codes qs rs = []"

fun posted_media_codes :: "(request \<times> nat) list \<Rightarrow> reply list \<Rightarrow> string list" where
  "posted_media_codes ((POST_api_media h n ty sz c, now) # qs) (Media j # rs) =
     fst j # posted_media_codes qs rs"
| "posted_media_codes (q # qs) (r # rs) = posted_media_codes qs rs"
| "posted_media_codes qs rs = []"

fun is_delete :: "request \<Rightarrow> bool" where
  "is_delete (DELETE_api_admin_links c) = True"
| "is_delete (DELETE_api_admin_media c) = True"
| "is_delete q = False"

text \<open>
  The number of byte values that put the symbol \<open>c\<close> at position \<open>i\<close> of a generated
  code: with a uniform random byte at that position, the probability of \<open>c\<close> there is
  this number over 256.
\<close>

definition symbol_count :: "nat \<Rightarrow> char \<Rightarrow> nat" where
  "symbol_count i c = card {b :: byte. fst (generateShortCode 6 (sconst b)) ! i = c}"

text \<open>
  The same count for the contract's generator, whose random source is the 256-bit hash
  value: the number of hash values that put the symbol \<open>c\<close> at position \<open>i\<close> of the
  code, and the number of hash values that give the code \<open>c\<close>. With a uniform hash value
  the probabilities are these numbers over \<open>2^256\<close>.
\<close>

definition seed_count :: "nat \<Rightarrow> char \<Rightarrow> nat" where
  "seed_count i c = card {seed :: uint256. shortCode_loop 0 seed (replicate 6 (CHR 0x00)) ! i = c}"

definition code_count :: "string \<Rightarrow> nat" where
  "code_count c = card {seed :: uint256. shortCode_loop 0 seed (replicate 6 (CHR 0x00)) = c}"

text \<open>The reads that do not count: the contract's and the server's.\<close>

fun is_peek :: "call \<Rightarrow> bool" where
  "is_peek (GetLinkData c) = True"
| "is_peek (GetMediaData c) = True"
| "is_peek c = False"

fun is_peek_request :: "request \<Rightarrow> bool" where
  "is_peek_request (GET_api_links c) = True"
| "is_peek_request (GET_api_media c) = True"
| "is_peek_request q = False"

text \<open>
  The candidate codes of a creation, counted from 0: the contract's generator is called
  with the counter one further each time, the server's reads the next six bytes.
\<close>

definition link_candidate :: "keccak \<Rightarrow> tx_env \<Rightarrow> LinkIO \<Rightarrow> nat \<Rightarrow> string" where
  "link_candidate H e s k =
     fst (contract_generateShortCode H e LINK (s\<lparr>linkCounter := linkCounter s + of_nat k\<rparr>))"

definition media_candidate :: "keccak \<Rightarrow> tx_env \<Rightarrow> LinkIO \<Rightarrow> nat \<Rightarrow> string" where
  "media_candidate H e s k =
     fst (contract_generateShortCode H e MEDIA (s\<lparr>mediaCounter := mediaCounter s + of_nat k\<rparr>))"

definition candidate :: "entropy \<Rightarrow> nat \<Rightarrow> string" where
  "candidate rnd k = fst (generateShortCode 6 (sdrop (6 * k) rnd))"

text \<open>
  The counter of the record with a given row id, while the table holds it, and what
  \<open>PRIMARY KEY AUTOINCREMENT\<close> maintains of the two tables: no two rows share an id,
  and no id exceeds the sequence of its table.
\<close>

definition link_clicks :: "db \<Rightarrow> nat \<Rightarrow> nat option" where
  "link_clicks d i = map_option clicks (find (\<lambda>r. links_row.rowid r = i) (links d))"

definition media_views :: "db \<Rightarrow> nat \<Rightarrow> nat option" where
  "media_views d i = map_option views (find (\<lambda>r. media_row.rowid r = i) (media d))"


text \<open>
  A database that holds eleven links of one creator, created at the times 1 to 11: one
  more than a listing returns.
\<close>

definition eleven_links :: db where
  "eleven_links =
     \<lparr>links = map (\<lambda>i. \<lparr>links_row.rowid = i, links_row.short_code = chars ! i # ''aaaaa'',
                          original_url = ''https://example.com'', links_row.creator = ''0xABC'',
                          links_row.created_at = i, clicks = 0\<rparr>) [1..<12],
      links_seq = 11, media = [], media_seq = 0\<rparr>"

section \<open>Basic facts about the loops\<close>

declare shortCode_loop.simps [simp del]
declare generateShortCode_loop.simps [simp del]

lemma length_chars: "length chars = 62"
  by (simp add: chars_def)

lemma distinct_chars: "distinct chars"
  unfolding chars_def by code_simp

lemma shortCode_loop_unroll:
  "shortCode_loop 0 seed [a0, a1, a2, a3, a4, a5] =
     [chars ! unat (seed mod 62),
      chars ! unat (seed div 62 mod 62),
      chars ! unat (seed div 62 div 62 mod 62),
      chars ! unat (seed div 62 div 62 div 62 mod 62),
      chars ! unat (seed div 62 div 62 div 62 div 62 mod 62),
      chars ! unat (seed div 62 div 62 div 62 div 62 div 62 mod 62)]"
  by (simp add: shortCode_loop.simps)

lemma unat_mod_62: "unat ((w :: uint256) mod 62) < 62"
  by (simp add: unat_mod_distrib)

lemma chars_nth_mem: "k < 62 \<Longrightarrow> chars ! k \<in> set chars"
  by (simp add: length_chars)

lemma replicate_6: "replicate 6 z = [z, z, z, z, z, z]"
  by (simp add: eval_nat_numeral)

lemma contract_code_length: "length (fst (contract_generateShortCode H e t s)) = 6"
  by (simp add: contract_generateShortCode_def Let_def replicate_6 shortCode_loop_unroll)

lemma contract_code_chars: "set (fst (contract_generateShortCode H e t s)) \<subseteq> set chars"
  by (simp add: contract_generateShortCode_def Let_def replicate_6 shortCode_loop_unroll
      chars_nth_mem unat_mod_62)

lemma generateShortCode_loop_eq:
  "len \<le> length bytes \<Longrightarrow>
   generateShortCode_loop bytes len i result =
     result @ map (\<lambda>b. chars ! (unat b mod length chars)) (drop i (take len bytes))"
proof (induction bytes len i result rule: generateShortCode_loop.induct)
  case (1 bytes len i result)
  show ?case
  proof (cases "i < len")
    case True
    then have "drop i (take len bytes) = bytes ! i # drop (i + 1) (take len bytes)"
      using "1.prems" Cons_nth_drop_Suc[of i "take len bytes"] by simp
    with True "1.IH" "1.prems" show ?thesis
      by (subst generateShortCode_loop.simps) simp
  next
    case False
    then show ?thesis
      using "1.prems" by (subst generateShortCode_loop.simps) simp
  qed
qed

lemma generateShortCode_eq:
  "generateShortCode len rnd =
     (map (\<lambda>b. chars ! (unat b mod length chars)) (stake len rnd), sdrop len rnd)"
  by (simp add: generateShortCode_def randomBytes_def generateShortCode_loop_eq)

lemma while_taken_not_taken:
  assumes "while_taken f c rnd = Some y"
  shows "\<not> f (fst y)"
proof (rule while_taken.raw_induct[where P = "\<lambda>f c rnd y. \<not> f (fst y)", OF _ assms])
  fix wt :: "(string \<Rightarrow> bool) \<Rightarrow> string \<Rightarrow> entropy \<Rightarrow> (string \<times> entropy) option"
  fix f c rnd y
  assume IH: "\<And>f c rnd y. wt f c rnd = Some y \<Longrightarrow> \<not> f (fst y)"
    and eq: "(if f c then wt f (fst (generateShortCode 6 rnd)) (snd (generateShortCode 6 rnd))
          else Some (c, rnd)) = Some y"
  show "\<not> f (fst y)"
  proof (cases "f c")
    case True
    with eq have "wt f (fst (generateShortCode 6 rnd)) (snd (generateShortCode 6 rnd)) = Some y"
      by simp
    then show ?thesis by (rule IH)
  next
    case False
    with eq show ?thesis by auto
  qed
qed

lemma while_taken_terminates:
  "\<not> f (fst (generateShortCode 6 (sdrop (6 * n) rnd))) \<Longrightarrow>
   \<exists>y. while_taken f (fst (generateShortCode 6 rnd)) (snd (generateShortCode 6 rnd)) = Some y"
proof (induction n arbitrary: rnd)
  case 0
  then show ?case by (subst while_taken.simps) simp
next
  case (Suc n)
  have "sdrop (6 * Suc n) rnd = sdrop (6 * n) (snd (generateShortCode 6 rnd))"
    by (simp add: generateShortCode_eq sdrop_add[symmetric] add.commute del: sdrop_add)
  with Suc.prems Suc.IH[of "snd (generateShortCode 6 rnd)"] show ?case
    by (subst while_taken.simps) simp
qed

lemma byte_index_set:
  "{b :: byte. unat b mod 62 = k} = word_of_nat ` {n. n < 256 \<and> n mod 62 = k}"
proof (intro set_eqI iffI)
  fix b :: byte
  assume "b \<in> {b. unat b mod 62 = k}"
  moreover have "unat b < 256" using unsigned_less[of b, where 'a = nat] by simp
  ultimately show "b \<in> word_of_nat ` {n. n < 256 \<and> n mod 62 = k}"
    by (intro image_eqI[where x = "unat b"]) simp_all
next
  fix b :: byte
  assume "b \<in> word_of_nat ` {n. n < 256 \<and> n mod 62 = k}"
  then obtain n where "b = word_of_nat n" "n < 256" "n mod 62 = k" by auto
  then show "b \<in> {b. unat b mod 62 = k}"
    by (simp add: unat_of_nat)
qed

lemma nat_index_set:
  assumes "k < 62"
  shows "{n :: nat. n < 256 \<and> n mod 62 = k} =
           (\<lambda>q. 62 * q + k) ` {q. q < (if k < 8 then 5 else 4)}"
proof (intro set_eqI iffI)
  fix n :: nat
  assume "n \<in> {n. n < 256 \<and> n mod 62 = k}"
  then have n: "n < 256" "n mod 62 = k" by simp_all
  have dm: "n = 62 * (n div 62) + k" using n(2) by (metis mult_div_mod_eq)
  have "n div 62 < (if k < 8 then 5 else 4)" using n(1) dm by (cases "k < 8") simp_all
  with dm show "n \<in> (\<lambda>q. 62 * q + k) ` {q. q < (if k < 8 then 5 else 4)}"
    by blast
next
  fix n :: nat
  assume "n \<in> (\<lambda>q. 62 * q + k) ` {q. q < (if k < 8 then 5 else 4)}"
  then obtain q where q: "n = 62 * q + k" "q < (if k < 8 then 5 else 4)" by auto
  have "n < 256" using q assms by (cases "k < 8") simp_all
  moreover have "n mod 62 = k" using q(1) assms by simp
  ultimately show "n \<in> {n. n < 256 \<and> n mod 62 = k}" by simp
qed

lemma byte_index_card:
  assumes "k < 62"
  shows "card {b :: byte. unat b mod 62 = k} = (if k < 8 then 5 else 4)"
proof -
  have inj: "inj_on (word_of_nat :: nat \<Rightarrow> byte) {n. n < 256 \<and> n mod 62 = k}"
    by (rule inj_onI) (simp add: word_of_nat_eq_iff take_bit_nat_eq_self)
  have inj2: "inj_on (\<lambda>q :: nat. 62 * q + k) {q. q < (if k < 8 then 5 else 4)}"
    by (rule inj_onI) simp
  have "card {b :: byte. unat b mod 62 = k} = card {n :: nat. n < 256 \<and> n mod 62 = k}"
    by (simp only: byte_index_set card_image[OF inj])
  also have "\<dots> = card {q :: nat. q < (if k < 8 then 5 else 4)}"
    by (simp only: nat_index_set[OF assms] card_image[OF inj2])
  finally show ?thesis by simp
qed

lemma generated_nth_sconst:
  "i < 6 \<Longrightarrow> fst (generateShortCode 6 (sconst b)) ! i = chars ! (unat b mod 62)"
  by (simp add: generateShortCode_eq length_chars)

lemma chars_nth_eq: "m < 62 \<Longrightarrow> k < 62 \<Longrightarrow> chars ! m = chars ! k \<longleftrightarrow> m = k"
  using distinct_chars by (simp add: nth_eq_iff_index_eq length_chars)

lemma symbol_count_eq:
  assumes "i < 6" "k < 62"
  shows "symbol_count i (chars ! k) = (if k < 8 then 5 else 4)"
proof -
  have "{b :: byte. fst (generateShortCode 6 (sconst b)) ! i = chars ! k} = {b. unat b mod 62 = k}"
    using assms by (simp add: generated_nth_sconst chars_nth_eq)
  then show ?thesis
    unfolding symbol_count_def using byte_index_card[OF assms(2)] by simp
qed

section \<open>The code generator\<close>

subsection \<open>Residues of a machine word\<close>

lemma nat_residue_set:
  assumes "m < M"
  shows "{n :: nat. n < N \<and> n mod M = m} =
           (\<lambda>q. M * q + m) ` {q. q < N div M + (if m < N mod M then 1 else 0)}"
proof (intro set_eqI iffI)
  fix n :: nat
  assume "n \<in> {n. n < N \<and> n mod M = m}"
  then have n: "n < N" "n mod M = m" by simp_all
  have dm: "n = M * (n div M) + m" using n(2) by (metis mult_div_mod_eq)
  have le: "n div M \<le> N div M" using n(1) by (simp add: div_le_mono)
  have "n div M < N div M + (if m < N mod M then 1 else 0)"
  proof (cases "n div M = N div M")
    case True
    have "M * (N div M) + m < N"
      using n(1) dm True by simp
    then have "m < N mod M"
      using mult_div_mod_eq[of M N] by linarith
    with True show ?thesis by simp
  next
    case False
    with le show ?thesis by simp
  qed
  with dm show "n \<in> (\<lambda>q. M * q + m) ` {q. q < N div M + (if m < N mod M then 1 else 0)}"
    by blast
next
  fix n :: nat
  assume "n \<in> (\<lambda>q. M * q + m) ` {q. q < N div M + (if m < N mod M then 1 else 0)}"
  then obtain q where q: "n = M * q + m" "q < N div M + (if m < N mod M then 1 else 0)" by auto
  have "n < N"
  proof (cases "q < N div M")
    case True
    then have "Suc q \<le> N div M" by simp
    then have "M * Suc q \<le> M * (N div M)" by (rule mult_le_mono2)
    also have "\<dots> \<le> N" by simp
    finally have "M * q + M \<le> N" by simp
    with assms q(1) show ?thesis by simp
  next
    case False
    with q(2) have e: "q = N div M" "m < N mod M" by (simp_all split: if_splits)
    from q(1) e(1) have "n = M * (N div M) + m" by simp
    with e(2) mult_div_mod_eq[of M N] show ?thesis by linarith
  qed
  moreover have "n mod M = m" using q(1) assms by simp
  ultimately show "n \<in> {n. n < N \<and> n mod M = m}" by simp
qed

lemma nat_residue_card:
  assumes "m < M"
  shows "card {n :: nat. n < N \<and> n mod M = m} = N div M + (if m < N mod M then 1 else 0)"
proof -
  from assms have "0 < M" by simp
  then have inj: "inj_on (\<lambda>q :: nat. M * q + m) {q. q < N div M + (if m < N mod M then 1 else 0)}"
    by (intro inj_onI) simp
  show ?thesis
    by (simp only: nat_residue_set[OF assms] card_image[OF inj] card_Collect_less_nat)
qed

lemma word_residue_set:
  "{w :: 'a::len word. unat w mod M = m} = word_of_nat ` {n. n < 2 ^ LENGTH('a) \<and> n mod M = m}"
proof (intro set_eqI iffI)
  fix w :: "'a word"
  assume "w \<in> {w. unat w mod M = m}"
  moreover have "unat w < 2 ^ LENGTH('a)" by (rule unsigned_less)
  ultimately show "w \<in> word_of_nat ` {n. n < 2 ^ LENGTH('a) \<and> n mod M = m}"
    by (intro image_eqI[where x = "unat w"]) simp_all
next
  fix w :: "'a word"
  assume "w \<in> word_of_nat ` {n. n < 2 ^ LENGTH('a) \<and> n mod M = m}"
  then obtain n where "w = word_of_nat n" "n < 2 ^ LENGTH('a)" "n mod M = m" by auto
  then show "w \<in> {w. unat w mod M = m}"
    by (simp add: unat_of_nat)
qed

lemma word_residue_card:
  assumes "m < M"
  shows "card {w :: 'a::len word. unat w mod M = m} =
           2 ^ LENGTH('a) div M + (if m < 2 ^ LENGTH('a) mod M then 1 else 0)"
proof -
  have inj: "inj_on (word_of_nat :: nat \<Rightarrow> 'a word) {n. n < 2 ^ LENGTH('a) \<and> n mod M = m}"
    by (rule inj_onI) (simp add: word_of_nat_eq_iff take_bit_nat_eq_self)
  show ?thesis
    by (simp only: word_residue_set card_image[OF inj] nat_residue_card[OF assms])
qed

lemma seed_residue_card:
  assumes "m < M"
  shows "card {seed :: uint256. unat seed mod M = m} =
           2 ^ 256 div M + (if m < 2 ^ 256 mod M then 1 else 0)"
  using word_residue_card[OF assms, where 'a = 256] by simp


lemma div_62_pow:
  "(n :: nat) div 62 div 62 = n div 62 ^ 2"
  "(n :: nat) div 62 div 62 div 62 = n div 62 ^ 3"
  "(n :: nat) div 62 div 62 div 62 div 62 = n div 62 ^ 4"
  "(n :: nat) div 62 div 62 div 62 div 62 div 62 = n div 62 ^ 5"
  by (simp_all add: div_mult2_eq[symmetric])

lemma upt_6: "[0..<6] = [0, 1, 2, 3, 4, 5]"
  by code_simp

lemma shortCode_loop_digits:
  "shortCode_loop 0 seed (replicate 6 z) = map (\<lambda>i. chars ! (unat seed div 62 ^ i mod 62)) [0..<6]"
proof -
  have L: "shortCode_loop 0 seed (replicate 6 z) =
      [chars ! (unat seed mod 62),
       chars ! (unat seed div 62 mod 62),
       chars ! (unat seed div 62 div 62 mod 62),
       chars ! (unat seed div 62 div 62 div 62 mod 62),
       chars ! (unat seed div 62 div 62 div 62 div 62 mod 62),
       chars ! (unat seed div 62 div 62 div 62 div 62 div 62 mod 62)]"
    by (simp add: replicate_6 shortCode_loop_unroll unat_mod unat_div)
  have R: "map (\<lambda>i. chars ! (unat seed div 62 ^ i mod 62)) [0..<6] =
      [chars ! (unat seed mod 62),
       chars ! (unat seed div 62 mod 62),
       chars ! (unat seed div 62 div 62 mod 62),
       chars ! (unat seed div 62 div 62 div 62 mod 62),
       chars ! (unat seed div 62 div 62 div 62 div 62 mod 62),
       chars ! (unat seed div 62 div 62 div 62 div 62 div 62 mod 62)]"
    by (simp only: upt_6 list.map div_62_pow[symmetric] power_0 power_one_right div_by_1)
  show ?thesis by (simp only: L R)
qed

lemma contract_code_digits:
  "fst (contract_generateShortCode H e LINK s) =
     map (\<lambda>i. chars ! (unat (H (block_timestamp e) (block_prevrandao e) (msg_sender e)
                                  (linkCounter s + 1)) div 62 ^ i mod 62)) [0..<6]"
  "fst (contract_generateShortCode H e MEDIA s) =
     map (\<lambda>i. chars ! (unat (H (block_timestamp e) (block_prevrandao e) (msg_sender e)
                                  (mediaCounter s + 1)) div 62 ^ i mod 62)) [0..<6]"
  by (simp_all add: contract_generateShortCode_def Let_def shortCode_loop_digits)

lemma seed_count_eq:
  assumes "k < 62"
  shows "seed_count 0 (chars ! k) = 2 ^ 256 div 62 + (if k < 2 then 1 else 0)"
proof -
  have "{seed :: uint256. shortCode_loop 0 seed (replicate 6 (CHR 0x00)) ! 0 = chars ! k}
      = {seed. unat seed mod 62 = k}"
    using assms by (simp add: shortCode_loop_digits upt_6 chars_nth_eq)
  moreover have "(2 :: nat) ^ 256 mod 62 = 2" by simp
  ultimately show ?thesis
    unfolding seed_count_def using seed_residue_card[OF assms] by simp
qed

lemma digits_eq_iff:
  assumes "0 < (b :: nat)"
  shows "(\<forall>i<k. n div b ^ i mod b = m div b ^ i mod b) \<longleftrightarrow> n mod b ^ k = m mod b ^ k"
proof (induction k)
  case 0
  show ?case by simp
next
  case (Suc k)
  have e: "\<And>x :: nat. x mod b ^ Suc k = b ^ k * (x div b ^ k mod b) + x mod b ^ k"
    by (simp only: power_Suc2 mod_mult2_eq)
  have lt: "\<And>x :: nat. x mod b ^ k < b ^ k" using assms by simp
  show ?case
  proof
    assume a: "\<forall>i<Suc k. n div b ^ i mod b = m div b ^ i mod b"
    then have "n mod b ^ k = m mod b ^ k" using Suc.IH by simp
    moreover from a have "n div b ^ k mod b = m div b ^ k mod b" by simp
    ultimately show "n mod b ^ Suc k = m mod b ^ Suc k" by (simp only: e)
  next
    assume a: "n mod b ^ Suc k = m mod b ^ Suc k"
    have "n mod b ^ k = n mod b ^ Suc k mod b ^ k"
      by (simp add: mod_mod_cancel)
    also have "\<dots> = m mod b ^ Suc k mod b ^ k" by (simp only: a)
    also have "\<dots> = m mod b ^ k" by (simp add: mod_mod_cancel)
    finally have l: "n mod b ^ k = m mod b ^ k" .
    from a l have "b ^ k * (n div b ^ k mod b) = b ^ k * (m div b ^ k mod b)"
      by (simp only: e)
    then have "n div b ^ k mod b = m div b ^ k mod b" using assms by simp
    with l Suc.IH show "\<forall>i<Suc k. n div b ^ i mod b = m div b ^ i mod b"
      by (auto simp: less_Suc_eq)
  qed
qed

lemma code_count_eq:
  assumes "m < 62 ^ 6"
  shows "code_count (map (\<lambda>i. chars ! (m div 62 ^ i mod 62)) [0..<6]) =
           2 ^ 256 div 62 ^ 6 + (if m < 2 ^ 256 mod 62 ^ 6 then 1 else 0)"
proof -
  have "\<And>seed :: uint256.
      shortCode_loop 0 seed (replicate 6 (CHR 0x00)) = map (\<lambda>i. chars ! (m div 62 ^ i mod 62)) [0..<6]
      \<longleftrightarrow> unat seed mod 62 ^ 6 = m"
  proof -
    fix seed :: uint256
    have "shortCode_loop 0 seed (replicate 6 (CHR 0x00)) =
            map (\<lambda>i. chars ! (m div 62 ^ i mod 62)) [0..<6]
        \<longleftrightarrow> (\<forall>i<6. chars ! (unat seed div 62 ^ i mod 62) = chars ! (m div 62 ^ i mod 62))"
      unfolding shortCode_loop_digits map_eq_conv by auto
    also have "\<dots> \<longleftrightarrow> (\<forall>i<6. unat seed div 62 ^ i mod 62 = m div 62 ^ i mod 62)"
      by (simp add: chars_nth_eq)
    also have "\<dots> \<longleftrightarrow> unat seed mod 62 ^ 6 = m mod 62 ^ 6"
      by (rule digits_eq_iff) simp
    also have "m mod 62 ^ 6 = m" using assms by simp
    finally show "shortCode_loop 0 seed (replicate 6 (CHR 0x00)) =
            map (\<lambda>i. chars ! (m div 62 ^ i mod 62)) [0..<6]
        \<longleftrightarrow> unat seed mod 62 ^ 6 = m" .
  qed
  then show ?thesis
    unfolding code_count_def using seed_residue_card[OF assms] by simp
qed

subsection \<open>The symbols of a code\<close>

text \<open>
  C3, as amended. Every code of either generator has exactly 6 characters of the
  62-symbol alphabet. In the service, character \<open>i\<close> is \<open>chars[b mod 62]\<close> for byte
  \<open>i\<close> of the random buffer alone, and the symbols are not equally likely: at every
  position, 5 of the 256 byte values give each of the first eight symbols \<open>a\<close> to
  \<open>h\<close>, and 4 give each of the other 54. In the contract, character \<open>i\<close> is
  \<open>chars[(seed div 62^i) mod 62]\<close>, the base-62 digit of weight \<open>62^i\<close> of the
  256-bit hash of the block's time, its randomness, the sender and the incremented
  counter of the namespace. There the symbols are not equally likely either, though
  barely: of the \<open>2^256\<close> hash values, \<open>2^256 div 62 + 1\<close> give the first
  character \<open>a\<close>, as many give \<open>b\<close>, and \<open>2^256 div 62\<close> give each of the other
  60 symbols. The six characters together: the code whose digits spell the number
  \<open>m < 62^6\<close> comes from \<open>2^256 div 62^6\<close> hash values, and from one more when
  \<open>m < 2^256 mod 62^6\<close>.
\<close>

theorem generateShortCode_symbols:
  "length (fst (generateShortCode 6 rnd)) = 6
   \<and> fst (generateShortCode 6 rnd) = map (\<lambda>b. chars ! (unat b mod 62)) (stake 6 rnd)
   \<and> set (fst (generateShortCode 6 rnd)) \<subseteq> set chars
   \<and> length (fst (contract_generateShortCode H e t s)) = 6
   \<and> set (fst (contract_generateShortCode H e t s)) \<subseteq> set chars
   \<and> fst (contract_generateShortCode H e LINK s) =
       map (\<lambda>i. chars ! (unat (H (block_timestamp e) (block_prevrandao e) (msg_sender e)
                                    (linkCounter s + 1)) div 62 ^ i mod 62)) [0..<6]
   \<and> fst (contract_generateShortCode H e MEDIA s) =
       map (\<lambda>i. chars ! (unat (H (block_timestamp e) (block_prevrandao e) (msg_sender e)
                                    (mediaCounter s + 1)) div 62 ^ i mod 62)) [0..<6]
   \<and> (\<forall>i<6. \<forall>k<62. symbol_count i (chars ! k) = (if k < 8 then 5 else 4))
   \<and> (\<forall>k<62. seed_count 0 (chars ! k) = 2 ^ 256 div 62 + (if k < 2 then 1 else 0))
   \<and> (\<forall>m<62 ^ 6. code_count (map (\<lambda>i. chars ! (m div 62 ^ i mod 62)) [0..<6]) =
         2 ^ 256 div 62 ^ 6 + (if m < 2 ^ 256 mod 62 ^ 6 then 1 else 0))"
proof -
  have c1: "length (fst (generateShortCode 6 rnd)) = 6"
    by (simp add: generateShortCode_eq)
  have c2: "fst (generateShortCode 6 rnd) = map (\<lambda>b. chars ! (unat b mod 62)) (stake 6 rnd)"
    by (simp add: generateShortCode_eq length_chars)
  have c3: "set (fst (generateShortCode 6 rnd)) \<subseteq> set chars"
    by (auto simp: generateShortCode_eq length_chars)
  have c8: "\<forall>i<6. \<forall>k<62. symbol_count i (chars ! k) = (if k < 8 then 5 else 4)"
    using symbol_count_eq by blast
  have c9: "\<forall>k<62. seed_count 0 (chars ! k) = 2 ^ 256 div 62 + (if k < 2 then 1 else 0)"
    using seed_count_eq by blast
  have c10: "\<forall>m<62 ^ 6. code_count (map (\<lambda>i. chars ! (m div 62 ^ i mod 62)) [0..<6]) =
         2 ^ 256 div 62 ^ 6 + (if m < 2 ^ 256 mod 62 ^ 6 then 1 else 0)"
    using code_count_eq by blast
  show ?thesis
    by (intro conjI c1 c2 c3 contract_code_length contract_code_chars contract_code_digits
        c8 c9 c10)
qed

text \<open>
  The all-zero buffer gives \<open>aaaaaa\<close> and the hash value 1 gives \<open>baaaaa\<close>; the
  counts of \<open>a\<close> and \<open>9\<close> among the bytes, of \<open>b\<close> and of the code
  \<open>baaaaa\<close> among the hash values.
\<close>

theorem generateShortCode_symbols_witness:
  "fst (generateShortCode 6 (sconst 0)) = ''aaaaaa''
   \<and> fst (contract_generateShortCode (\<lambda>ts pr a c. c)
          \<lparr>block_timestamp = 1, block_prevrandao = 2, msg_sender = 3\<rparr> LINK deployed) = ''baaaaa''
   \<and> symbol_count 0 (CHR ''a'') = 5 \<and> symbol_count 5 (CHR ''9'') = 4
   \<and> seed_count 0 (CHR ''b'') = 2 ^ 256 div 62 + 1
   \<and> code_count ''baaaaa'' = 2 ^ 256 div 62 ^ 6 + 1"
proof -
  let ?H = "\<lambda>(ts :: uint256) (pr :: uint256) (a :: address) (c :: uint256). c"
  let ?e = "\<lparr>block_timestamp = 1, block_prevrandao = 2, msg_sender = 3\<rparr>"
  have a: "chars ! 0 = CHR ''a''" and b: "chars ! 1 = CHR ''b''" and z: "chars ! 61 = CHR ''9''"
    by (simp_all add: chars_def)
  have s6: "stake 6 (sconst (0 :: byte)) = [0, 0, 0, 0, 0, 0]"
    by (simp add: eval_nat_numeral)
  note T = generateShortCode_symbols[of "sconst 0" ?H ?e LINK deployed]
  have "fst (generateShortCode 6 (sconst 0)) =
          map (\<lambda>b. chars ! (unat b mod 62)) (stake 6 (sconst (0 :: byte)))"
    using T by blast
  also have "\<dots> = ''aaaaaa''"
    unfolding s6 using a by simp
  finally have g: "fst (generateShortCode 6 (sconst 0)) = ''aaaaaa''" .
  have d: "map (\<lambda>i. chars ! ((1 :: nat) div 62 ^ i mod 62)) [0..<6] = ''baaaaa''"
    unfolding upt_6 using a b by simp
  have "fst (contract_generateShortCode ?H ?e LINK deployed) =
          map (\<lambda>i. chars ! (unat (1 :: uint256) div 62 ^ i mod 62)) [0..<6]"
    using T by (simp add: deployed_def)
  with d have h: "fst (contract_generateShortCode ?H ?e LINK deployed) = ''baaaaa''"
    by simp
  have "symbol_count 0 (chars ! 0) = 5" "symbol_count 5 (chars ! 61) = 4"
    "seed_count 0 (chars ! 1) = 2 ^ 256 div 62 + 1"
    using T by simp_all
  moreover have "code_count (map (\<lambda>i. chars ! ((1 :: nat) div 62 ^ i mod 62)) [0..<6]) =
         2 ^ 256 div 62 ^ 6 + 1"
    using T by simp
  ultimately show ?thesis
    using a b z g h d by simp
qed

text \<open>
  C3 as stated fails. In the service, with a uniform random byte, the first symbol of a
  code is \<open>a\<close> with probability 5/256 and \<open>9\<close> with probability 4/256. In the
  contract, with a uniform hash value, one more hash value gives the first symbol
  \<open>a\<close> than gives \<open>9\<close>.
\<close>

theorem generateShortCode_not_uniform:
  "symbol_count 0 (CHR ''a'') = 5 \<and> symbol_count 0 (CHR ''9'') = 4
   \<and> seed_count 0 (CHR ''a'') = 2 ^ 256 div 62 + 1 \<and> seed_count 0 (CHR ''9'') = 2 ^ 256 div 62"
proof -
  have a: "chars ! 0 = CHR ''a''" and z: "chars ! 61 = CHR ''9''"
    by (simp_all add: chars_def)
  from symbol_count_eq[of 0 0] symbol_count_eq[of 0 61] seed_count_eq[of 0] seed_count_eq[of 61]
    a z show ?thesis
    by simp
qed

subsection \<open>What the contract's generator touches\<close>

lemma gen_frame:
  "LinkIO.links (snd (contract_generateShortCode H e t s)) = LinkIO.links s"
  "LinkIO.media (snd (contract_generateShortCode H e t s)) = LinkIO.media s"
  "userLinks (snd (contract_generateShortCode H e t s)) = userLinks s"
  "userMedia (snd (contract_generateShortCode H e t s)) = userMedia s"
  by (simp_all add: contract_generateShortCode_def Let_def)

lemma gen_counters:
  "linkCounter (snd (contract_generateShortCode H e LINK s)) = linkCounter s + 1"
  "mediaCounter (snd (contract_generateShortCode H e LINK s)) = mediaCounter s"
  "mediaCounter (snd (contract_generateShortCode H e MEDIA s)) = mediaCounter s + 1"
  "linkCounter (snd (contract_generateShortCode H e MEDIA s)) = linkCounter s"
  by (simp_all add: contract_generateShortCode_def Let_def)

lemma gen_code_independent:
  "fst (contract_generateShortCode H e t
          (s\<lparr>LinkIO.links := L, LinkIO.media := M, userLinks := UL, userMedia := UM\<rparr>)) =
   fst (contract_generateShortCode H e t s)"
  by (simp add: contract_generateShortCode_def Let_def)

text \<open>
  C8, as amended. The contract's generator leaves the stored records and the per-user
  code lists unchanged, but it adds one to the total counter of the namespace it is
  called for (and leaves the other namespace's counter alone). Its result does not depend
  on the stored records or lists, so it makes no uniqueness check. The service's generator
  is a function of the random bytes alone: it has no access to the database.
\<close>

theorem generator_effects:
  "LinkIO.links (snd (contract_generateShortCode H e t s)) = LinkIO.links s
   \<and> LinkIO.media (snd (contract_generateShortCode H e t s)) = LinkIO.media s
   \<and> userLinks (snd (contract_generateShortCode H e t s)) = userLinks s
   \<and> userMedia (snd (contract_generateShortCode H e t s)) = userMedia s
   \<and> getTotalLinks (snd (contract_generateShortCode H e LINK s)) = getTotalLinks s + 1
   \<and> getTotalMedia (snd (contract_generateShortCode H e LINK s)) = getTotalMedia s
   \<and> getTotalMedia (snd (contract_generateShortCode H e MEDIA s)) = getTotalMedia s + 1
   \<and> getTotalLinks (snd (contract_generateShortCode H e MEDIA s)) = getTotalLinks s
   \<and> fst (contract_generateShortCode H e t
            (s\<lparr>LinkIO.links := L, LinkIO.media := M, userLinks := UL, userMedia := UM\<rparr>)) =
       fst (contract_generateShortCode H e t s)
   \<and> generateShortCode 6 rnd =
       (map (\<lambda>b. chars ! (unat b mod length chars)) (stake 6 rnd), sdrop 6 rnd)"
  by (simp only: getTotalLinks_def getTotalMedia_def gen_frame gen_counters gen_code_independent
      generateShortCode_eq simp_thms)

text \<open>
  C8 as stated fails: one call of the contract's generator on the freshly deployed
  contract moves the total of the link namespace from 0 to 1.
\<close>

theorem generator_changes_counter:
  "getTotalLinks deployed = 0
   \<and> getTotalLinks (snd (contract_generateShortCode (\<lambda>ts pr a c. c)
        \<lparr>block_timestamp = 1, block_prevrandao = 2, msg_sender = 3\<rparr> LINK deployed)) = 1"
  by (simp add: getTotalLinks_def deployed_def contract_generateShortCode_def Let_def)

section \<open>Reads that do not count\<close>

lemma transact_peek: "is_peek c \<Longrightarrow> transact H (e, gas, c) s = s"
  by (cases c) simp_all

lemma transact_all_peeks:
  "\<forall>t\<in>set ts. is_peek (snd (snd t)) \<Longrightarrow> transact_all H ts s = s"
proof (induction ts)
  case Nil
  then show ?case by simp
next
  case (Cons t ts)
  obtain e gas c where t: "t = (e, gas, c)" by (cases t)
  with Cons show ?case by (simp add: transact_peek)
qed

lemma handle_peek:
  "is_peek_request q \<Longrightarrow> \<exists>r. handle (q, now) (d, rnd) = Some (r, d, rnd)"
  by (cases q) simp_all

lemma serve_peeks:
  "\<forall>q\<in>set qs. is_peek_request (fst q) \<Longrightarrow>
   \<exists>rs. serve qs (d, rnd) = Some (rs, d, rnd)
        \<and> list_all2 (\<lambda>q r. handle q (d, rnd) = Some (r, d, rnd)) qs rs"
proof (induction qs)
  case Nil
  then show ?case by simp
next
  case (Cons q qs)
  obtain q' now where q: "q = (q', now)" by (cases q)
  from Cons.prems q obtain r where r: "handle q (d, rnd) = Some (r, d, rnd)"
    using handle_peek[of q' now d rnd] by auto
  from Cons obtain rs where rs: "serve qs (d, rnd) = Some (rs, d, rnd)"
    "list_all2 (\<lambda>q r. handle q (d, rnd) = Some (r, d, rnd)) qs rs" by auto
  show ?case
    using r rs by simp
qed

text \<open>
  C10. A run of non-counting reads, the contract's \<open>getLinkData\<close> and \<open>getMediaData\<close>
  in any number and order, leaves the whole storage as it was, so a read after the run
  returns what it returned before. The same holds of the server's
  \<open>GET /api/links/:shortCode\<close> and \<open>GET /api/media/:shortCode\<close>: the run ends, it
  leaves the database (and the random source) as they were, and every reply of the run
  is the reply that the request gets alone on the initial database.
\<close>

theorem peek_pure:
  "((\<forall>t\<in>set ts. is_peek (snd (snd t))) \<longrightarrow>
      transact_all H ts s = s
      \<and> getLinkData c (transact_all H ts s) = getLinkData c s
      \<and> getMediaData c (transact_all H ts s) = getMediaData c s)
   \<and> ((\<forall>q\<in>set qs. is_peek_request (fst q)) \<longrightarrow>
      (\<exists>rs. serve qs (d, rnd) = Some (rs, d, rnd)
         \<and> list_all2 (\<lambda>q r. handle q (d, rnd) = Some (r, d, rnd)) qs rs))"
  using transact_all_peeks[of ts H s] serve_peeks[of qs d rnd] by simp

text \<open>
  Three reads on the deployed contract, and three on a database that holds one link
  with four clicks.
\<close>

theorem peek_pure_witness:
  "transact_all (\<lambda>ts pr a c. c)
     [(\<lparr>block_timestamp = 1, block_prevrandao = 2, msg_sender = 3\<rparr>, 0, GetLinkData ''aaaaaa''),
      (\<lparr>block_timestamp = 2, block_prevrandao = 5, msg_sender = 4\<rparr>, 0, GetMediaData ''aaaaaa''),
      (\<lparr>block_timestamp = 3, block_prevrandao = 7, msg_sender = 3\<rparr>, 0, GetLinkData ''aaaaaa'')]
     deployed = deployed
   \<and> serve [(GET_api_links ''aaaaaa'', 10), (GET_api_media ''aaaaaa'', 11), (GET_api_links ''aaaaaa'', 12)]
        (\<lparr>links = [\<lparr>links_row.rowid = 1, links_row.short_code = ''aaaaaa'',
                     original_url = ''https://example.com/test'', links_row.creator = ''0xABC'',
                     links_row.created_at = 5, clicks = 4\<rparr>],
          links_seq = 1, media = [], media_seq = 0\<rparr>, sconst 0) =
      Some ([Link (''aaaaaa'', ''https://example.com/test'', ''0xABC'', 5, 4),
             Error 404 ''Media not found'',
             Link (''aaaaaa'', ''https://example.com/test'', ''0xABC'', 5, 4)],
        \<lparr>links = [\<lparr>links_row.rowid = 1, links_row.short_code = ''aaaaaa'',
                     original_url = ''https://example.com/test'', links_row.creator = ''0xABC'',
                     links_row.created_at = 5, clicks = 4\<rparr>],
          links_seq = 1, media = [], media_seq = 0\<rparr>, sconst 0)"
proof -
  let ?ts = "[(\<lparr>block_timestamp = 1, block_prevrandao = 2, msg_sender = 3\<rparr>, 0 :: nat, GetLinkData ''aaaaaa''),
      (\<lparr>block_timestamp = 2, block_prevrandao = 5, msg_sender = 4\<rparr>, 0, GetMediaData ''aaaaaa''),
      (\<lparr>block_timestamp = 3, block_prevrandao = 7, msg_sender = 3\<rparr>, 0, GetLinkData ''aaaaaa'')]"
  let ?qs = "[(GET_api_links ''aaaaaa'', 10 :: nat), (GET_api_media ''aaaaaa'', 11), (GET_api_links ''aaaaaa'', 12)]"
  let ?d = "\<lparr>links = [\<lparr>links_row.rowid = 1, links_row.short_code = ''aaaaaa'',
                     original_url = ''https://example.com/test'', links_row.creator = ''0xABC'',
                     links_row.created_at = 5, clicks = 4\<rparr>],
          links_seq = 1, media = [], media_seq = 0\<rparr>"
  have "\<forall>t\<in>set ?ts. is_peek (snd (snd t))" by simp
  then have c: "transact_all (\<lambda>ts pr a c. c) ?ts deployed = deployed"
    using peek_pure[of ?ts] by blast
  have "\<forall>q\<in>set ?qs. is_peek_request (fst q)" by simp
  then obtain rs where rs: "serve ?qs (?d, sconst 0) = Some (rs, ?d, sconst 0)"
    "list_all2 (\<lambda>q r. handle q (?d, sconst 0) = Some (r, ?d, sconst 0)) ?qs rs"
    using peek_pure[of _ _ _ _ ?qs ?d "sconst 0"] by blast
  from rs(2) have "rs = [Link (''aaaaaa'', ''https://example.com/test'', ''0xABC'', 5, 4),
             Error 404 ''Media not found'',
             Link (''aaaaaa'', ''https://example.com/test'', ''0xABC'', 5, 4)]"
    by (simp add: list_all2_Cons1 get_api_links_def get_api_media_def links_get_def media_get_def
        link_json_def)
  with c rs(1) show ?thesis by simp
qed

section \<open>Creation\<close>

subsection \<open>The contract's retry loops\<close>

lemma gen_state:
  "snd (contract_generateShortCode H e LINK s) = s\<lparr>linkCounter := linkCounter s + 1\<rparr>"
  "snd (contract_generateShortCode H e MEDIA s) = s\<lparr>mediaCounter := mediaCounter s + 1\<rparr>"
  by (simp_all add: contract_generateShortCode_def Let_def)

lemma link_candidate_0: "link_candidate H e s 0 = fst (contract_generateShortCode H e LINK s)"
  by (simp add: link_candidate_def)

lemma media_candidate_0: "media_candidate H e s 0 = fst (contract_generateShortCode H e MEDIA s)"
  by (simp add: media_candidate_def)

lemma link_candidate_Suc:
  "link_candidate H e (snd (contract_generateShortCode H e LINK s)) k = link_candidate H e s (Suc k)"
  by (simp add: link_candidate_def gen_state add.assoc)

lemma media_candidate_Suc:
  "media_candidate H e (snd (contract_generateShortCode H e MEDIA s)) k = media_candidate H e s (Suc k)"
  by (simp add: media_candidate_def gen_state add.assoc)

lemma links_unique_Inr:
  "links_unique gas H e c s = Inr (c', s') \<Longrightarrow>
     \<not> LinkData.exists (LinkIO.links s c') \<and> LinkIO.links s' = LinkIO.links s
     \<and> LinkIO.media s' = LinkIO.media s \<and> userLinks s' = userLinks s
     \<and> userMedia s' = userMedia s \<and> mediaCounter s' = mediaCounter s"
proof (induction gas arbitrary: c s)
  case 0
  then show ?case by (auto split: if_splits)
next
  case (Suc gas)
  show ?case
  proof (cases "LinkData.exists (LinkIO.links s c)")
    case True
    with Suc.prems have "links_unique gas H e (fst (contract_generateShortCode H e LINK s))
        (snd (contract_generateShortCode H e LINK s)) = Inr (c', s')" by simp
    from Suc.IH[OF this] show ?thesis by (simp add: gen_frame gen_counters)
  next
    case False
    with Suc.prems show ?thesis by auto
  qed
qed

lemma media_unique_Inr:
  "media_unique gas H e c s = Inr (c', s') \<Longrightarrow>
     \<not> MediaData.exists (LinkIO.media s c') \<and> LinkIO.media s' = LinkIO.media s
     \<and> LinkIO.links s' = LinkIO.links s \<and> userLinks s' = userLinks s
     \<and> userMedia s' = userMedia s \<and> linkCounter s' = linkCounter s"
proof (induction gas arbitrary: c s)
  case 0
  then show ?case by (auto split: if_splits)
next
  case (Suc gas)
  show ?case
  proof (cases "MediaData.exists (LinkIO.media s c)")
    case True
    with Suc.prems have "media_unique gas H e (fst (contract_generateShortCode H e MEDIA s))
        (snd (contract_generateShortCode H e MEDIA s)) = Inr (c', s')" by simp
    from Suc.IH[OF this] show ?thesis by (simp add: gen_frame gen_counters)
  next
    case False
    with Suc.prems show ?thesis by auto
  qed
qed

lemma links_unique_Inl: "links_unique gas H e c s = Inl r \<Longrightarrow> r = OutOfGas"
  by (induction gas arbitrary: c s) (auto split: if_splits)

lemma media_unique_Inl: "media_unique gas H e c s = Inl r \<Longrightarrow> r = OutOfGas"
  by (induction gas arbitrary: c s) (auto split: if_splits)

lemma links_unique_enough_gas:
  "k \<le> gas \<Longrightarrow> \<not> LinkData.exists (LinkIO.links s (link_candidate H e s k)) \<Longrightarrow>
   \<exists>y. links_unique gas H e (fst (contract_generateShortCode H e LINK s))
         (snd (contract_generateShortCode H e LINK s)) = Inr y"
proof (induction gas arbitrary: k s)
  case 0
  then show ?case by (simp add: link_candidate_0 gen_frame)
next
  case (Suc gas)
  let ?s1 = "snd (contract_generateShortCode H e LINK s)"
  show ?case
  proof (cases "LinkData.exists (LinkIO.links s (link_candidate H e s 0))")
    case False
    then show ?thesis by (simp add: link_candidate_0 gen_frame)
  next
    case True
    with Suc.prems obtain k' where k': "k = Suc k'" by (cases k) auto
    with Suc.prems have "k' \<le> gas"
      "\<not> LinkData.exists (LinkIO.links ?s1 (link_candidate H e ?s1 k'))"
      by (simp_all add: link_candidate_Suc gen_frame)
    from Suc.IH[OF this] True show ?thesis
      by (simp add: link_candidate_0 gen_frame)
  qed
qed

lemma media_unique_enough_gas:
  "k \<le> gas \<Longrightarrow> \<not> MediaData.exists (LinkIO.media s (media_candidate H e s k)) \<Longrightarrow>
   \<exists>y. media_unique gas H e (fst (contract_generateShortCode H e MEDIA s))
         (snd (contract_generateShortCode H e MEDIA s)) = Inr y"
proof (induction gas arbitrary: k s)
  case 0
  then show ?case by (simp add: media_candidate_0 gen_frame)
next
  case (Suc gas)
  let ?s1 = "snd (contract_generateShortCode H e MEDIA s)"
  show ?case
  proof (cases "MediaData.exists (LinkIO.media s (media_candidate H e s 0))")
    case False
    then show ?thesis by (simp add: media_candidate_0 gen_frame)
  next
    case True
    with Suc.prems obtain k' where k': "k = Suc k'" by (cases k) auto
    with Suc.prems have "k' \<le> gas"
      "\<not> MediaData.exists (LinkIO.media ?s1 (media_candidate H e ?s1 k'))"
      by (simp_all add: media_candidate_Suc gen_frame)
    from Suc.IH[OF this] True show ?thesis
      by (simp add: media_candidate_0 gen_frame)
  qed
qed

subsection \<open>What a successful creation of the contract does\<close>

lemma createShortLink_Inr:
  assumes "createShortLink H e gas url s = Inr (c, s')"
  shows "url \<noteq> []" "length url \<le> 2048"
    "\<not> LinkData.exists (LinkIO.links s c)"
    "LinkIO.links s' = (LinkIO.links s)(c :=
        \<lparr>originalUrl = url, LinkData.creator = msg_sender e,
         LinkData.createdAt = block_timestamp e, clicks = 0, LinkData.exists = True\<rparr>)"
    "userLinks s' = (userLinks s)(msg_sender e := userLinks s (msg_sender e) @ [c])"
    "LinkIO.media s' = LinkIO.media s" "userMedia s' = userMedia s"
    "mediaCounter s' = mediaCounter s"
proof -
  from assms have u: "url \<noteq> []" "length url \<le> 2048"
    by (auto simp: createShortLink_def split: if_splits)
  let ?g = "contract_generateShortCode H e LINK s"
  from assms u obtain s1 where s1: "links_unique gas H e (fst ?g) (snd ?g) = Inr (c, s1)"
    and s': "s' = s1\<lparr>LinkIO.links := (LinkIO.links s1)(c :=
                      \<lparr>originalUrl = url, LinkData.creator = msg_sender e,
                       LinkData.createdAt = block_timestamp e, clicks = 0,
                       LinkData.exists = True\<rparr>),
                  userLinks := (userLinks s1)(msg_sender e :=
                      userLinks s1 (msg_sender e) @ [c])\<rparr>"
    by (auto simp: createShortLink_def split: sum.splits)
  note f = links_unique_Inr[OF s1]
  show "url \<noteq> []" "length url \<le> 2048" by (rule u)+
  show "\<not> LinkData.exists (LinkIO.links s c)" using f by (simp add: gen_frame)
  show "LinkIO.links s' = (LinkIO.links s)(c :=
        \<lparr>originalUrl = url, LinkData.creator = msg_sender e,
         LinkData.createdAt = block_timestamp e, clicks = 0, LinkData.exists = True\<rparr>)"
    using f s' by (simp add: gen_frame)
  show "userLinks s' = (userLinks s)(msg_sender e := userLinks s (msg_sender e) @ [c])"
    using f s' by (simp add: gen_frame)
  show "LinkIO.media s' = LinkIO.media s" "userMedia s' = userMedia s"
    "mediaCounter s' = mediaCounter s"
    using f s' by (simp_all add: gen_frame gen_counters)
qed

lemma uploadMedia_Inr:
  assumes "uploadMedia H e gas h n ty sz s = Inr (c, s')"
  shows "h \<noteq> []" "n \<noteq> []"
    "\<not> MediaData.exists (LinkIO.media s c)"
    "LinkIO.media s' = (LinkIO.media s)(c :=
        \<lparr>ipfsHash = h, fileName = n, fileType = ty, fileSize = sz,
         MediaData.creator = msg_sender e, MediaData.createdAt = block_timestamp e,
         views = 0, MediaData.exists = True\<rparr>)"
    "userMedia s' = (userMedia s)(msg_sender e := userMedia s (msg_sender e) @ [c])"
    "LinkIO.links s' = LinkIO.links s" "userLinks s' = userLinks s"
    "linkCounter s' = linkCounter s"
proof -
  from assms have u: "h \<noteq> []" "n \<noteq> []"
    by (auto simp: uploadMedia_def split: if_splits)
  let ?g = "contract_generateShortCode H e MEDIA s"
  from assms u obtain s1 where s1: "media_unique gas H e (fst ?g) (snd ?g) = Inr (c, s1)"
    and s': "s' = s1\<lparr>LinkIO.media := (LinkIO.media s1)(c :=
                      \<lparr>ipfsHash = h, fileName = n, fileType = ty, fileSize = sz,
                       MediaData.creator = msg_sender e,
                       MediaData.createdAt = block_timestamp e, views = 0,
                       MediaData.exists = True\<rparr>),
                  userMedia := (userMedia s1)(msg_sender e :=
                      userMedia s1 (msg_sender e) @ [c])\<rparr>"
    by (auto simp: uploadMedia_def split: sum.splits)
  note f = media_unique_Inr[OF s1]
  show "h \<noteq> []" "n \<noteq> []" by (rule u)+
  show "\<not> MediaData.exists (LinkIO.media s c)" using f by (simp add: gen_frame)
  show "LinkIO.media s' = (LinkIO.media s)(c :=
        \<lparr>ipfsHash = h, fileName = n, fileType = ty, fileSize = sz,
         MediaData.creator = msg_sender e, MediaData.createdAt = block_timestamp e,
         views = 0, MediaData.exists = True\<rparr>)"
    using f s' by (simp add: gen_frame)
  show "userMedia s' = (userMedia s)(msg_sender e := userMedia s (msg_sender e) @ [c])"
    using f s' by (simp add: gen_frame)
  show "LinkIO.links s' = LinkIO.links s" "userLinks s' = userLinks s"
    "linkCounter s' = linkCounter s"
    using f s' by (simp_all add: gen_frame gen_counters)
qed

lemma createShortLink_Revert:
  "(\<exists>m. createShortLink H e gas url s = Inl (Revert m)) \<longleftrightarrow> (url = [] \<or> 2048 < length url)"
  by (auto simp: createShortLink_def split: sum.splits dest: links_unique_Inl)

lemma uploadMedia_Revert:
  "(\<exists>m. uploadMedia H e gas h n ty sz s = Inl (Revert m)) \<longleftrightarrow> (h = [] \<or> n = [])"
  by (auto simp: uploadMedia_def split: sum.splits dest: media_unique_Inl)

lemma createShortLink_succeeds:
  assumes "url \<noteq> []" "length url \<le> 2048" "k \<le> gas"
    "\<not> LinkData.exists (LinkIO.links s (link_candidate H e s k))"
  shows "\<exists>c s'. createShortLink H e gas url s = Inr (c, s')"
  using links_unique_enough_gas[OF assms(3,4)] assms(1,2)
  by (auto simp: createShortLink_def)

lemma uploadMedia_succeeds:
  assumes "h \<noteq> []" "n \<noteq> []" "k \<le> gas"
    "\<not> MediaData.exists (LinkIO.media s (media_candidate H e s k))"
  shows "\<exists>c s'. uploadMedia H e gas h n ty sz s = Inr (c, s')"
  using media_unique_enough_gas[OF assms(3,4)] assms(1,2)
  by (auto simp: uploadMedia_def)

subsection \<open>The server's retry loop and creation handlers\<close>

lemma while_taken_first: "\<not> f c \<Longrightarrow> while_taken f c rnd = Some (c, rnd)"
  by (subst while_taken.simps) simp

lemma while_taken_Some: "while_taken f c rnd = Some (c', rnd') \<Longrightarrow> \<not> f c'"
  using while_taken_not_taken[of f c rnd "(c', rnd')"] by simp

lemma while_taken_candidate:
  "\<not> f (candidate rnd k) \<Longrightarrow>
   \<exists>y. while_taken f (fst (generateShortCode 6 rnd)) (snd (generateShortCode 6 rnd)) = Some y"
  unfolding candidate_def by (rule while_taken_terminates)

lemma sdrop_sconst: "sdrop n (sconst x) = sconst x"
  by (induction n) simp_all

lemma generateShortCode_zero: "generateShortCode 6 (sconst 0) = (''aaaaaa'', sconst 0)"
proof -
  have "stake 6 (sconst (0 :: byte)) = [0, 0, 0, 0, 0, 0]"
    by (simp add: eval_nat_numeral)
  moreover have "chars ! 0 = CHR ''a''" by (simp add: chars_def)
  ultimately show ?thesis
    by (simp only: generateShortCode_eq sdrop_sconst) (simp add: length_chars)
qed

lemma links_insert_Some:
  "\<not> links_has c d \<Longrightarrow>
   links_insert c url cr t d =
     Some (d\<lparr>links := links d @
                 [\<lparr>links_row.rowid = links_seq d + 1, links_row.short_code = c,
                   original_url = url, links_row.creator = cr,
                   links_row.created_at = t, clicks = 0\<rparr>],
               links_seq := links_seq d + 1\<rparr>)"
  by (simp add: links_insert_def)

lemma media_insert_Some:
  "\<not> media_has c d \<Longrightarrow>
   media_insert c h n ty sz cr t d =
     Some (d\<lparr>media := media d @
                 [\<lparr>media_row.rowid = media_seq d + 1, media_row.short_code = c,
                   ipfs_hash = h, file_name = n, file_type = ty, file_size = sz,
                   media_row.creator = cr, media_row.created_at = t, views = 0\<rparr>],
               media_seq := media_seq d + 1\<rparr>)"
  by (simp add: media_insert_def)

lemma post_api_links_invalid:
  "u = None \<or> u = Some [] \<Longrightarrow>
   post_api_links u cr now (d, rnd) = Some (Error 400 ''Original URL is required'', d, rnd)"
  by (auto simp: post_api_links_def)

lemma post_api_links_valid:
  assumes "url \<noteq> []"
  shows "post_api_links (Some url) cr now (d, rnd) =
     (case while_taken (\<lambda>c. links_has c d) (fst (generateShortCode 6 rnd))
             (snd (generateShortCode 6 rnd)) of
        None \<Rightarrow> None
      | Some (c, rnd') \<Rightarrow>
          Some (Link (c, url, or_anonymous cr, now, 0),
                d\<lparr>links := links d @
                      [\<lparr>links_row.rowid = links_seq d + 1, links_row.short_code = c,
                        original_url = url, links_row.creator = or_anonymous cr,
                        links_row.created_at = now, clicks = 0\<rparr>],
                    links_seq := links_seq d + 1\<rparr>, rnd'))"
  using assms
  by (auto simp: post_api_links_def links_insert_Some split: option.splits dest: while_taken_Some)

lemma post_api_media_invalid:
  "h = None \<or> h = Some [] \<or> n = None \<or> n = Some [] \<or> ty = None \<or> ty = Some []
     \<or> sz = None \<or> sz = Some 0 \<Longrightarrow>
   post_api_media h n ty sz cr now (d, rnd) = Some (Error 400 ''Missing required fields'', d, rnd)"
  by (auto simp: post_api_media_def split: option.splits)

lemma post_api_media_valid:
  assumes "h \<noteq> []" "n \<noteq> []" "ty \<noteq> []" "sz \<noteq> 0"
  shows "post_api_media (Some h) (Some n) (Some ty) (Some sz) cr now (d, rnd) =
     (case while_taken (\<lambda>c. media_has c d) (fst (generateShortCode 6 rnd))
             (snd (generateShortCode 6 rnd)) of
        None \<Rightarrow> None
      | Some (c, rnd') \<Rightarrow>
          Some (Media (c, h, n, ty, sz, or_anonymous cr, now, 0),
                d\<lparr>media := media d @
                      [\<lparr>media_row.rowid = media_seq d + 1, media_row.short_code = c,
                        ipfs_hash = h, file_name = n, file_type = ty, file_size = sz,
                        media_row.creator = or_anonymous cr, media_row.created_at = now,
                        views = 0\<rparr>],
                    media_seq := media_seq d + 1\<rparr>, rnd'))"
  using assms
  by (auto simp: post_api_media_def media_insert_Some split: option.splits dest: while_taken_Some)

text \<open>Every outcome of a creation request: refused, or answered with an unused code.\<close>

lemma post_api_links_Some:
  assumes "post_api_links u cr now (d, rnd) = Some (r, d', rnd')"
  shows "(r = Error 400 ''Original URL is required'' \<and> (u = None \<or> u = Some []) \<and> d' = d \<and> rnd' = rnd)
    \<or> (\<exists>url c. u = Some url \<and> url \<noteq> [] \<and> \<not> links_has c d
          \<and> r = Link (c, url, or_anonymous cr, now, 0)
          \<and> d' = d\<lparr>links := links d @
                      [\<lparr>links_row.rowid = links_seq d + 1, links_row.short_code = c,
                        original_url = url, links_row.creator = or_anonymous cr,
                        links_row.created_at = now, clicks = 0\<rparr>],
                    links_seq := links_seq d + 1\<rparr>)"
proof (cases "u = None \<or> u = Some []")
  case True
  with assms post_api_links_invalid[OF True, of cr now d rnd] show ?thesis by simp
next
  case False
  then obtain url where u: "u = Some url" "url \<noteq> []" by (cases u) auto
  with assms show ?thesis
    by (auto simp: post_api_links_valid split: option.splits dest: while_taken_Some)
qed

lemma post_api_media_Some:
  assumes "post_api_media h n ty sz cr now (d, rnd) = Some (r, d', rnd')"
  shows "(r = Error 400 ''Missing required fields''
          \<and> (h = None \<or> h = Some [] \<or> n = None \<or> n = Some [] \<or> ty = None \<or> ty = Some []
               \<or> sz = None \<or> sz = Some 0)
          \<and> d' = d \<and> rnd' = rnd)
    \<or> (\<exists>h' n' ty' sz' c. h = Some h' \<and> n = Some n' \<and> ty = Some ty' \<and> sz = Some sz'
          \<and> h' \<noteq> [] \<and> n' \<noteq> [] \<and> ty' \<noteq> [] \<and> sz' \<noteq> 0 \<and> \<not> media_has c d
          \<and> r = Media (c, h', n', ty', sz', or_anonymous cr, now, 0)
          \<and> d' = d\<lparr>media := media d @
                      [\<lparr>media_row.rowid = media_seq d + 1, media_row.short_code = c,
                        ipfs_hash = h', file_name = n', file_type = ty', file_size = sz',
                        media_row.creator = or_anonymous cr, media_row.created_at = now,
                        views = 0\<rparr>],
                    media_seq := media_seq d + 1\<rparr>)"
proof (cases "h = None \<or> h = Some [] \<or> n = None \<or> n = Some [] \<or> ty = None \<or> ty = Some []
               \<or> sz = None \<or> sz = Some 0")
  case True
  with assms post_api_media_invalid[OF True, of cr now d rnd] show ?thesis by simp
next
  case False
  then obtain h' n' ty' sz' where u: "h = Some h'" "n = Some n'" "ty = Some ty'" "sz = Some sz'"
    "h' \<noteq> []" "n' \<noteq> []" "ty' \<noteq> []" "sz' \<noteq> 0"
    by (cases h; cases n; cases ty; cases sz) auto
  with assms show ?thesis
    by (auto simp: post_api_media_valid split: option.splits dest: while_taken_Some)
qed

subsection \<open>Validation of a link creation\<close>

lemma deployed_nothing_exists:
  "\<not> LinkData.exists (LinkIO.links deployed c)" "\<not> MediaData.exists (LinkIO.media deployed c)"
  by (simp_all add: deployed_def)

lemma empty_db_has_nothing: "\<not> links_has c empty_db" "\<not> media_has c empty_db"
  by (simp_all add: links_has_def media_has_def empty_db_def)

lemma post_api_links_400:
  "(\<exists>m. map_option fst (post_api_links u cr now (d, rnd)) = Some (Error 400 m))
     \<longleftrightarrow> (u = None \<or> u = Some [])"
proof
  assume "\<exists>m. map_option fst (post_api_links u cr now (d, rnd)) = Some (Error 400 m)"
  then obtain m d' rnd' where "post_api_links u cr now (d, rnd) = Some (Error 400 m, d', rnd')"
    by auto
  from post_api_links_Some[OF this] show "u = None \<or> u = Some []" by auto
next
  assume "u = None \<or> u = Some []"
  from post_api_links_invalid[OF this, of cr now d rnd]
  show "\<exists>m. map_option fst (post_api_links u cr now (d, rnd)) = Some (Error 400 m)" by simp
qed

lemma post_api_links_succeeds:
  assumes "v \<noteq> []" "\<not> links_has (candidate rnd k) d"
  shows "\<exists>c d' rnd'. post_api_links (Some v) cr now (d, rnd) =
            Some (Link (c, v, or_anonymous cr, now, 0), d', rnd')
          \<and> \<not> links_has c d
          \<and> links d' = links d @
               [\<lparr>links_row.rowid = links_seq d + 1, links_row.short_code = c,
                 original_url = v, links_row.creator = or_anonymous cr,
                 links_row.created_at = now, clicks = 0\<rparr>]"
proof -
  from while_taken_candidate[of "\<lambda>c. links_has c d", OF assms(2)]
  obtain c rnd' where w: "while_taken (\<lambda>c. links_has c d) (fst (generateShortCode 6 rnd))
      (snd (generateShortCode 6 rnd)) = Some (c, rnd')" by auto
  from while_taken_Some[OF w] have "\<not> links_has c d" .
  with w assms(1) show ?thesis
    by (simp add: post_api_links_valid)
qed

text \<open>
  C6, as amended. The contract's \<open>createShortLink\<close> fails a \<open>require\<close> if and only if
  the URL is empty or longer than 2048 bytes; for every other URL and any sender, if one
  of the candidate codes that the gas of the call pays for is unused, the call succeeds
  and stores under an unused code a record with that URL, the sender, the block's time
  and \<open>clicks = 0\<close>. The server's \<open>POST /api/links\<close> answers 400 if and only if
  \<open>originalUrl\<close> is absent or empty; it has no bound on the length. For every other URL
  and any creator, if one of the candidate codes of the random source is unused, the
  request is answered with the new record and appends a row with \<open>clicks = 0\<close>.
\<close>

theorem createLink_validation:
  "((\<exists>m. createShortLink H e gas url s = Inl (Revert m)) \<longleftrightarrow> (url = [] \<or> 2048 < length url))
   \<and> (url \<noteq> [] \<and> length url \<le> 2048
        \<and> (\<exists>k\<le>gas. \<not> LinkData.exists (LinkIO.links s (link_candidate H e s k))) \<longrightarrow>
       (\<exists>c s'. createShortLink H e gas url s = Inr (c, s')
          \<and> \<not> LinkData.exists (LinkIO.links s c)
          \<and> LinkIO.links s' c =
               \<lparr>originalUrl = url, LinkData.creator = msg_sender e,
                LinkData.createdAt = block_timestamp e, LinkData.clicks = 0, LinkData.exists = True\<rparr>))
   \<and> ((\<exists>m. map_option fst (post_api_links u cr now (d, rnd)) = Some (Error 400 m))
         \<longleftrightarrow> (u = None \<or> u = Some []))
   \<and> (v \<noteq> [] \<and> (\<exists>k. \<not> links_has (candidate rnd k) d) \<longrightarrow>
       (\<exists>c d' rnd'. post_api_links (Some v) cr now (d, rnd) =
            Some (Link (c, v, or_anonymous cr, now, 0), d', rnd')
          \<and> \<not> links_has c d
          \<and> links d' = links d @
               [\<lparr>links_row.rowid = links_seq d + 1, links_row.short_code = c,
                 original_url = v, links_row.creator = or_anonymous cr,
                 links_row.created_at = now, clicks = 0\<rparr>]))"
proof (intro conjI impI)
  show "(\<exists>m. createShortLink H e gas url s = Inl (Revert m)) \<longleftrightarrow> (url = [] \<or> 2048 < length url)"
    by (rule createShortLink_Revert)
next
  assume a: "url \<noteq> [] \<and> length url \<le> 2048
        \<and> (\<exists>k\<le>gas. \<not> LinkData.exists (LinkIO.links s (link_candidate H e s k)))"
  then obtain k where k: "k \<le> gas" "\<not> LinkData.exists (LinkIO.links s (link_candidate H e s k))"
    by auto
  from a createShortLink_succeeds[OF _ _ k, of url] obtain c s'
    where c: "createShortLink H e gas url s = Inr (c, s')" by auto
  from createShortLink_Inr(3,4)[OF c] c
  show "\<exists>c s'. createShortLink H e gas url s = Inr (c, s')
          \<and> \<not> LinkData.exists (LinkIO.links s c)
          \<and> LinkIO.links s' c =
               \<lparr>originalUrl = url, LinkData.creator = msg_sender e,
                LinkData.createdAt = block_timestamp e, LinkData.clicks = 0, LinkData.exists = True\<rparr>"
    by simp
next
  show "(\<exists>m. map_option fst (post_api_links u cr now (d, rnd)) = Some (Error 400 m))
         \<longleftrightarrow> (u = None \<or> u = Some [])"
    by (rule post_api_links_400)
next
  assume "v \<noteq> [] \<and> (\<exists>k. \<not> links_has (candidate rnd k) d)"
  then show "\<exists>c d' rnd'. post_api_links (Some v) cr now (d, rnd) =
            Some (Link (c, v, or_anonymous cr, now, 0), d', rnd')
          \<and> \<not> links_has c d
          \<and> links d' = links d @
               [\<lparr>links_row.rowid = links_seq d + 1, links_row.short_code = c,
                 original_url = v, links_row.creator = or_anonymous cr,
                 links_row.created_at = now, clicks = 0\<rparr>]"
    using post_api_links_succeeds by blast
qed

text \<open>
  The scenario of the specification on the deployed contract and on the empty database:
  the empty URL is refused, \<open>https://example.com/test\<close> is stored with no clicks.
\<close>

theorem createLink_validation_witness:
  "createShortLink (\<lambda>ts pr a c. c) \<lparr>block_timestamp = 1, block_prevrandao = 2, msg_sender = 3\<rparr>
       0 [] deployed = Inl (Revert ''URL cannot be empty'')
   \<and> (\<exists>c s'. createShortLink (\<lambda>ts pr a c. c)
         \<lparr>block_timestamp = 1, block_prevrandao = 2, msg_sender = 3\<rparr>
         0 ''https://example.com/test'' deployed = Inr (c, s')
       \<and> LinkData.clicks (LinkIO.links s' c) = 0 \<and> originalUrl (LinkIO.links s' c) = ''https://example.com/test'')
   \<and> map_option fst (post_api_links (Some []) (Some ''0xABC'') 7 (empty_db, sconst 0)) =
       Some (Error 400 ''Original URL is required'')
   \<and> (\<exists>c d' rnd'. post_api_links (Some ''https://example.com/test'') (Some ''0xABC'') 7
         (empty_db, sconst 0) =
       Some (Link (c, ''https://example.com/test'', ''0xABC'', 7, 0), d', rnd'))"
proof -
  let ?H = "\<lambda>(ts :: uint256) (pr :: uint256) (a :: address) (c :: uint256). c"
  let ?e = "\<lparr>block_timestamp = 1, block_prevrandao = 2, msg_sender = 3\<rparr>"
  note T = createLink_validation[of ?H ?e 0 _ deployed _ "Some ''0xABC''" 7 empty_db "sconst 0"]
  have 1: "createShortLink ?H ?e 0 [] deployed = Inl (Revert ''URL cannot be empty'')"
    by (simp add: createShortLink_def)
  have "\<exists>k\<le>0. \<not> LinkData.exists (LinkIO.links deployed (link_candidate ?H ?e deployed k))"
    by (simp add: deployed_nothing_exists)
  with T[of "''https://example.com/test''"]
  have 2: "\<exists>c s'. createShortLink ?H ?e 0 ''https://example.com/test'' deployed = Inr (c, s')
       \<and> LinkData.clicks (LinkIO.links s' c) = 0 \<and> originalUrl (LinkIO.links s' c) = ''https://example.com/test''"
    by fastforce
  have 3: "map_option fst (post_api_links (Some []) (Some ''0xABC'') 7 (empty_db, sconst 0)) =
       Some (Error 400 ''Original URL is required'')"
    by (simp add: post_api_links_def)
  have "\<exists>k. \<not> links_has (candidate (sconst 0) k) empty_db"
    by (simp add: empty_db_has_nothing)
  with T[of _ _ "''https://example.com/test''"]
  have 4: "\<exists>c d' rnd'. post_api_links (Some ''https://example.com/test'') (Some ''0xABC'') 7
         (empty_db, sconst 0) =
       Some (Link (c, ''https://example.com/test'', ''0xABC'', 7, 0), d', rnd')"
    by (fastforce simp: or_anonymous_def)
  from 1 2 3 4 show ?thesis by blast
qed

text \<open>
  C6 as stated fails: the server accepts a URL of 2049 characters.
\<close>

theorem long_url_accepted:
  "2048 < length (replicate 2049 (CHR ''a''))
   \<and> map_option fst (post_api_links (Some (replicate 2049 (CHR ''a''))) None 0 (empty_db, sconst 0)) =
       Some (Link (''aaaaaa'', replicate 2049 (CHR ''a''), ''anonymous'', 0, 0))"
proof -
  have ne: "replicate 2049 (CHR ''a'') \<noteq> []" by simp
  show ?thesis
    by (simp add: post_api_links_valid[OF ne] generateShortCode_zero while_taken_first
        empty_db_has_nothing or_anonymous_def)
qed

subsection \<open>Validation of a media creation\<close>

lemma post_api_media_400:
  "(\<exists>m. map_option fst (post_api_media bh bn bty bsz cr now (d, rnd)) = Some (Error 400 m))
     \<longleftrightarrow> (bh = None \<or> bh = Some [] \<or> bn = None \<or> bn = Some [] \<or> bty = None \<or> bty = Some []
            \<or> bsz = None \<or> bsz = Some 0)"
proof
  assume "\<exists>m. map_option fst (post_api_media bh bn bty bsz cr now (d, rnd)) = Some (Error 400 m)"
  then obtain m d' rnd' where
    "post_api_media bh bn bty bsz cr now (d, rnd) = Some (Error 400 m, d', rnd')"
    by auto
  from post_api_media_Some[OF this]
  show "bh = None \<or> bh = Some [] \<or> bn = None \<or> bn = Some [] \<or> bty = None \<or> bty = Some []
            \<or> bsz = None \<or> bsz = Some 0" by auto
next
  assume "bh = None \<or> bh = Some [] \<or> bn = None \<or> bn = Some [] \<or> bty = None \<or> bty = Some []
            \<or> bsz = None \<or> bsz = Some 0"
  from post_api_media_invalid[OF this, of cr now d rnd]
  show "\<exists>m. map_option fst (post_api_media bh bn bty bsz cr now (d, rnd)) = Some (Error 400 m)"
    by simp
qed

lemma post_api_media_succeeds:
  assumes "h \<noteq> []" "n \<noteq> []" "ty \<noteq> []" "sz \<noteq> 0" "\<not> media_has (candidate rnd k) d"
  shows "\<exists>c d' rnd'. post_api_media (Some h) (Some n) (Some ty) (Some sz) cr now (d, rnd) =
            Some (Media (c, h, n, ty, sz, or_anonymous cr, now, 0), d', rnd')
          \<and> \<not> media_has c d
          \<and> media d' = media d @
               [\<lparr>media_row.rowid = media_seq d + 1, media_row.short_code = c,
                 ipfs_hash = h, file_name = n, file_type = ty, file_size = sz,
                 media_row.creator = or_anonymous cr, media_row.created_at = now, views = 0\<rparr>]"
proof -
  from while_taken_candidate[of "\<lambda>c. media_has c d", OF assms(5)]
  obtain c rnd' where w: "while_taken (\<lambda>c. media_has c d) (fst (generateShortCode 6 rnd))
      (snd (generateShortCode 6 rnd)) = Some (c, rnd')" by auto
  from while_taken_Some[OF w] have "\<not> media_has c d" .
  with w assms(1-4) show ?thesis
    by (simp add: post_api_media_valid)
qed

text \<open>
  C7, as amended. The contract's \<open>uploadMedia\<close> fails a \<open>require\<close> exactly when the
  hash or the file name is empty; it never looks at \<open>fileType\<close> or \<open>fileSize\<close>, and
  whenever one of the candidate codes that the gas pays for is unused it stores both
  unchanged, whatever they are. The server's \<open>POST /api/media\<close> answers 400 exactly when
  one of \<open>ipfsHash\<close>, \<open>fileName\<close>, \<open>fileType\<close> is absent or empty or \<open>fileSize\<close> is
  absent or zero; every other request whose random source offers an unused candidate is
  answered with the new record and appends a row that holds the four values unchanged.
\<close>

theorem createMedia_validation:
  "((\<exists>m. uploadMedia H e gas h n ty sz s = Inl (Revert m)) \<longleftrightarrow> (h = [] \<or> n = []))
   \<and> (h \<noteq> [] \<and> n \<noteq> []
        \<and> (\<exists>k\<le>gas. \<not> MediaData.exists (LinkIO.media s (media_candidate H e s k))) \<longrightarrow>
       (\<exists>c s'. uploadMedia H e gas h n ty sz s = Inr (c, s')
          \<and> LinkIO.media s' c =
               \<lparr>ipfsHash = h, fileName = n, fileType = ty, fileSize = sz,
                MediaData.creator = msg_sender e, MediaData.createdAt = block_timestamp e,
                MediaData.views = 0, MediaData.exists = True\<rparr>))
   \<and> ((\<exists>m. map_option fst (post_api_media bh bn bty bsz cr now (d, rnd)) = Some (Error 400 m))
         \<longleftrightarrow> (bh = None \<or> bh = Some [] \<or> bn = None \<or> bn = Some [] \<or> bty = None
                \<or> bty = Some [] \<or> bsz = None \<or> bsz = Some 0))
   \<and> (h' \<noteq> [] \<and> n' \<noteq> [] \<and> ty' \<noteq> [] \<and> sz' \<noteq> 0 \<and> (\<exists>k. \<not> media_has (candidate rnd k) d) \<longrightarrow>
       (\<exists>c d' rnd'. post_api_media (Some h') (Some n') (Some ty') (Some sz') cr now (d, rnd) =
            Some (Media (c, h', n', ty', sz', or_anonymous cr, now, 0), d', rnd')
          \<and> \<not> media_has c d
          \<and> media d' = media d @
               [\<lparr>media_row.rowid = media_seq d + 1, media_row.short_code = c,
                 ipfs_hash = h', file_name = n', file_type = ty', file_size = sz',
                 media_row.creator = or_anonymous cr, media_row.created_at = now, views = 0\<rparr>]))"
proof (intro conjI impI)
  show "(\<exists>m. uploadMedia H e gas h n ty sz s = Inl (Revert m)) \<longleftrightarrow> (h = [] \<or> n = [])"
    by (rule uploadMedia_Revert)
next
  assume a: "h \<noteq> [] \<and> n \<noteq> []
        \<and> (\<exists>k\<le>gas. \<not> MediaData.exists (LinkIO.media s (media_candidate H e s k)))"
  then obtain k where k: "k \<le> gas" "\<not> MediaData.exists (LinkIO.media s (media_candidate H e s k))"
    by auto
  from a uploadMedia_succeeds[OF _ _ k, of h n ty sz] obtain c s'
    where c: "uploadMedia H e gas h n ty sz s = Inr (c, s')" by auto
  from uploadMedia_Inr(4)[OF c] c
  show "\<exists>c s'. uploadMedia H e gas h n ty sz s = Inr (c, s')
          \<and> LinkIO.media s' c =
               \<lparr>ipfsHash = h, fileName = n, fileType = ty, fileSize = sz,
                MediaData.creator = msg_sender e, MediaData.createdAt = block_timestamp e,
                MediaData.views = 0, MediaData.exists = True\<rparr>"
    by simp
next
  show "(\<exists>m. map_option fst (post_api_media bh bn bty bsz cr now (d, rnd)) = Some (Error 400 m))
         \<longleftrightarrow> (bh = None \<or> bh = Some [] \<or> bn = None \<or> bn = Some [] \<or> bty = None
                \<or> bty = Some [] \<or> bsz = None \<or> bsz = Some 0)"
    by (rule post_api_media_400)
next
  assume "h' \<noteq> [] \<and> n' \<noteq> [] \<and> ty' \<noteq> [] \<and> sz' \<noteq> 0 \<and> (\<exists>k. \<not> media_has (candidate rnd k) d)"
  then show "\<exists>c d' rnd'. post_api_media (Some h') (Some n') (Some ty') (Some sz') cr now (d, rnd) =
            Some (Media (c, h', n', ty', sz', or_anonymous cr, now, 0), d', rnd')
          \<and> \<not> media_has c d
          \<and> media d' = media d @
               [\<lparr>media_row.rowid = media_seq d + 1, media_row.short_code = c,
                 ipfs_hash = h', file_name = n', file_type = ty', file_size = sz',
                 media_row.creator = or_anonymous cr, media_row.created_at = now, views = 0\<rparr>]"
    using post_api_media_succeeds by blast
qed

text \<open>
  The scenario of the specification: the contract stores an empty type and a zero size
  as they are, and refuses an empty hash; the server stores \<open>a.png\<close> of type
  \<open>image/png\<close> and 1024000 bytes.
\<close>

theorem createMedia_validation_witness:
  "uploadMedia (\<lambda>ts pr a c. c) \<lparr>block_timestamp = 1, block_prevrandao = 2, msg_sender = 3\<rparr>
       0 [] ''a.png'' ''image/png'' 10 deployed = Inl (Revert ''IPFS hash cannot be empty'')
   \<and> (\<exists>c s'. uploadMedia (\<lambda>ts pr a c. c)
         \<lparr>block_timestamp = 1, block_prevrandao = 2, msg_sender = 3\<rparr>
         0 ''QmTest123'' ''a.png'' [] 0 deployed = Inr (c, s')
       \<and> fileType (LinkIO.media s' c) = [] \<and> fileSize (LinkIO.media s' c) = 0
       \<and> MediaData.views (LinkIO.media s' c) = 0)
   \<and> (\<exists>c d' rnd'. post_api_media (Some ''QmTest123'') (Some ''a.png'') (Some ''image/png'')
         (Some 1024000) None 7 (empty_db, sconst 0) =
       Some (Media (c, ''QmTest123'', ''a.png'', ''image/png'', 1024000, ''anonymous'', 7, 0),
             d', rnd'))"
proof -
  let ?H = "\<lambda>(ts :: uint256) (pr :: uint256) (a :: address) (c :: uint256). c"
  let ?e = "\<lparr>block_timestamp = 1, block_prevrandao = 2, msg_sender = 3\<rparr>"
  note T = createMedia_validation[of ?H ?e 0 _ _ _ _ deployed _ _ _ _ None 7 empty_db "sconst 0"]
  have 1: "uploadMedia ?H ?e 0 [] ''a.png'' ''image/png'' 10 deployed =
      Inl (Revert ''IPFS hash cannot be empty'')"
    by (simp add: uploadMedia_def)
  have "\<exists>k\<le>0. \<not> MediaData.exists (LinkIO.media deployed (media_candidate ?H ?e deployed k))"
    by (simp add: deployed_nothing_exists)
  with T[of "''QmTest123''" "''a.png''" "[]" 0]
  have 2: "\<exists>c s'. uploadMedia ?H ?e 0 ''QmTest123'' ''a.png'' [] 0 deployed = Inr (c, s')
       \<and> fileType (LinkIO.media s' c) = [] \<and> fileSize (LinkIO.media s' c) = 0
       \<and> MediaData.views (LinkIO.media s' c) = 0"
    by fastforce
  have "\<exists>k. \<not> media_has (candidate (sconst 0) k) empty_db"
    by (simp add: empty_db_has_nothing)
  with T[of _ _ _ _ _ _ _ _ "''QmTest123''" "''a.png''" "''image/png''" 1024000]
  have 3: "\<exists>c d' rnd'. post_api_media (Some ''QmTest123'') (Some ''a.png'') (Some ''image/png'')
         (Some 1024000) None 7 (empty_db, sconst 0) =
       Some (Media (c, ''QmTest123'', ''a.png'', ''image/png'', 1024000, ''anonymous'', 7, 0),
             d', rnd')"
    by (fastforce simp: or_anonymous_def)
  from 1 2 3 show ?thesis by blast
qed

text \<open>
  C7 as stated fails: the server refuses a media request whose \<open>fileSize\<close> is zero, and
  one whose \<open>fileType\<close> is empty, although hash and file name are given.
\<close>

theorem empty_type_or_size_refused:
  "post_api_media (Some ''QmTest123'') (Some ''a.png'') (Some ''image/png'') (Some 0) None 0
       (empty_db, sconst 0) =
     Some (Error 400 ''Missing required fields'', empty_db, sconst 0)
   \<and> post_api_media (Some ''QmTest123'') (Some ''a.png'') (Some []) (Some 10) None 0
       (empty_db, sconst 0) =
     Some (Error 400 ''Missing required fields'', empty_db, sconst 0)"
  by (simp add: post_api_media_def)

section \<open>The two namespaces\<close>

subsection \<open>The contract\<close>

lemma gen_LINK_media_update:
  "contract_generateShortCode H e LINK (s\<lparr>LinkIO.media := M, userMedia := UM, mediaCounter := n\<rparr>) =
     (fst (contract_generateShortCode H e LINK s),
      (snd (contract_generateShortCode H e LINK s))\<lparr>LinkIO.media := M, userMedia := UM, mediaCounter := n\<rparr>)"
  by (simp add: contract_generateShortCode_def Let_def)

lemma gen_MEDIA_links_update:
  "contract_generateShortCode H e MEDIA (s\<lparr>LinkIO.links := L, userLinks := UL, linkCounter := n\<rparr>) =
     (fst (contract_generateShortCode H e MEDIA s),
      (snd (contract_generateShortCode H e MEDIA s))\<lparr>LinkIO.links := L, userLinks := UL, linkCounter := n\<rparr>)"
  by (simp add: contract_generateShortCode_def Let_def)

lemma links_unique_media_update:
  "links_unique gas H e c (s\<lparr>LinkIO.media := M, userMedia := UM, mediaCounter := n\<rparr>) =
     map_sum id (\<lambda>(c', s'). (c', s'\<lparr>LinkIO.media := M, userMedia := UM, mediaCounter := n\<rparr>))
       (links_unique gas H e c s)"
  by (induction gas arbitrary: c s) (simp_all add: gen_LINK_media_update)

lemma media_unique_links_update:
  "media_unique gas H e c (s\<lparr>LinkIO.links := L, userLinks := UL, linkCounter := n\<rparr>) =
     map_sum id (\<lambda>(c', s'). (c', s'\<lparr>LinkIO.links := L, userLinks := UL, linkCounter := n\<rparr>))
       (media_unique gas H e c s)"
  by (induction gas arbitrary: c s) (simp_all add: gen_MEDIA_links_update)

lemma createShortLink_media_update:
  "createShortLink H e gas url (s\<lparr>LinkIO.media := M, userMedia := UM, mediaCounter := n\<rparr>) =
     map_sum id (\<lambda>(c, s'). (c, s'\<lparr>LinkIO.media := M, userMedia := UM, mediaCounter := n\<rparr>))
       (createShortLink H e gas url s)"
  by (simp add: createShortLink_def gen_LINK_media_update links_unique_media_update
      split: sum.splits)

lemma uploadMedia_links_update:
  "uploadMedia H e gas h nm ty sz (s\<lparr>LinkIO.links := L, userLinks := UL, linkCounter := n\<rparr>) =
     map_sum id (\<lambda>(c, s'). (c, s'\<lparr>LinkIO.links := L, userLinks := UL, linkCounter := n\<rparr>))
       (uploadMedia H e gas h nm ty sz s)"
  by (simp add: uploadMedia_def gen_MEDIA_links_update media_unique_links_update
      split: sum.splits)

lemma createShortLink_first_candidate:
  assumes "url \<noteq> []" "length url \<le> 2048"
    "\<not> LinkData.exists (LinkIO.links s (link_candidate H e s 0))"
  shows "\<exists>s'. createShortLink H e gas url s = Inr (link_candidate H e s 0, s')
           \<and> linkCounter s' = linkCounter s + 1
           \<and> linkExists (link_candidate H e s 0) s'
           \<and> mediaExists (link_candidate H e s 0) s' = mediaExists (link_candidate H e s 0) s"
proof -
  let ?g = "contract_generateShortCode H e LINK s"
  have "links_unique gas H e (fst ?g) (snd ?g) = Inr (fst ?g, snd ?g)"
    using assms(3) by (cases gas) (simp_all add: link_candidate_0 gen_frame)
  with assms(1,2) show ?thesis
    by (simp add: createShortLink_def link_candidate_0 gen_frame gen_counters linkExists_def
        mediaExists_def case_prod_beta)
qed

lemma uploadMedia_first_candidate:
  assumes "h \<noteq> []" "nm \<noteq> []"
    "\<not> MediaData.exists (LinkIO.media s (media_candidate H e s 0))"
  shows "\<exists>s'. uploadMedia H e gas h nm ty sz s = Inr (media_candidate H e s 0, s')
           \<and> mediaCounter s' = mediaCounter s + 1
           \<and> mediaExists (media_candidate H e s 0) s'
           \<and> linkExists (media_candidate H e s 0) s' = linkExists (media_candidate H e s 0) s"
proof -
  let ?g = "contract_generateShortCode H e MEDIA s"
  have "media_unique gas H e (fst ?g) (snd ?g) = Inr (fst ?g, snd ?g)"
    using assms(3) by (cases gas) (simp_all add: media_candidate_0 gen_frame)
  with assms(1,2) show ?thesis
    by (simp add: uploadMedia_def media_candidate_0 gen_frame gen_counters linkExists_def
        mediaExists_def case_prod_beta)
qed

subsection \<open>The server\<close>

lemma links_has_iff: "links_has c d \<longleftrightarrow> c \<in> set (map links_row.short_code (links d))"
  by (auto simp: links_has_def find_None_iff)

lemma media_has_iff: "media_has c d \<longleftrightarrow> c \<in> set (map media_row.short_code (media d))"
  by (auto simp: media_has_def find_None_iff)

lemma links_has_media_update [simp]:
  "links_has c (d\<lparr>media := M, media_seq := n\<rparr>) = links_has c d"
  by (simp add: links_has_def)

lemma media_has_links_update [simp]:
  "media_has c (d\<lparr>links := L, links_seq := n\<rparr>) = media_has c d"
  by (simp add: media_has_def)

lemma post_api_links_media_update:
  "post_api_links u cr now (d\<lparr>media := M, media_seq := n\<rparr>, rnd) =
     map_option (\<lambda>(r, d', rnd'). (r, d'\<lparr>media := M, media_seq := n\<rparr>, rnd'))
       (post_api_links u cr now (d, rnd))"
proof (cases "u = None \<or> u = Some []")
  case True
  then show ?thesis by (simp add: post_api_links_invalid)
next
  case False
  then obtain v where "u = Some v" "v \<noteq> []" by (cases u) auto
  then show ?thesis
    by (simp add: post_api_links_valid split: option.splits)
qed

lemma post_api_media_links_update:
  "post_api_media bh bn bty bsz cr now (d\<lparr>links := L, links_seq := n\<rparr>, rnd) =
     map_option (\<lambda>(r, d', rnd'). (r, d'\<lparr>links := L, links_seq := n\<rparr>, rnd'))
       (post_api_media bh bn bty bsz cr now (d, rnd))"
proof (cases "bh = None \<or> bh = Some [] \<or> bn = None \<or> bn = Some [] \<or> bty = None \<or> bty = Some []
               \<or> bsz = None \<or> bsz = Some 0")
  case True
  then show ?thesis by (simp add: post_api_media_invalid)
next
  case False
  then obtain h' n' ty' sz' where "bh = Some h'" "bn = Some n'" "bty = Some ty'" "bsz = Some sz'"
    "h' \<noteq> []" "n' \<noteq> []" "ty' \<noteq> []" "sz' \<noteq> 0"
    by (cases bh; cases bn; cases bty; cases bsz) auto
  then show ?thesis
    by (simp add: post_api_media_valid split: option.splits)
qed

lemma candidate_0: "candidate rnd 0 = fst (generateShortCode 6 rnd)"
  by (simp add: candidate_def)

lemma post_api_links_first_candidate:
  assumes "v \<noteq> []" "\<not> links_has (candidate rnd 0) d"
  shows "\<exists>d'. post_api_links (Some v) cr now (d, rnd) =
            Some (Link (candidate rnd 0, v, or_anonymous cr, now, 0), d', snd (generateShortCode 6 rnd))
          \<and> links_has (candidate rnd 0) d'
          \<and> media_has (candidate rnd 0) d' = media_has (candidate rnd 0) d"
  using assms
  by (simp add: post_api_links_valid while_taken_first candidate_0 links_has_iff media_has_iff
      case_prod_beta)

lemma post_api_media_first_candidate:
  assumes "h \<noteq> []" "nm \<noteq> []" "ty \<noteq> []" "sz \<noteq> 0" "\<not> media_has (candidate rnd 0) d"
  shows "\<exists>d'. post_api_media (Some h) (Some nm) (Some ty) (Some sz) cr now (d, rnd) =
            Some (Media (candidate rnd 0, h, nm, ty, sz, or_anonymous cr, now, 0), d',
                  snd (generateShortCode 6 rnd))
          \<and> media_has (candidate rnd 0) d'
          \<and> links_has (candidate rnd 0) d' = links_has (candidate rnd 0) d"
  using assms
  by (simp add: post_api_media_valid while_taken_first candidate_0 links_has_iff media_has_iff
      case_prod_beta)

lemma post_api_links_frame:
  "post_api_links u cr now (d, rnd) = Some (r, d', rnd') \<Longrightarrow>
     media d' = media d \<and> media_seq d' = media_seq d"
  by (drule post_api_links_Some) auto

lemma post_api_media_frame:
  "post_api_media bh bn bty bsz cr now (d, rnd) = Some (r, d', rnd') \<Longrightarrow>
     links d' = links d \<and> links_seq d' = links_seq d"
  by (drule post_api_media_Some) auto

text \<open>
  C9. In the contract and in the server alike, a creation in one namespace commutes
  with every change of the other namespace's records, lists and counter: it reads
  nothing of them, and it leaves them as they are. A creation whose first candidate is
  unused in its own namespace is answered with that candidate after a single call of the
  generator, whether or not the same string is a live code of the other namespace, and
  afterwards the string is live in the namespace of the creation and as live as before
  in the other.
\<close>

theorem namespaces_independent:
  "createShortLink H e gas url (s\<lparr>LinkIO.media := M, userMedia := UM, mediaCounter := n\<rparr>) =
     map_sum id (\<lambda>(c, s'). (c, s'\<lparr>LinkIO.media := M, userMedia := UM, mediaCounter := n\<rparr>))
       (createShortLink H e gas url s)
   \<and> uploadMedia H e gas h nm ty sz (s\<lparr>LinkIO.links := L, userLinks := UL, linkCounter := n\<rparr>) =
     map_sum id (\<lambda>(c, s'). (c, s'\<lparr>LinkIO.links := L, userLinks := UL, linkCounter := n\<rparr>))
       (uploadMedia H e gas h nm ty sz s)
   \<and> (createShortLink H e gas url s = Inr (c, s') \<longrightarrow>
        LinkIO.media s' = LinkIO.media s \<and> userMedia s' = userMedia s
        \<and> mediaCounter s' = mediaCounter s)
   \<and> (uploadMedia H e gas h nm ty sz s = Inr (c, s') \<longrightarrow>
        LinkIO.links s' = LinkIO.links s \<and> userLinks s' = userLinks s
        \<and> linkCounter s' = linkCounter s)
   \<and> (url \<noteq> [] \<and> length url \<le> 2048 \<and> \<not> linkExists (link_candidate H e s 0) s \<longrightarrow>
        (\<exists>s'. createShortLink H e gas url s = Inr (link_candidate H e s 0, s')
           \<and> linkCounter s' = linkCounter s + 1
           \<and> linkExists (link_candidate H e s 0) s'
           \<and> mediaExists (link_candidate H e s 0) s' = mediaExists (link_candidate H e s 0) s))
   \<and> (h \<noteq> [] \<and> nm \<noteq> [] \<and> \<not> mediaExists (media_candidate H e s 0) s \<longrightarrow>
        (\<exists>s'. uploadMedia H e gas h nm ty sz s = Inr (media_candidate H e s 0, s')
           \<and> mediaCounter s' = mediaCounter s + 1
           \<and> mediaExists (media_candidate H e s 0) s'
           \<and> linkExists (media_candidate H e s 0) s' = linkExists (media_candidate H e s 0) s))
   \<and> post_api_links u cr now (d\<lparr>media := M', media_seq := n'\<rparr>, rnd) =
       map_option (\<lambda>(r, d', rnd'). (r, d'\<lparr>media := M', media_seq := n'\<rparr>, rnd'))
         (post_api_links u cr now (d, rnd))
   \<and> post_api_media bh bn bty bsz cr now (d\<lparr>links := L', links_seq := n'\<rparr>, rnd) =
       map_option (\<lambda>(r, d', rnd'). (r, d'\<lparr>links := L', links_seq := n'\<rparr>, rnd'))
         (post_api_media bh bn bty bsz cr now (d, rnd))
   \<and> (post_api_links u cr now (d, rnd) = Some (r, d', rnd') \<longrightarrow>
        media d' = media d \<and> media_seq d' = media_seq d)
   \<and> (post_api_media bh bn bty bsz cr now (d, rnd) = Some (r, d', rnd') \<longrightarrow>
        links d' = links d \<and> links_seq d' = links_seq d)
   \<and> (v \<noteq> [] \<and> \<not> links_has (candidate rnd 0) d \<longrightarrow>
        (\<exists>d'. post_api_links (Some v) cr now (d, rnd) =
            Some (Link (candidate rnd 0, v, or_anonymous cr, now, 0), d',
                  snd (generateShortCode 6 rnd))
          \<and> links_has (candidate rnd 0) d'
          \<and> media_has (candidate rnd 0) d' = media_has (candidate rnd 0) d))
   \<and> (h' \<noteq> [] \<and> nm' \<noteq> [] \<and> ty' \<noteq> [] \<and> sz' \<noteq> 0 \<and> \<not> media_has (candidate rnd 0) d \<longrightarrow>
        (\<exists>d'. post_api_media (Some h') (Some nm') (Some ty') (Some sz') cr now (d, rnd) =
            Some (Media (candidate rnd 0, h', nm', ty', sz', or_anonymous cr, now, 0), d',
                  snd (generateShortCode 6 rnd))
          \<and> media_has (candidate rnd 0) d'
          \<and> links_has (candidate rnd 0) d' = links_has (candidate rnd 0) d))"
proof -
  have c3: "createShortLink H e gas url s = Inr (c, s') \<longrightarrow>
        LinkIO.media s' = LinkIO.media s \<and> userMedia s' = userMedia s
        \<and> mediaCounter s' = mediaCounter s"
    using createShortLink_Inr(6,7,8)[of H e gas url s c s'] by simp
  have c4: "uploadMedia H e gas h nm ty sz s = Inr (c, s') \<longrightarrow>
        LinkIO.links s' = LinkIO.links s \<and> userLinks s' = userLinks s
        \<and> linkCounter s' = linkCounter s"
    using uploadMedia_Inr(6,7,8)[of H e gas h nm ty sz s c s'] by simp
  have c5: "url \<noteq> [] \<and> length url \<le> 2048 \<and> \<not> linkExists (link_candidate H e s 0) s \<longrightarrow>
        (\<exists>s'. createShortLink H e gas url s = Inr (link_candidate H e s 0, s')
           \<and> linkCounter s' = linkCounter s + 1
           \<and> linkExists (link_candidate H e s 0) s'
           \<and> mediaExists (link_candidate H e s 0) s' = mediaExists (link_candidate H e s 0) s)"
    using createShortLink_first_candidate[of url s H e gas] by (simp add: linkExists_def)
  have c6: "h \<noteq> [] \<and> nm \<noteq> [] \<and> \<not> mediaExists (media_candidate H e s 0) s \<longrightarrow>
        (\<exists>s'. uploadMedia H e gas h nm ty sz s = Inr (media_candidate H e s 0, s')
           \<and> mediaCounter s' = mediaCounter s + 1
           \<and> mediaExists (media_candidate H e s 0) s'
           \<and> linkExists (media_candidate H e s 0) s' = linkExists (media_candidate H e s 0) s)"
    using uploadMedia_first_candidate[of h nm s H e gas ty sz] by (simp add: mediaExists_def)
  have c9: "post_api_links u cr now (d, rnd) = Some (r, d', rnd') \<longrightarrow>
        media d' = media d \<and> media_seq d' = media_seq d"
    using post_api_links_frame by blast
  have c10: "post_api_media bh bn bty bsz cr now (d, rnd) = Some (r, d', rnd') \<longrightarrow>
        links d' = links d \<and> links_seq d' = links_seq d"
    using post_api_media_frame by blast
  have c11: "v \<noteq> [] \<and> \<not> links_has (candidate rnd 0) d \<longrightarrow>
        (\<exists>d'. post_api_links (Some v) cr now (d, rnd) =
            Some (Link (candidate rnd 0, v, or_anonymous cr, now, 0), d',
                  snd (generateShortCode 6 rnd))
          \<and> links_has (candidate rnd 0) d'
          \<and> media_has (candidate rnd 0) d' = media_has (candidate rnd 0) d)"
    using post_api_links_first_candidate by blast
  have c12: "h' \<noteq> [] \<and> nm' \<noteq> [] \<and> ty' \<noteq> [] \<and> sz' \<noteq> 0 \<and> \<not> media_has (candidate rnd 0) d \<longrightarrow>
        (\<exists>d'. post_api_media (Some h') (Some nm') (Some ty') (Some sz') cr now (d, rnd) =
            Some (Media (candidate rnd 0, h', nm', ty', sz', or_anonymous cr, now, 0), d',
                  snd (generateShortCode 6 rnd))
          \<and> media_has (candidate rnd 0) d'
          \<and> links_has (candidate rnd 0) d' = links_has (candidate rnd 0) d)"
    using post_api_media_first_candidate by blast
  show ?thesis
    by (intro conjI createShortLink_media_update uploadMedia_links_update
        post_api_links_media_update post_api_media_links_update c3 c4 c5 c6 c9 c10 c11 c12)
qed

text \<open>
  The generator is forced to the same output in both namespaces: on the deployed
  contract with a hash that returns the counter, and on the empty database with the
  all-zero random source, a media creation and then a link creation get the same code,
  which is then live in both namespaces.
\<close>

theorem namespaces_independent_witness:
  "(\<exists>c s1 s2.
      uploadMedia (\<lambda>ts pr a c. c) \<lparr>block_timestamp = 1, block_prevrandao = 2, msg_sender = 3\<rparr>
        0 ''QmTest123'' ''a.png'' ''image/png'' 10 deployed = Inr (c, s1)
      \<and> createShortLink (\<lambda>ts pr a c. c) \<lparr>block_timestamp = 1, block_prevrandao = 2, msg_sender = 3\<rparr>
        0 ''https://example.com/test'' s1 = Inr (c, s2)
      \<and> linkExists c s2 \<and> mediaExists c s2)
   \<and> (\<exists>d1 d2.
      post_api_media (Some ''QmTest123'') (Some ''a.png'') (Some ''image/png'') (Some 10) None 1
        (empty_db, sconst 0) =
        Some (Media (''aaaaaa'', ''QmTest123'', ''a.png'', ''image/png'', 10, ''anonymous'', 1, 0),
              d1, sconst 0)
      \<and> post_api_links (Some ''https://example.com/test'') None 2 (d1, sconst 0) =
        Some (Link (''aaaaaa'', ''https://example.com/test'', ''anonymous'', 2, 0), d2, sconst 0)
      \<and> links_has ''aaaaaa'' d2 \<and> media_has ''aaaaaa'' d2)"
proof -
  let ?H = "\<lambda>(ts :: uint256) (pr :: uint256) (a :: address) (c :: uint256). c"
  let ?e = "\<lparr>block_timestamp = 1, block_prevrandao = 2, msg_sender = 3\<rparr>"
  let ?c = "media_candidate ?H ?e deployed 0"
  have "\<not> mediaExists ?c deployed"
    by (simp add: mediaExists_def deployed_nothing_exists)
  with namespaces_independent[where H = ?H and e = ?e and gas = 0 and s = deployed
      and h = "''QmTest123''" and nm = "''a.png''" and ty = "''image/png''" and sz = 10,
      THEN conjunct2, THEN conjunct2, THEN conjunct2, THEN conjunct2, THEN conjunct2, THEN conjunct1]
  obtain s1 where s1: "uploadMedia ?H ?e 0 ''QmTest123'' ''a.png'' ''image/png'' 10 deployed = Inr (?c, s1)"
    "mediaExists ?c s1" "linkExists ?c s1 = linkExists ?c deployed"
    by auto
  from uploadMedia_Inr(8)[OF s1(1)] have lc: "linkCounter s1 = 0"
    by (simp add: deployed_def)
  have c: "link_candidate ?H ?e s1 0 = ?c"
    by (simp add: link_candidate_def media_candidate_def contract_generateShortCode_def Let_def
        lc deployed_def)
  have "\<not> linkExists ?c s1"
    using s1(3) by (simp add: linkExists_def deployed_nothing_exists)
  with c namespaces_independent[where H = ?H and e = ?e and gas = 0 and s = s1
      and url = "''https://example.com/test''",
      THEN conjunct2, THEN conjunct2, THEN conjunct2, THEN conjunct2, THEN conjunct1]
  obtain s2 where s2: "createShortLink ?H ?e 0 ''https://example.com/test'' s1 = Inr (?c, s2)"
    "linkExists ?c s2" "mediaExists ?c s2 = mediaExists ?c s1"
    by auto
  from s1 s2 have A: "\<exists>c s1 s2.
      uploadMedia ?H ?e 0 ''QmTest123'' ''a.png'' ''image/png'' 10 deployed = Inr (c, s1)
      \<and> createShortLink ?H ?e 0 ''https://example.com/test'' s1 = Inr (c, s2)
      \<and> linkExists c s2 \<and> mediaExists c s2"
    by blast
  have z: "candidate (sconst 0) 0 = ''aaaaaa''" "snd (generateShortCode 6 (sconst 0)) = sconst 0"
    by (simp_all add: candidate_0 generateShortCode_zero)
  have "\<not> media_has (candidate (sconst 0) 0) empty_db"
    by (simp add: empty_db_has_nothing)
  with namespaces_independent[where d = empty_db and rnd = "sconst 0" and cr = None and now = 1
      and h' = "''QmTest123''" and nm' = "''a.png''" and ty' = "''image/png''" and sz' = 10,
      THEN conjunct2, THEN conjunct2, THEN conjunct2, THEN conjunct2, THEN conjunct2, THEN conjunct2, THEN conjunct2, THEN conjunct2, THEN conjunct2, THEN conjunct2, THEN conjunct2]
  obtain d1 where d1: "post_api_media (Some ''QmTest123'') (Some ''a.png'') (Some ''image/png'')
        (Some 10) None 1 (empty_db, sconst 0) =
        Some (Media (''aaaaaa'', ''QmTest123'', ''a.png'', ''image/png'', 10, ''anonymous'', 1, 0),
              d1, sconst 0)"
    "media_has ''aaaaaa'' d1" "links_has ''aaaaaa'' d1 = links_has ''aaaaaa'' empty_db"
    unfolding z by (auto simp: or_anonymous_def)
  from d1(3) have "\<not> links_has (candidate (sconst 0) 0) d1"
    by (simp add: z empty_db_has_nothing)
  with namespaces_independent[where d = d1 and rnd = "sconst 0" and cr = None and now = 2
      and v = "''https://example.com/test''",
      THEN conjunct2, THEN conjunct2, THEN conjunct2, THEN conjunct2, THEN conjunct2, THEN conjunct2, THEN conjunct2, THEN conjunct2, THEN conjunct2, THEN conjunct2, THEN conjunct1]
  obtain d2 where d2: "post_api_links (Some ''https://example.com/test'') None 2 (d1, sconst 0) =
        Some (Link (''aaaaaa'', ''https://example.com/test'', ''anonymous'', 2, 0), d2, sconst 0)"
    "links_has ''aaaaaa'' d2" "media_has ''aaaaaa'' d2 = media_has ''aaaaaa'' d1"
    unfolding z by (auto simp: or_anonymous_def)
  from d1 d2 have B: "\<exists>d1 d2.
      post_api_media (Some ''QmTest123'') (Some ''a.png'') (Some ''image/png'') (Some 10) None 1
        (empty_db, sconst 0) =
        Some (Media (''aaaaaa'', ''QmTest123'', ''a.png'', ''image/png'', 10, ''anonymous'', 1, 0),
              d1, sconst 0)
      \<and> post_api_links (Some ''https://example.com/test'') None 2 (d1, sconst 0) =
        Some (Link (''aaaaaa'', ''https://example.com/test'', ''anonymous'', 2, 0), d2, sconst 0)
      \<and> links_has ''aaaaaa'' d2 \<and> media_has ''aaaaaa'' d2"
    by blast
  from A B show ?thesis by blast
qed

section \<open>Uniqueness of short codes\<close>

subsection \<open>The counting reads of the contract\<close>

lemma getLink_Inr:
  assumes "getLink c s = Inr (u, s')"
  shows "LinkData.exists (LinkIO.links s c)" "LinkData.clicks (LinkIO.links s c) \<noteq> - 1"
    "s' = s\<lparr>LinkIO.links := (LinkIO.links s)(c :=
            (LinkIO.links s c)\<lparr>LinkData.clicks := LinkData.clicks (LinkIO.links s c) + 1\<rparr>)\<rparr>"
    "u = originalUrl (LinkIO.links s c)"
  using assms by (auto simp: getLink_def Let_def split: if_splits)

lemma getMedia_Inr:
  assumes "getMedia c s = Inr (m, s')"
  shows "MediaData.exists (LinkIO.media s c)" "MediaData.views (LinkIO.media s c) \<noteq> - 1"
    "s' = s\<lparr>LinkIO.media := (LinkIO.media s)(c :=
            (LinkIO.media s c)\<lparr>MediaData.views := MediaData.views (LinkIO.media s c) + 1\<rparr>)\<rparr>"
  using assms by (auto simp: getMedia_def Let_def split: if_splits)

subsection \<open>Runs of the contract\<close>

lemma transact_links_exists:
  assumes "LinkData.exists (LinkIO.links s c)"
  shows "LinkData.exists (LinkIO.links (transact H t s) c)"
proof -
  obtain e gas call where t: "t = (e, gas, call)" by (cases t)
  show ?thesis
  proof (cases call)
    case (CreateShortLink url)
    with t assms show ?thesis
      by (auto split: sum.splits dest!: createShortLink_Inr(4))
  next
    case (UploadMedia h n ty sz)
    with t assms show ?thesis
      by (auto split: sum.splits dest!: uploadMedia_Inr(6))
  next
    case (GetLink c')
    with t assms show ?thesis
      by (auto split: sum.splits dest!: getLink_Inr(3))
  next
    case (GetMedia c')
    with t assms show ?thesis
      by (auto split: sum.splits dest!: getMedia_Inr(3))
  qed (use t assms in simp_all)
qed

lemma transact_media_exists:
  assumes "MediaData.exists (LinkIO.media s c)"
  shows "MediaData.exists (LinkIO.media (transact H t s) c)"
proof -
  obtain e gas call where t: "t = (e, gas, call)" by (cases t)
  show ?thesis
  proof (cases call)
    case (CreateShortLink url)
    with t assms show ?thesis
      by (auto split: sum.splits dest!: createShortLink_Inr(6))
  next
    case (UploadMedia h n ty sz)
    with t assms show ?thesis
      by (auto split: sum.splits dest!: uploadMedia_Inr(4))
  next
    case (GetLink c')
    with t assms show ?thesis
      by (auto split: sum.splits dest!: getLink_Inr(3))
  next
    case (GetMedia c')
    with t assms show ?thesis
      by (auto split: sum.splits dest!: getMedia_Inr(3))
  qed (use t assms in simp_all)
qed

lemma link_codes_other:
  "\<forall>url. call \<noteq> CreateShortLink url \<Longrightarrow>
   link_codes H ((e, gas, call) # ts) s = link_codes H ts (transact H (e, gas, call) s)"
  by (cases call) simp_all

lemma media_codes_other:
  "\<forall>h n ty sz. call \<noteq> UploadMedia h n ty sz \<Longrightarrow>
   media_codes H ((e, gas, call) # ts) s = media_codes H ts (transact H (e, gas, call) s)"
  by (cases call) simp_all

lemma link_codes_fresh:
  "distinct (link_codes H ts s)
   \<and> (\<forall>c\<in>set (link_codes H ts s). \<not> LinkData.exists (LinkIO.links s c))"
proof (induction ts arbitrary: s)
  case Nil
  then show ?case by simp
next
  case (Cons t ts)
  obtain e gas call where t: "t = (e, gas, call)" by (cases t)
  show ?case
  proof (cases "\<exists>url. call = CreateShortLink url")
    case True
    then obtain url where call: "call = CreateShortLink url" by auto
    show ?thesis
    proof (cases "createShortLink H e gas url s")
      case (Inl r)
      with t call Cons.IH[of s] show ?thesis by simp
    next
      case (Inr y)
      obtain c s' where y: "y = (c, s')" by (cases y)
      note f = createShortLink_Inr(3,4)[OF Inr[unfolded y]]
      have codes: "link_codes H (t # ts) s = c # link_codes H ts s'"
        using t call Inr y by simp
      have ex: "LinkData.exists (LinkIO.links s' c)" using f(2) by simp
      have "c \<notin> set (link_codes H ts s')" using Cons.IH[of s'] ex by blast
      moreover have "\<forall>c'\<in>set (link_codes H ts s'). \<not> LinkData.exists (LinkIO.links s c')"
      proof
        fix c' assume c': "c' \<in> set (link_codes H ts s')"
        with Cons.IH[of s'] have n: "\<not> LinkData.exists (LinkIO.links s' c')" by blast
        with ex have "c' \<noteq> c" by auto
        with n f(2) show "\<not> LinkData.exists (LinkIO.links s c')" by simp
      qed
      ultimately show ?thesis
        using codes Cons.IH[of s'] f(1) by simp
    qed
  next
    case False
    then have "link_codes H (t # ts) s = link_codes H ts (transact H t s)"
      using t link_codes_other[of call H e gas ts s] by simp
    with Cons.IH[of "transact H t s"] transact_links_exists[of s _ H t] show ?thesis
      by auto
  qed
qed

lemma media_codes_fresh:
  "distinct (media_codes H ts s)
   \<and> (\<forall>c\<in>set (media_codes H ts s). \<not> MediaData.exists (LinkIO.media s c))"
proof (induction ts arbitrary: s)
  case Nil
  then show ?case by simp
next
  case (Cons t ts)
  obtain e gas call where t: "t = (e, gas, call)" by (cases t)
  show ?case
  proof (cases "\<exists>h n ty sz. call = UploadMedia h n ty sz")
    case True
    then obtain h n ty sz where call: "call = UploadMedia h n ty sz" by auto
    show ?thesis
    proof (cases "uploadMedia H e gas h n ty sz s")
      case (Inl r)
      with t call Cons.IH[of s] show ?thesis by simp
    next
      case (Inr y)
      obtain c s' where y: "y = (c, s')" by (cases y)
      note f = uploadMedia_Inr(3,4)[OF Inr[unfolded y]]
      have codes: "media_codes H (t # ts) s = c # media_codes H ts s'"
        using t call Inr y by simp
      have ex: "MediaData.exists (LinkIO.media s' c)" using f(2) by simp
      have "c \<notin> set (media_codes H ts s')" using Cons.IH[of s'] ex by blast
      moreover have "\<forall>c'\<in>set (media_codes H ts s'). \<not> MediaData.exists (LinkIO.media s c')"
      proof
        fix c' assume c': "c' \<in> set (media_codes H ts s')"
        with Cons.IH[of s'] have n: "\<not> MediaData.exists (LinkIO.media s' c')" by blast
        with ex have "c' \<noteq> c" by auto
        with n f(2) show "\<not> MediaData.exists (LinkIO.media s c')" by simp
      qed
      ultimately show ?thesis
        using codes Cons.IH[of s'] f(1) by simp
    qed
  next
    case False
    then have "media_codes H (t # ts) s = media_codes H ts (transact H t s)"
      using t media_codes_other[of call H e gas ts s] by simp
    with Cons.IH[of "transact H t s"] transact_media_exists[of s _ H t] show ?thesis
      by auto
  qed
qed

subsection \<open>Codes of concrete seeds and bytes\<close>

lemma code_of_1: "shortCode_loop 0 (1 :: uint256) (replicate 6 (CHR 0x00)) = ''baaaaa''"
  by (simp add: replicate_6 shortCode_loop_unroll chars_def)

lemma code_of_2: "shortCode_loop 0 (2 :: uint256) (replicate 6 (CHR 0x00)) = ''caaaaa''"
  by (simp add: replicate_6 shortCode_loop_unroll chars_def)

lemma code_of_62: "shortCode_loop 0 (63 :: uint256) (replicate 6 (CHR 0x00)) = ''bbaaaa''"
  by (simp add: replicate_6 shortCode_loop_unroll chars_def)

lemma stake_sdrop_6:
  "stake 6 (b0 ## b1 ## b2 ## b3 ## b4 ## b5 ## rnd) = [b0, b1, b2, b3, b4, b5]"
  "sdrop 6 (b0 ## b1 ## b2 ## b3 ## b4 ## b5 ## rnd) = rnd"
  by (simp_all add: eval_nat_numeral)

lemma gsc_shift:
  "generateShortCode 6 (b0 ## b1 ## b2 ## b3 ## b4 ## b5 ## rnd) =
     (map (\<lambda>b. chars ! (unat b mod 62)) [b0, b1, b2, b3, b4, b5], rnd)"
  by (simp only: generateShortCode_eq stake_sdrop_6 length_chars)

subsection \<open>Runs of the server\<close>

lemma links_click_codes [simp]:
  "map links_row.short_code (links (links_click c d)) = map links_row.short_code (links d)"
  "media (links_click c d) = media d" "links_seq (links_click c d) = links_seq d"
  "media_seq (links_click c d) = media_seq d"
  by (simp_all add: links_click_def comp_def)

lemma media_view_codes [simp]:
  "map media_row.short_code (media (media_view c d)) = map media_row.short_code (media d)"
  "links (media_view c d) = links d" "links_seq (media_view c d) = links_seq d"
  "media_seq (media_view c d) = media_seq d"
  by (simp_all add: media_view_def comp_def)

lemma links_click_code_set [simp]:
  "links_row.short_code ` set (links (links_click c d)) = links_row.short_code ` set (links d)"
  using links_click_codes(1)[of c d] by (metis set_map)

lemma media_view_code_set [simp]:
  "media_row.short_code ` set (media (media_view c d)) = media_row.short_code ` set (media d)"
  using media_view_codes(1)[of c d] by (metis set_map)

lemma redirect_snd:
  "snd (get_api_links_redirect c d) = d \<or> snd (get_api_links_redirect c d) = links_click c d"
  by (simp add: get_api_links_redirect_def split: option.splits)

lemma view_snd:
  "snd (get_api_media_view c d) = d \<or> snd (get_api_media_view c d) = media_view c d"
  by (simp add: get_api_media_view_def split: option.splits)

lemma handle_keeps_codes:
  assumes "handle q (d, rnd) = Some (r, d', rnd')" "\<not> is_delete (fst q)"
  shows "set (map links_row.short_code (links d)) \<subseteq> set (map links_row.short_code (links d'))"
    "set (map media_row.short_code (media d)) \<subseteq> set (map media_row.short_code (media d'))"
proof -
  obtain q' now where q: "q = (q', now)" by (cases q)
  have "set (map links_row.short_code (links d)) \<subseteq> set (map links_row.short_code (links d'))
      \<and> set (map media_row.short_code (media d)) \<subseteq> set (map media_row.short_code (media d'))"
  proof (cases q')
    case (POST_api_links u cr)
    with assms q show ?thesis by (auto dest!: post_api_links_Some)
  next
    case (POST_api_media bh bn bty bsz cr)
    with assms q show ?thesis by (auto dest!: post_api_media_Some)
  next
    case (GET_api_links_redirect c)
    with assms q redirect_snd[of c d] show ?thesis by auto
  next
    case (GET_api_media_view c)
    with assms q view_snd[of c d] show ?thesis by auto
  qed (use assms q in auto)
  then show "set (map links_row.short_code (links d)) \<subseteq> set (map links_row.short_code (links d'))"
    "set (map media_row.short_code (media d)) \<subseteq> set (map media_row.short_code (media d'))"
    by simp_all
qed

lemma handle_post_links_Link:
  assumes "handle (POST_api_links u cr, now) (d, rnd) = Some (Link j, d', rnd')"
  shows "\<not> links_has (fst j) d" "links_has (fst j) d'"
  using assms by (auto dest!: post_api_links_Some simp: links_has_iff)

lemma handle_post_media_Media:
  assumes "handle (POST_api_media bh bn bty bsz cr, now) (d, rnd) = Some (Media j, d', rnd')"
  shows "\<not> media_has (fst j) d" "media_has (fst j) d'"
  using assms by (auto dest!: post_api_media_Some simp: media_has_iff)

lemma posted_link_codes_other:
  "\<not> (\<exists>u cr now j. q = (POST_api_links u cr, now) \<and> r = Link j) \<Longrightarrow>
   posted_link_codes (q # qs) (r # rs) = posted_link_codes qs rs"
proof -
  assume a: "\<not> (\<exists>u cr now j. q = (POST_api_links u cr, now) \<and> r = Link j)"
  obtain q' now where q: "q = (q', now)" by (cases q)
  show ?thesis using a q
    by (cases q'; cases r) (simp_all del: split_paired_Ex split_paired_All)
qed

lemma posted_media_codes_other:
  "\<not> (\<exists>bh bn bty bsz cr now j. q = (POST_api_media bh bn bty bsz cr, now) \<and> r = Media j) \<Longrightarrow>
   posted_media_codes (q # qs) (r # rs) = posted_media_codes qs rs"
proof -
  assume a: "\<not> (\<exists>bh bn bty bsz cr now j. q = (POST_api_media bh bn bty bsz cr, now) \<and> r = Media j)"
  obtain q' now where q: "q = (q', now)" by (cases q)
  show ?thesis using a q
    by (cases q'; cases r) (simp_all del: split_paired_Ex split_paired_All)
qed

lemma serve_Cons_Some:
  "serve (q # qs) (d, rnd) = Some (rs, d', rnd') \<Longrightarrow>
   \<exists>r d1 rnd1 rs'. handle q (d, rnd) = Some (r, d1, rnd1)
      \<and> serve qs (d1, rnd1) = Some (rs', d', rnd') \<and> rs = r # rs'"
  by (auto split: option.splits)

lemma serve_posted_links_fresh:
  "serve qs (d, rnd) = Some (rs, d', rnd') \<Longrightarrow> \<forall>q\<in>set qs. \<not> is_delete (fst q) \<Longrightarrow>
   distinct (posted_link_codes qs rs) \<and> (\<forall>c\<in>set (posted_link_codes qs rs). \<not> links_has c d)"
proof (induction qs arbitrary: d rnd rs)
  case Nil
  then show ?case by simp
next
  case (Cons q qs)
  from Cons.prems(1) obtain r d1 rnd1 rs' where
    h: "handle q (d, rnd) = Some (r, d1, rnd1)" and
    s: "serve qs (d1, rnd1) = Some (rs', d', rnd')" and rs: "rs = r # rs'"
    using serve_Cons_Some by blast
  from Cons.prems(2) have nd: "\<not> is_delete (fst q)" "\<forall>q\<in>set qs. \<not> is_delete (fst q)" by simp_all
  note IH = Cons.IH[OF s nd(2)]
  have keep: "\<And>c. links_has c d \<Longrightarrow> links_has c d1"
    using handle_keeps_codes(1)[OF h nd(1)] by (auto simp: links_has_iff)
  have rest: "\<forall>c\<in>set (posted_link_codes qs rs'). \<not> links_has c d"
    using IH keep by blast
  show ?case
  proof (cases "\<exists>u cr now j. q = (POST_api_links u cr, now) \<and> r = Link j")
    case True
    then obtain u cr now j where q: "q = (POST_api_links u cr, now)" "r = Link j" by auto
    from handle_post_links_Link[OF h[unfolded q]] have j: "\<not> links_has (fst j) d" "links_has (fst j) d1" .
    have "posted_link_codes (q # qs) rs = fst j # posted_link_codes qs rs'"
      using q rs by simp
    moreover have "fst j \<notin> set (posted_link_codes qs rs')" using IH j(2) by blast
    ultimately show ?thesis using IH rest j(1) by simp
  next
    case False
    from posted_link_codes_other[OF this] rs IH rest show ?thesis by simp
  qed
qed

lemma serve_posted_media_fresh:
  "serve qs (d, rnd) = Some (rs, d', rnd') \<Longrightarrow> \<forall>q\<in>set qs. \<not> is_delete (fst q) \<Longrightarrow>
   distinct (posted_media_codes qs rs) \<and> (\<forall>c\<in>set (posted_media_codes qs rs). \<not> media_has c d)"
proof (induction qs arbitrary: d rnd rs)
  case Nil
  then show ?case by simp
next
  case (Cons q qs)
  from Cons.prems(1) obtain r d1 rnd1 rs' where
    h: "handle q (d, rnd) = Some (r, d1, rnd1)" and
    s: "serve qs (d1, rnd1) = Some (rs', d', rnd')" and rs: "rs = r # rs'"
    using serve_Cons_Some by blast
  from Cons.prems(2) have nd: "\<not> is_delete (fst q)" "\<forall>q\<in>set qs. \<not> is_delete (fst q)" by simp_all
  note IH = Cons.IH[OF s nd(2)]
  have keep: "\<And>c. media_has c d \<Longrightarrow> media_has c d1"
    using handle_keeps_codes(2)[OF h nd(1)] by (auto simp: media_has_iff)
  have rest: "\<forall>c\<in>set (posted_media_codes qs rs'). \<not> media_has c d"
    using IH keep by blast
  show ?case
  proof (cases "\<exists>bh bn bty bsz cr now j. q = (POST_api_media bh bn bty bsz cr, now) \<and> r = Media j")
    case True
    then obtain bh bn bty bsz cr now j where q: "q = (POST_api_media bh bn bty bsz cr, now)" "r = Media j"
      by auto
    from handle_post_media_Media[OF h[unfolded q]] have j: "\<not> media_has (fst j) d" "media_has (fst j) d1" .
    have "posted_media_codes (q # qs) rs = fst j # posted_media_codes qs rs'"
      using q rs by simp
    moreover have "fst j \<notin> set (posted_media_codes qs rs')" using IH j(2) by blast
    ultimately show ?thesis using IH rest j(1) by simp
  next
    case False
    from posted_media_codes_other[OF this] rs IH rest show ?thesis by simp
  qed
qed

lemma while_taken_retry:
  "f c \<Longrightarrow> while_taken f c rnd =
     while_taken f (fst (generateShortCode 6 rnd)) (snd (generateShortCode 6 rnd))"
  by (subst while_taken.simps) simp

lemma code_of_3: "shortCode_loop 0 (3 :: uint256) (replicate 6 (CHR 0x00)) = ''daaaaa''"
  by (simp add: replicate_6 shortCode_loop_unroll chars_def)

subsection \<open>The first unused candidate\<close>

lemma links_unique_first_unused:
  "\<forall>j<k. LinkData.exists (LinkIO.links s (link_candidate H e s j)) \<Longrightarrow>
   \<not> LinkData.exists (LinkIO.links s (link_candidate H e s k)) \<Longrightarrow> k \<le> gas \<Longrightarrow>
   links_unique gas H e (fst (contract_generateShortCode H e LINK s))
       (snd (contract_generateShortCode H e LINK s)) =
     Inr (link_candidate H e s k, s\<lparr>linkCounter := linkCounter s + of_nat (Suc k)\<rparr>)"
proof (induction k arbitrary: s gas)
  case 0
  then show ?case
    by (cases gas) (simp_all add: link_candidate_0 gen_frame gen_state)
next
  case (Suc k)
  let ?s1 = "snd (contract_generateShortCode H e LINK s)"
  from Suc.prems(3) obtain gas' where gas: "gas = Suc gas'" "k \<le> gas'" by (cases gas) auto
  from Suc.prems(1) have t0: "LinkData.exists (LinkIO.links s (link_candidate H e s 0))" by simp
  have a: "\<forall>j<k. LinkData.exists (LinkIO.links ?s1 (link_candidate H e ?s1 j))"
    using Suc.prems(1) by (simp add: link_candidate_Suc gen_frame)
  have b: "\<not> LinkData.exists (LinkIO.links ?s1 (link_candidate H e ?s1 k))"
    using Suc.prems(2) by (simp add: link_candidate_Suc gen_frame)
  have "links_unique gas H e (fst (contract_generateShortCode H e LINK s)) ?s1 =
      links_unique gas' H e (fst (contract_generateShortCode H e LINK ?s1))
        (snd (contract_generateShortCode H e LINK ?s1))"
    using t0 gas(1) by (simp add: link_candidate_0 gen_frame)
  also have "\<dots> = Inr (link_candidate H e ?s1 k, ?s1\<lparr>linkCounter := linkCounter ?s1 + of_nat (Suc k)\<rparr>)"
    by (rule Suc.IH[OF a b gas(2)])
  also have "\<dots> = Inr (link_candidate H e s (Suc k), s\<lparr>linkCounter := linkCounter s + of_nat (Suc (Suc k))\<rparr>)"
    by (simp only: link_candidate_Suc) (simp add: gen_state add.assoc)
  finally show ?case .
qed

lemma media_unique_first_unused:
  "\<forall>j<k. MediaData.exists (LinkIO.media s (media_candidate H e s j)) \<Longrightarrow>
   \<not> MediaData.exists (LinkIO.media s (media_candidate H e s k)) \<Longrightarrow> k \<le> gas \<Longrightarrow>
   media_unique gas H e (fst (contract_generateShortCode H e MEDIA s))
       (snd (contract_generateShortCode H e MEDIA s)) =
     Inr (media_candidate H e s k, s\<lparr>mediaCounter := mediaCounter s + of_nat (Suc k)\<rparr>)"
proof (induction k arbitrary: s gas)
  case 0
  then show ?case
    by (cases gas) (simp_all add: media_candidate_0 gen_frame gen_state)
next
  case (Suc k)
  let ?s1 = "snd (contract_generateShortCode H e MEDIA s)"
  from Suc.prems(3) obtain gas' where gas: "gas = Suc gas'" "k \<le> gas'" by (cases gas) auto
  from Suc.prems(1) have t0: "MediaData.exists (LinkIO.media s (media_candidate H e s 0))" by simp
  have a: "\<forall>j<k. MediaData.exists (LinkIO.media ?s1 (media_candidate H e ?s1 j))"
    using Suc.prems(1) by (simp add: media_candidate_Suc gen_frame)
  have b: "\<not> MediaData.exists (LinkIO.media ?s1 (media_candidate H e ?s1 k))"
    using Suc.prems(2) by (simp add: media_candidate_Suc gen_frame)
  have "media_unique gas H e (fst (contract_generateShortCode H e MEDIA s)) ?s1 =
      media_unique gas' H e (fst (contract_generateShortCode H e MEDIA ?s1))
        (snd (contract_generateShortCode H e MEDIA ?s1))"
    using t0 gas(1) by (simp add: media_candidate_0 gen_frame)
  also have "\<dots> = Inr (media_candidate H e ?s1 k, ?s1\<lparr>mediaCounter := mediaCounter ?s1 + of_nat (Suc k)\<rparr>)"
    by (rule Suc.IH[OF a b gas(2)])
  also have "\<dots> = Inr (media_candidate H e s (Suc k), s\<lparr>mediaCounter := mediaCounter s + of_nat (Suc (Suc k))\<rparr>)"
    by (simp only: media_candidate_Suc) (simp add: gen_state add.assoc)
  finally show ?case .
qed

lemma links_unique_all_taken:
  "\<forall>j\<le>gas. LinkData.exists (LinkIO.links s (link_candidate H e s j)) \<Longrightarrow>
   links_unique gas H e (fst (contract_generateShortCode H e LINK s))
       (snd (contract_generateShortCode H e LINK s)) = Inl OutOfGas"
proof (induction gas arbitrary: s)
  case 0
  then show ?case by (simp add: link_candidate_0 gen_frame)
next
  case (Suc gas)
  let ?s1 = "snd (contract_generateShortCode H e LINK s)"
  from Suc.prems have t0: "LinkData.exists (LinkIO.links s (link_candidate H e s 0))" by simp
  have "\<forall>j\<le>gas. LinkData.exists (LinkIO.links ?s1 (link_candidate H e ?s1 j))"
    using Suc.prems by (simp add: link_candidate_Suc gen_frame)
  from Suc.IH[OF this] t0 show ?case
    by (simp add: link_candidate_0 gen_frame)
qed

lemma media_unique_all_taken:
  "\<forall>j\<le>gas. MediaData.exists (LinkIO.media s (media_candidate H e s j)) \<Longrightarrow>
   media_unique gas H e (fst (contract_generateShortCode H e MEDIA s))
       (snd (contract_generateShortCode H e MEDIA s)) = Inl OutOfGas"
proof (induction gas arbitrary: s)
  case 0
  then show ?case by (simp add: media_candidate_0 gen_frame)
next
  case (Suc gas)
  let ?s1 = "snd (contract_generateShortCode H e MEDIA s)"
  from Suc.prems have t0: "MediaData.exists (LinkIO.media s (media_candidate H e s 0))" by simp
  have "\<forall>j\<le>gas. MediaData.exists (LinkIO.media ?s1 (media_candidate H e ?s1 j))"
    using Suc.prems by (simp add: media_candidate_Suc gen_frame)
  from Suc.IH[OF this] t0 show ?case
    by (simp add: media_candidate_0 gen_frame)
qed

lemma createShortLink_first_unused:
  assumes "url \<noteq> []" "length url \<le> 2048" "k \<le> gas"
    "\<forall>j<k. linkExists (link_candidate H e s j) s" "\<not> linkExists (link_candidate H e s k) s"
  shows "createShortLink H e gas url s =
     Inr (link_candidate H e s k,
          s\<lparr>linkCounter := linkCounter s + of_nat (Suc k),
            LinkIO.links := (LinkIO.links s)(link_candidate H e s k :=
               \<lparr>originalUrl = url, LinkData.creator = msg_sender e,
                LinkData.createdAt = block_timestamp e, clicks = 0, LinkData.exists = True\<rparr>),
            userLinks := (userLinks s)(msg_sender e :=
               userLinks s (msg_sender e) @ [link_candidate H e s k])\<rparr>)"
  using links_unique_first_unused[of k s H e gas] assms
  by (simp add: createShortLink_def linkExists_def)

lemma uploadMedia_first_unused:
  assumes "h \<noteq> []" "nm \<noteq> []" "k \<le> gas"
    "\<forall>j<k. mediaExists (media_candidate H e s j) s" "\<not> mediaExists (media_candidate H e s k) s"
  shows "uploadMedia H e gas h nm ty sz s =
     Inr (media_candidate H e s k,
          s\<lparr>mediaCounter := mediaCounter s + of_nat (Suc k),
            LinkIO.media := (LinkIO.media s)(media_candidate H e s k :=
               \<lparr>ipfsHash = h, fileName = nm, fileType = ty, fileSize = sz,
                MediaData.creator = msg_sender e, MediaData.createdAt = block_timestamp e,
                views = 0, MediaData.exists = True\<rparr>),
            userMedia := (userMedia s)(msg_sender e :=
               userMedia s (msg_sender e) @ [media_candidate H e s k])\<rparr>)"
  using media_unique_first_unused[of k s H e gas] assms
  by (simp add: uploadMedia_def mediaExists_def)

lemma createShortLink_all_taken:
  assumes "url \<noteq> []" "length url \<le> 2048" "\<forall>j\<le>gas. linkExists (link_candidate H e s j) s"
  shows "createShortLink H e gas url s = Inl OutOfGas"
  using links_unique_all_taken[of gas s H e] assms
  by (simp add: createShortLink_def linkExists_def)

lemma uploadMedia_all_taken:
  assumes "h \<noteq> []" "nm \<noteq> []" "\<forall>j\<le>gas. mediaExists (media_candidate H e s j) s"
  shows "uploadMedia H e gas h nm ty sz s = Inl OutOfGas"
  using media_unique_all_taken[of gas s H e] assms
  by (simp add: uploadMedia_def mediaExists_def)

lemma candidate_Suc: "candidate (snd (generateShortCode 6 rnd)) k = candidate rnd (Suc k)"
  by (simp add: candidate_def generateShortCode_eq add.commute)

lemma while_taken_first_unused:
  "\<forall>j<k. f (candidate rnd j) \<Longrightarrow> \<not> f (candidate rnd k) \<Longrightarrow>
   while_taken f (fst (generateShortCode 6 rnd)) (snd (generateShortCode 6 rnd)) =
     Some (candidate rnd k, sdrop (6 * Suc k) rnd)"
proof (induction k arbitrary: rnd)
  case 0
  then show ?case
    by (simp add: candidate_0 while_taken_first) (simp add: generateShortCode_eq)
next
  case (Suc k)
  let ?r1 = "snd (generateShortCode 6 rnd)"
  from Suc.prems(1) have t0: "f (fst (generateShortCode 6 rnd))" by (auto simp: candidate_0[symmetric])
  have a: "\<forall>j<k. f (candidate ?r1 j)" using Suc.prems(1) by (simp add: candidate_Suc)
  have b: "\<not> f (candidate ?r1 k)" using Suc.prems(2) by (simp add: candidate_Suc)
  have "while_taken f (fst (generateShortCode 6 rnd)) ?r1 =
      while_taken f (fst (generateShortCode 6 ?r1)) (snd (generateShortCode 6 ?r1))"
    using t0 by (rule while_taken_retry[where f = f and c = "fst (generateShortCode 6 rnd)"])
  also have "\<dots> = Some (candidate ?r1 k, sdrop (6 * Suc k) ?r1)"
    by (rule Suc.IH[OF a b])
  also have "\<dots> = Some (candidate rnd (Suc k), sdrop (6 * Suc (Suc k)) rnd)"
    by (simp add: candidate_Suc) (simp add: generateShortCode_eq add.commute)
  finally show ?case .
qed

lemma post_api_links_first_unused:
  assumes "v \<noteq> []" "\<forall>j<k. links_has (candidate rnd j) d" "\<not> links_has (candidate rnd k) d"
  shows "post_api_links (Some v) cr now (d, rnd) =
     Some (Link (candidate rnd k, v, or_anonymous cr, now, 0),
           d\<lparr>links := links d @
                [\<lparr>links_row.rowid = links_seq d + 1, links_row.short_code = candidate rnd k,
                  original_url = v, links_row.creator = or_anonymous cr,
                  links_row.created_at = now, clicks = 0\<rparr>],
              links_seq := links_seq d + 1\<rparr>,
           sdrop (6 * Suc k) rnd)"
  using while_taken_first_unused[of k "\<lambda>c. links_has c d" rnd, OF assms(2,3)] assms(1)
  by (simp add: post_api_links_valid)

lemma post_api_media_first_unused:
  assumes "h \<noteq> []" "nm \<noteq> []" "ty \<noteq> []" "sz \<noteq> 0"
    "\<forall>j<k. media_has (candidate rnd j) d" "\<not> media_has (candidate rnd k) d"
  shows "post_api_media (Some h) (Some nm) (Some ty) (Some sz) cr now (d, rnd) =
     Some (Media (candidate rnd k, h, nm, ty, sz, or_anonymous cr, now, 0),
           d\<lparr>media := media d @
                [\<lparr>media_row.rowid = media_seq d + 1, media_row.short_code = candidate rnd k,
                  ipfs_hash = h, file_name = nm, file_type = ty, file_size = sz,
                  media_row.creator = or_anonymous cr, media_row.created_at = now, views = 0\<rparr>],
              media_seq := media_seq d + 1\<rparr>,
           sdrop (6 * Suc k) rnd)"
  using while_taken_first_unused[of k "\<lambda>c. media_has c d" rnd, OF assms(5,6)] assms(1-4)
  by (simp add: post_api_media_valid)

text \<open>
  C1. The codes that the successful link creations of any run of contract calls return
  are pairwise distinct, and so are those of the media creations; the same holds of the
  codes that the server answers the creation requests of a run with, when the run
  contains no administrative deletion. The reason is the test before the insertion: a
  creation that succeeds returns a code that was not a key of its namespace before and is
  one afterwards. And a creation retries until it has such a code: when the first \<open>n\<close>
  candidates of the generator are keys of the namespace and the next one is not, a
  creation with valid fields (and, in the contract, with gas for \<open>n\<close> retries) returns
  that next candidate, after \<open>n + 1\<close> calls of the generator, and stores its record
  under it. When every candidate that the gas pays for is a key, the contract's creation
  runs out of gas.
\<close>

theorem short_codes_distinct:
  "distinct (link_codes H ts s) \<and> distinct (media_codes H ts s)
   \<and> (createShortLink H e gas url s = Inr (c, s') \<longrightarrow> \<not> linkExists c s \<and> linkExists c s')
   \<and> (uploadMedia H e gas h nm ty sz s = Inr (c, s') \<longrightarrow> \<not> mediaExists c s \<and> mediaExists c s')
   \<and> (serve qs (d, rnd) = Some (rs, d', rnd') \<and> (\<forall>q\<in>set qs. \<not> is_delete (fst q)) \<longrightarrow>
        distinct (posted_link_codes qs rs) \<and> distinct (posted_media_codes qs rs))
   \<and> (post_api_links u cr now (d, rnd) = Some (Link j, d1, rnd1) \<longrightarrow>
        \<not> links_has (fst j) d \<and> links_has (fst j) d1)
   \<and> (post_api_media bh bn bty bsz cr now (d, rnd) = Some (Media k, d1, rnd1) \<longrightarrow>
        \<not> media_has (fst k) d \<and> media_has (fst k) d1)
   \<and> (url \<noteq> [] \<and> length url \<le> 2048 \<and> n \<le> gas
        \<and> (\<forall>i<n. linkExists (link_candidate H e s i) s)
        \<and> \<not> linkExists (link_candidate H e s n) s \<longrightarrow>
      (\<exists>s2. createShortLink H e gas url s = Inr (link_candidate H e s n, s2)
         \<and> transact H (e, gas, CreateShortLink url) s = s2
         \<and> link_codes H [(e, gas, CreateShortLink url)] s = [link_candidate H e s n]
         \<and> linkExists (link_candidate H e s n) s2
         \<and> linkCounter s2 = linkCounter s + of_nat (Suc n)))
   \<and> (h \<noteq> [] \<and> nm \<noteq> [] \<and> n \<le> gas
        \<and> (\<forall>i<n. mediaExists (media_candidate H e s i) s)
        \<and> \<not> mediaExists (media_candidate H e s n) s \<longrightarrow>
      (\<exists>s2. uploadMedia H e gas h nm ty sz s = Inr (media_candidate H e s n, s2)
         \<and> transact H (e, gas, UploadMedia h nm ty sz) s = s2
         \<and> media_codes H [(e, gas, UploadMedia h nm ty sz)] s = [media_candidate H e s n]
         \<and> mediaExists (media_candidate H e s n) s2
         \<and> mediaCounter s2 = mediaCounter s + of_nat (Suc n)))
   \<and> (url \<noteq> [] \<and> length url \<le> 2048
        \<and> (\<forall>i\<le>gas. linkExists (link_candidate H e s i) s) \<longrightarrow>
      createShortLink H e gas url s = Inl OutOfGas)
   \<and> (h \<noteq> [] \<and> nm \<noteq> []
        \<and> (\<forall>i\<le>gas. mediaExists (media_candidate H e s i) s) \<longrightarrow>
      uploadMedia H e gas h nm ty sz s = Inl OutOfGas)
   \<and> (v \<noteq> [] \<and> (\<forall>i<n. links_has (candidate rnd i) d) \<and> \<not> links_has (candidate rnd n) d \<longrightarrow>
      (\<exists>d2. links_insert (candidate rnd n) v (or_anonymous cr) now d = Some d2
         \<and> handle (POST_api_links (Some v) cr, now) (d, rnd) =
             Some (Link (candidate rnd n, v, or_anonymous cr, now, 0), d2, sdrop (6 * Suc n) rnd)
         \<and> links_has (candidate rnd n) d2))
   \<and> (fh \<noteq> [] \<and> fn \<noteq> [] \<and> fty \<noteq> [] \<and> fsz \<noteq> 0
        \<and> (\<forall>i<n. media_has (candidate rnd i) d) \<and> \<not> media_has (candidate rnd n) d \<longrightarrow>
      (\<exists>d2. media_insert (candidate rnd n) fh fn fty fsz (or_anonymous cr) now d = Some d2
         \<and> handle (POST_api_media (Some fh) (Some fn) (Some fty) (Some fsz) cr, now) (d, rnd) =
             Some (Media (candidate rnd n, fh, fn, fty, fsz, or_anonymous cr, now, 0), d2,
                   sdrop (6 * Suc n) rnd)
         \<and> media_has (candidate rnd n) d2))"
proof -
  have c3: "createShortLink H e gas url s = Inr (c, s') \<longrightarrow> \<not> linkExists c s \<and> linkExists c s'"
    using createShortLink_Inr(3,4)[of H e gas url s c s'] by (simp add: linkExists_def)
  have c4: "uploadMedia H e gas h nm ty sz s = Inr (c, s') \<longrightarrow> \<not> mediaExists c s \<and> mediaExists c s'"
    using uploadMedia_Inr(3,4)[of H e gas h nm ty sz s c s'] by (simp add: mediaExists_def)
  have c5: "serve qs (d, rnd) = Some (rs, d', rnd') \<and> (\<forall>q\<in>set qs. \<not> is_delete (fst q)) \<longrightarrow>
        distinct (posted_link_codes qs rs) \<and> distinct (posted_media_codes qs rs)"
    using serve_posted_links_fresh[of qs d rnd rs d' rnd']
      serve_posted_media_fresh[of qs d rnd rs d' rnd'] by blast
  have c6: "post_api_links u cr now (d, rnd) = Some (Link j, d1, rnd1) \<longrightarrow>
        \<not> links_has (fst j) d \<and> links_has (fst j) d1"
    using handle_post_links_Link[of u cr now d rnd j d1 rnd1] by simp
  have c7: "post_api_media bh bn bty bsz cr now (d, rnd) = Some (Media k, d1, rnd1) \<longrightarrow>
        \<not> media_has (fst k) d \<and> media_has (fst k) d1"
    using handle_post_media_Media[of bh bn bty bsz cr now d rnd k d1 rnd1] by simp
  have c8: "url \<noteq> [] \<and> length url \<le> 2048 \<and> n \<le> gas
        \<and> (\<forall>i<n. linkExists (link_candidate H e s i) s)
        \<and> \<not> linkExists (link_candidate H e s n) s \<longrightarrow>
      (\<exists>s2. createShortLink H e gas url s = Inr (link_candidate H e s n, s2)
         \<and> transact H (e, gas, CreateShortLink url) s = s2
         \<and> link_codes H [(e, gas, CreateShortLink url)] s = [link_candidate H e s n]
         \<and> linkExists (link_candidate H e s n) s2
         \<and> linkCounter s2 = linkCounter s + of_nat (Suc n))"
  proof
    assume a: "url \<noteq> [] \<and> length url \<le> 2048 \<and> n \<le> gas
        \<and> (\<forall>i<n. linkExists (link_candidate H e s i) s)
        \<and> \<not> linkExists (link_candidate H e s n) s"
    then have "createShortLink H e gas url s = Inr (link_candidate H e s n,
          s\<lparr>linkCounter := linkCounter s + of_nat (Suc n),
            LinkIO.links := (LinkIO.links s)(link_candidate H e s n :=
               \<lparr>originalUrl = url, LinkData.creator = msg_sender e,
                LinkData.createdAt = block_timestamp e, clicks = 0, LinkData.exists = True\<rparr>),
            userLinks := (userLinks s)(msg_sender e :=
               userLinks s (msg_sender e) @ [link_candidate H e s n])\<rparr>)"
      by (intro createShortLink_first_unused) simp_all
    then show "\<exists>s2. createShortLink H e gas url s = Inr (link_candidate H e s n, s2)
         \<and> transact H (e, gas, CreateShortLink url) s = s2
         \<and> link_codes H [(e, gas, CreateShortLink url)] s = [link_candidate H e s n]
         \<and> linkExists (link_candidate H e s n) s2
         \<and> linkCounter s2 = linkCounter s + of_nat (Suc n)"
      by (simp add: linkExists_def)
  qed
  have c9: "h \<noteq> [] \<and> nm \<noteq> [] \<and> n \<le> gas
        \<and> (\<forall>i<n. mediaExists (media_candidate H e s i) s)
        \<and> \<not> mediaExists (media_candidate H e s n) s \<longrightarrow>
      (\<exists>s2. uploadMedia H e gas h nm ty sz s = Inr (media_candidate H e s n, s2)
         \<and> transact H (e, gas, UploadMedia h nm ty sz) s = s2
         \<and> media_codes H [(e, gas, UploadMedia h nm ty sz)] s = [media_candidate H e s n]
         \<and> mediaExists (media_candidate H e s n) s2
         \<and> mediaCounter s2 = mediaCounter s + of_nat (Suc n))"
  proof
    assume a: "h \<noteq> [] \<and> nm \<noteq> [] \<and> n \<le> gas
        \<and> (\<forall>i<n. mediaExists (media_candidate H e s i) s)
        \<and> \<not> mediaExists (media_candidate H e s n) s"
    then have "uploadMedia H e gas h nm ty sz s = Inr (media_candidate H e s n,
          s\<lparr>mediaCounter := mediaCounter s + of_nat (Suc n),
            LinkIO.media := (LinkIO.media s)(media_candidate H e s n :=
               \<lparr>ipfsHash = h, fileName = nm, fileType = ty, fileSize = sz,
                MediaData.creator = msg_sender e, MediaData.createdAt = block_timestamp e,
                views = 0, MediaData.exists = True\<rparr>),
            userMedia := (userMedia s)(msg_sender e :=
               userMedia s (msg_sender e) @ [media_candidate H e s n])\<rparr>)"
      by (intro uploadMedia_first_unused) simp_all
    then show "\<exists>s2. uploadMedia H e gas h nm ty sz s = Inr (media_candidate H e s n, s2)
         \<and> transact H (e, gas, UploadMedia h nm ty sz) s = s2
         \<and> media_codes H [(e, gas, UploadMedia h nm ty sz)] s = [media_candidate H e s n]
         \<and> mediaExists (media_candidate H e s n) s2
         \<and> mediaCounter s2 = mediaCounter s + of_nat (Suc n)"
      by (simp add: mediaExists_def)
  qed
  have c10: "url \<noteq> [] \<and> length url \<le> 2048
        \<and> (\<forall>i\<le>gas. linkExists (link_candidate H e s i) s) \<longrightarrow>
      createShortLink H e gas url s = Inl OutOfGas"
    using createShortLink_all_taken[of url gas H e s] by blast
  have c11: "h \<noteq> [] \<and> nm \<noteq> []
        \<and> (\<forall>i\<le>gas. mediaExists (media_candidate H e s i) s) \<longrightarrow>
      uploadMedia H e gas h nm ty sz s = Inl OutOfGas"
    using uploadMedia_all_taken[of h nm gas H e s ty sz] by blast
  have c12: "v \<noteq> [] \<and> (\<forall>i<n. links_has (candidate rnd i) d) \<and> \<not> links_has (candidate rnd n) d \<longrightarrow>
      (\<exists>d2. links_insert (candidate rnd n) v (or_anonymous cr) now d = Some d2
         \<and> handle (POST_api_links (Some v) cr, now) (d, rnd) =
             Some (Link (candidate rnd n, v, or_anonymous cr, now, 0), d2, sdrop (6 * Suc n) rnd)
         \<and> links_has (candidate rnd n) d2)"
  proof
    assume a: "v \<noteq> [] \<and> (\<forall>i<n. links_has (candidate rnd i) d) \<and> \<not> links_has (candidate rnd n) d"
    then have "post_api_links (Some v) cr now (d, rnd) =
       Some (Link (candidate rnd n, v, or_anonymous cr, now, 0),
           d\<lparr>links := links d @
                [\<lparr>links_row.rowid = links_seq d + 1, links_row.short_code = candidate rnd n,
                  original_url = v, links_row.creator = or_anonymous cr,
                  links_row.created_at = now, clicks = 0\<rparr>],
              links_seq := links_seq d + 1\<rparr>,
           sdrop (6 * Suc n) rnd)"
      by (intro post_api_links_first_unused) simp_all
    with a show "\<exists>d2. links_insert (candidate rnd n) v (or_anonymous cr) now d = Some d2
         \<and> handle (POST_api_links (Some v) cr, now) (d, rnd) =
             Some (Link (candidate rnd n, v, or_anonymous cr, now, 0), d2, sdrop (6 * Suc n) rnd)
         \<and> links_has (candidate rnd n) d2"
      by (simp add: links_insert_Some links_has_iff)
  qed
  have c13: "fh \<noteq> [] \<and> fn \<noteq> [] \<and> fty \<noteq> [] \<and> fsz \<noteq> 0
        \<and> (\<forall>i<n. media_has (candidate rnd i) d) \<and> \<not> media_has (candidate rnd n) d \<longrightarrow>
      (\<exists>d2. media_insert (candidate rnd n) fh fn fty fsz (or_anonymous cr) now d = Some d2
         \<and> handle (POST_api_media (Some fh) (Some fn) (Some fty) (Some fsz) cr, now) (d, rnd) =
             Some (Media (candidate rnd n, fh, fn, fty, fsz, or_anonymous cr, now, 0), d2,
                   sdrop (6 * Suc n) rnd)
         \<and> media_has (candidate rnd n) d2)"
  proof
    assume a: "fh \<noteq> [] \<and> fn \<noteq> [] \<and> fty \<noteq> [] \<and> fsz \<noteq> 0
        \<and> (\<forall>i<n. media_has (candidate rnd i) d) \<and> \<not> media_has (candidate rnd n) d"
    then have "post_api_media (Some fh) (Some fn) (Some fty) (Some fsz) cr now (d, rnd) =
       Some (Media (candidate rnd n, fh, fn, fty, fsz, or_anonymous cr, now, 0),
           d\<lparr>media := media d @
                [\<lparr>media_row.rowid = media_seq d + 1, media_row.short_code = candidate rnd n,
                  ipfs_hash = fh, file_name = fn, file_type = fty, file_size = fsz,
                  media_row.creator = or_anonymous cr, media_row.created_at = now, views = 0\<rparr>],
              media_seq := media_seq d + 1\<rparr>,
           sdrop (6 * Suc n) rnd)"
      by (intro post_api_media_first_unused) simp_all
    with a show "\<exists>d2. media_insert (candidate rnd n) fh fn fty fsz (or_anonymous cr) now d = Some d2
         \<and> handle (POST_api_media (Some fh) (Some fn) (Some fty) (Some fsz) cr, now) (d, rnd) =
             Some (Media (candidate rnd n, fh, fn, fty, fsz, or_anonymous cr, now, 0), d2,
                   sdrop (6 * Suc n) rnd)
         \<and> media_has (candidate rnd n) d2"
      by (simp add: media_insert_Some media_has_iff)
  qed
  have c1: "distinct (link_codes H ts s)" using link_codes_fresh[of H ts s] by simp
  have c2: "distinct (media_codes H ts s)" using media_codes_fresh[of H ts s] by simp
  show ?thesis
    by (intro conjI c1 c2 c3 c4 c5 c6 c7 c8 c9 c10 c11 c12 c13)
qed

text \<open>
  Two creations in a row whose first candidates collide, of links and of media. In the
  contract the hash gives the same seed for the counters 1 and 2, so the second creation
  retries once and leaves the counter at 3; in the server the random source repeats its
  first six bytes, so the second request draws again.
\<close>

theorem short_codes_distinct_witness:
  "link_codes (\<lambda>ts pr a c. if c = 2 then 1 else c)
      [(\<lparr>block_timestamp = 1, block_prevrandao = 2, msg_sender = 3\<rparr>, 1,
        CreateShortLink ''https://example.com/a''),
       (\<lparr>block_timestamp = 1, block_prevrandao = 2, msg_sender = 3\<rparr>, 1,
        CreateShortLink ''https://example.com/b'')] deployed = [''baaaaa'', ''daaaaa'']
   \<and> distinct [''baaaaa'', ''daaaaa'']
   \<and> media_codes (\<lambda>ts pr a c. if c = 2 then 1 else c)
      [(\<lparr>block_timestamp = 1, block_prevrandao = 2, msg_sender = 3\<rparr>, 1,
        UploadMedia ''QmA'' ''a.png'' ''image/png'' 10),
       (\<lparr>block_timestamp = 1, block_prevrandao = 2, msg_sender = 3\<rparr>, 1,
        UploadMedia ''QmB'' ''b.png'' ''image/png'' 20)] deployed = [''baaaaa'', ''daaaaa'']
   \<and> (\<exists>s1 s2.
        uploadMedia (\<lambda>ts pr a c. if c = 2 then 1 else c)
          \<lparr>block_timestamp = 1, block_prevrandao = 2, msg_sender = 3\<rparr> 1
          ''QmA'' ''a.png'' ''image/png'' 10 deployed = Inr (''baaaaa'', s1)
        \<and> uploadMedia (\<lambda>ts pr a c. if c = 2 then 1 else c)
          \<lparr>block_timestamp = 1, block_prevrandao = 2, msg_sender = 3\<rparr> 1
          ''QmB'' ''b.png'' ''image/png'' 20 s1 = Inr (''daaaaa'', s2)
        \<and> mediaCounter s2 = 3)
   \<and> (\<exists>rs d' rnd'.
        serve [(POST_api_links (Some ''https://example.com/a'') None, 1),
               (POST_api_links (Some ''https://example.com/b'') None, 2)]
          (empty_db, 0 ## 0 ## 0 ## 0 ## 0 ## 0 ## 0 ## 0 ## 0 ## 0 ## 0 ## 0
                     ## 1 ## 1 ## 1 ## 1 ## 1 ## 1 ## sconst 0) = Some (rs, d', rnd')
        \<and> posted_link_codes
            [(POST_api_links (Some ''https://example.com/a'') None, 1),
             (POST_api_links (Some ''https://example.com/b'') None, 2)] rs = [''aaaaaa'', ''bbbbbb'']
        \<and> distinct (posted_link_codes
            [(POST_api_links (Some ''https://example.com/a'') None, 1),
             (POST_api_links (Some ''https://example.com/b'') None, 2)] rs))
   \<and> (\<exists>d1 rnd1 d2 rnd2.
        handle (POST_api_media (Some ''QmA'') (Some ''a.png'') (Some ''image/png'') (Some 10) None, 1)
          (empty_db, 0 ## 0 ## 0 ## 0 ## 0 ## 0 ## 0 ## 0 ## 0 ## 0 ## 0 ## 0
                     ## 1 ## 1 ## 1 ## 1 ## 1 ## 1 ## sconst 0) =
          Some (Media (''aaaaaa'', ''QmA'', ''a.png'', ''image/png'', 10, ''anonymous'', 1, 0), d1, rnd1)
        \<and> handle (POST_api_media (Some ''QmB'') (Some ''b.png'') (Some ''image/png'') (Some 20) None, 2)
          (d1, rnd1) =
          Some (Media (''bbbbbb'', ''QmB'', ''b.png'', ''image/png'', 20, ''anonymous'', 2, 0), d2, rnd2)
        \<and> map media_row.short_code (media d2) = [''aaaaaa'', ''bbbbbb''])"
proof -
  let ?H = "\<lambda>(ts :: uint256) (pr :: uint256) (a :: address) (c :: uint256). if c = 2 then 1 else c"
  let ?e = "\<lparr>block_timestamp = 1, block_prevrandao = 2, msg_sender = 3\<rparr>"
  let ?ts = "[(?e, 1 :: nat, CreateShortLink ''https://example.com/a''),
              (?e, 1, CreateShortLink ''https://example.com/b'')]"
  let ?us = "[(?e, 1 :: nat, UploadMedia ''QmA'' ''a.png'' ''image/png'' 10),
              (?e, 1, UploadMedia ''QmB'' ''b.png'' ''image/png'' 20)]"
  let ?qs = "[(POST_api_links (Some ''https://example.com/a'') None, 1 :: nat),
              (POST_api_links (Some ''https://example.com/b'') None, 2)]"
  let ?rnd = "0 ## 0 ## 0 ## 0 ## 0 ## 0 ## 0 ## 0 ## 0 ## 0 ## 0 ## 0
                     ## 1 ## 1 ## 1 ## 1 ## 1 ## 1 ## sconst (0 :: byte)"
  have a: "chars ! 0 = CHR ''a''" and b: "chars ! 1 = CHR ''b''" by (simp_all add: chars_def)
  have A: "link_codes ?H ?ts deployed = [''baaaaa'', ''daaaaa'']"
    by (simp add: createShortLink_def contract_generateShortCode_def Let_def deployed_def
        code_of_1 code_of_3 numeral_2_eq_2)
  from short_codes_distinct[of ?H ?ts deployed] A
  have B: "distinct [''baaaaa'', ''daaaaa'']" by metis
  have A2: "media_codes ?H ?us deployed = [''baaaaa'', ''daaaaa'']"
    by (simp add: uploadMedia_def contract_generateShortCode_def Let_def deployed_def
        code_of_1 code_of_3 numeral_2_eq_2)
  have m0: "media_candidate ?H ?e deployed 0 = ''baaaaa''"
    by (simp add: media_candidate_def contract_generateShortCode_def Let_def deployed_def code_of_1)
  have hy0: "''QmA'' \<noteq> [] \<and> ''a.png'' \<noteq> [] \<and> (0 :: nat) \<le> 1
        \<and> (\<forall>i<0. mediaExists (media_candidate ?H ?e deployed i) deployed)
        \<and> \<not> mediaExists (media_candidate ?H ?e deployed 0) deployed"
    by (simp add: mediaExists_def deployed_nothing_exists)
  from short_codes_distinct[where H = ?H and e = ?e and s = deployed and n = 0 and gas = 1
      and h = "''QmA''" and nm = "''a.png''" and ty = "''image/png''" and sz = 10,
      THEN conjunct2, THEN conjunct2, THEN conjunct2, THEN conjunct2, THEN conjunct2,
      THEN conjunct2, THEN conjunct2, THEN conjunct2, THEN conjunct1, THEN mp, OF hy0]
  obtain s1 where s1': "uploadMedia ?H ?e 1 ''QmA'' ''a.png'' ''image/png'' 10 deployed =
      Inr (media_candidate ?H ?e deployed 0, s1)"
      "mediaExists (media_candidate ?H ?e deployed 0) s1"
      "mediaCounter s1 = mediaCounter deployed + of_nat (Suc 0)"
    by blast
  have s1: "uploadMedia ?H ?e 1 ''QmA'' ''a.png'' ''image/png'' 10 deployed =
      Inr (''baaaaa'', s1)" "mediaExists ''baaaaa'' s1" "mediaCounter s1 = 1"
    using s1' by (simp_all only: m0) (simp add: deployed_def)
  from uploadMedia_Inr(4)[OF s1(1)]
  have r1: "\<not> MediaData.exists (LinkIO.media s1 ''daaaaa'')"
    by (simp add: deployed_nothing_exists)
  have m1: "media_candidate ?H ?e s1 0 = ''baaaaa''" "media_candidate ?H ?e s1 1 = ''daaaaa''"
    by (simp_all add: media_candidate_def contract_generateShortCode_def Let_def s1(3)
        code_of_1 code_of_3)
  have hy1: "''QmB'' \<noteq> [] \<and> ''b.png'' \<noteq> [] \<and> (1 :: nat) \<le> 1
        \<and> (\<forall>i<1. mediaExists (media_candidate ?H ?e s1 i) s1)
        \<and> \<not> mediaExists (media_candidate ?H ?e s1 1) s1"
    using s1(2) r1 by (simp add: m1 mediaExists_def del: One_nat_def)
  from short_codes_distinct[where H = ?H and e = ?e and s = s1 and n = 1 and gas = 1
      and h = "''QmB''" and nm = "''b.png''" and ty = "''image/png''" and sz = 20,
      THEN conjunct2, THEN conjunct2, THEN conjunct2, THEN conjunct2, THEN conjunct2,
      THEN conjunct2, THEN conjunct2, THEN conjunct2, THEN conjunct1, THEN mp, OF hy1]
  obtain s2 where s2': "uploadMedia ?H ?e 1 ''QmB'' ''b.png'' ''image/png'' 20 s1 =
      Inr (media_candidate ?H ?e s1 1, s2)"
      "mediaCounter s2 = mediaCounter s1 + of_nat (Suc 1)"
    by blast
  have s2: "uploadMedia ?H ?e 1 ''QmB'' ''b.png'' ''image/png'' 20 s1 =
      Inr (''daaaaa'', s2)" "mediaCounter s2 = 3"
    using s2' by (simp_all only: m1 s1(3)) simp
  from s1(1) s2 have A3: "\<exists>s1 s2.
        uploadMedia ?H ?e 1 ''QmA'' ''a.png'' ''image/png'' 10 deployed = Inr (''baaaaa'', s1)
        \<and> uploadMedia ?H ?e 1 ''QmB'' ''b.png'' ''image/png'' 20 s1 = Inr (''daaaaa'', s2)
        \<and> mediaCounter s2 = 3"
    by blast
  let ?r1 = "\<lparr>links_row.rowid = 1, links_row.short_code = ''aaaaaa'',
                 original_url = ''https://example.com/a'', links_row.creator = ''anonymous'',
                 links_row.created_at = 1, clicks = 0\<rparr>"
  let ?r2 = "\<lparr>links_row.rowid = 2, links_row.short_code = ''bbbbbb'',
                 original_url = ''https://example.com/b'', links_row.creator = ''anonymous'',
                 links_row.created_at = 2, clicks = 0\<rparr>"
  let ?d1 = "\<lparr>links = [?r1], links_seq = 1, media = [], media_seq = 0\<rparr>"
  let ?d2 = "\<lparr>links = [?r1, ?r2], links_seq = 2, media = [], media_seq = 0\<rparr>"
  let ?rnd1 = "0 ## 0 ## 0 ## 0 ## 0 ## 0 ## 1 ## 1 ## 1 ## 1 ## 1 ## 1 ## sconst (0 :: byte)"
  have P1: "post_api_links (Some ''https://example.com/a'') None 1 (empty_db, ?rnd) =
      Some (Link (''aaaaaa'', ''https://example.com/a'', ''anonymous'', 1, 0), ?d1, ?rnd1)"
    by (simp add: post_api_links_valid gsc_shift a while_taken_first
        links_has_def empty_db_def or_anonymous_def)
  have t: "links_has ''aaaaaa'' ?d1" "\<not> links_has ''bbbbbb'' ?d1"
    by (simp_all add: links_has_def)
  have W: "while_taken (\<lambda>c. links_has c ?d1) ''aaaaaa'' (1 ## 1 ## 1 ## 1 ## 1 ## 1 ## sconst 0) =
      Some (''bbbbbb'', sconst 0)"
    by (subst while_taken.simps, simp add: t gsc_shift b del: One_nat_def,
        subst while_taken.simps, simp add: t del: One_nat_def)
  have P2: "post_api_links (Some ''https://example.com/b'') None 2 (?d1, ?rnd1) =
      Some (Link (''bbbbbb'', ''https://example.com/b'', ''anonymous'', 2, 0), ?d2, sconst 0)"
    by (simp add: post_api_links_valid gsc_shift a W or_anonymous_def del: One_nat_def)
  have S: "serve ?qs (empty_db, ?rnd) =
      Some ([Link (''aaaaaa'', ''https://example.com/a'', ''anonymous'', 1, 0),
             Link (''bbbbbb'', ''https://example.com/b'', ''anonymous'', 2, 0)], ?d2, sconst 0)"
    by (simp add: P1 P2 del: One_nat_def)
  have D: "\<forall>q\<in>set ?qs. \<not> is_delete (fst q)" by simp
  from short_codes_distinct[where qs = ?qs and d = empty_db and rnd = ?rnd,
      THEN conjunct2, THEN conjunct2, THEN conjunct2, THEN conjunct2, THEN conjunct1] S D
  have "distinct (posted_link_codes ?qs
      [Link (''aaaaaa'', ''https://example.com/a'', ''anonymous'', 1, 0),
       Link (''bbbbbb'', ''https://example.com/b'', ''anonymous'', 2, 0)])"
    by blast
  with S have C: "\<exists>rs d' rnd'. serve ?qs (empty_db, ?rnd) = Some (rs, d', rnd')
        \<and> posted_link_codes ?qs rs = [''aaaaaa'', ''bbbbbb'']
        \<and> distinct (posted_link_codes ?qs rs)"
    by simp
  have k0: "candidate ?rnd 0 = ''aaaaaa''"
    by (simp add: candidate_def gsc_shift a)
  have e0: "''QmA'' \<noteq> [] \<and> ''a.png'' \<noteq> [] \<and> ''image/png'' \<noteq> [] \<and> (10 :: nat) \<noteq> 0
        \<and> (\<forall>i<0. media_has (candidate ?rnd i) empty_db)
        \<and> \<not> media_has (candidate ?rnd 0) empty_db"
    by (simp add: empty_db_has_nothing)
  from short_codes_distinct[where d = empty_db and rnd = ?rnd and n = 0
      and fh = "''QmA''" and fn = "''a.png''" and fty = "''image/png''" and fsz = 10
      and cr = None and now = 1,
      THEN conjunct2, THEN conjunct2, THEN conjunct2, THEN conjunct2, THEN conjunct2,
      THEN conjunct2, THEN conjunct2, THEN conjunct2, THEN conjunct2, THEN conjunct2,
      THEN conjunct2, THEN conjunct2, THEN mp, OF e0]
  obtain m1 where m1': "media_insert (candidate ?rnd 0) ''QmA'' ''a.png'' ''image/png'' 10
         (or_anonymous None) 1 empty_db = Some m1"
    "handle (POST_api_media (Some ''QmA'') (Some ''a.png'') (Some ''image/png'') (Some 10) None, 1)
       (empty_db, ?rnd) =
     Some (Media (candidate ?rnd 0, ''QmA'', ''a.png'', ''image/png'', 10, or_anonymous None, 1, 0),
           m1, sdrop (6 * Suc 0) ?rnd)"
    by blast
  have oa: "or_anonymous None = ''anonymous''" by (simp add: or_anonymous_def)
  have m1: "media_insert ''aaaaaa'' ''QmA'' ''a.png'' ''image/png'' 10 ''anonymous'' 1 empty_db
        = Some m1"
    "handle (POST_api_media (Some ''QmA'') (Some ''a.png'') (Some ''image/png'') (Some 10) None, 1)
       (empty_db, ?rnd) =
     Some (Media (''aaaaaa'', ''QmA'', ''a.png'', ''image/png'', 10, ''anonymous'', 1, 0), m1,
           sdrop (6 * Suc 0) ?rnd)"
    using m1' by (simp_all only: k0 oa)
  have sd: "sdrop (6 * Suc 0) ?rnd = ?rnd1"
    by (simp add: stake_sdrop_6 del: One_nat_def)
  from m1(1) have cm1: "map media_row.short_code (media m1) = [''aaaaaa'']"
    by (auto simp: media_insert_def empty_db_def split: if_splits)
  have k1: "candidate ?rnd1 0 = ''aaaaaa''" "candidate ?rnd1 1 = ''bbbbbb''"
    by (simp_all add: candidate_def stake_sdrop_6 gsc_shift a b del: One_nat_def)
  have h1: "''QmB'' \<noteq> [] \<and> ''b.png'' \<noteq> [] \<and> ''image/png'' \<noteq> [] \<and> (20 :: nat) \<noteq> 0
        \<and> (\<forall>i<1. media_has (candidate ?rnd1 i) m1)
        \<and> \<not> media_has (candidate ?rnd1 1) m1"
    using cm1 by (simp add: k1 media_has_iff del: One_nat_def)
  from short_codes_distinct[where d = m1 and rnd = ?rnd1 and n = 1
      and fh = "''QmB''" and fn = "''b.png''" and fty = "''image/png''" and fsz = 20
      and cr = None and now = 2,
      THEN conjunct2, THEN conjunct2, THEN conjunct2, THEN conjunct2, THEN conjunct2,
      THEN conjunct2, THEN conjunct2, THEN conjunct2, THEN conjunct2, THEN conjunct2,
      THEN conjunct2, THEN conjunct2, THEN mp, OF h1]
  obtain m2 where m2': "media_insert (candidate ?rnd1 1) ''QmB'' ''b.png'' ''image/png'' 20
         (or_anonymous None) 2 m1 = Some m2"
    "handle (POST_api_media (Some ''QmB'') (Some ''b.png'') (Some ''image/png'') (Some 20) None, 2)
       (m1, ?rnd1) =
     Some (Media (candidate ?rnd1 1, ''QmB'', ''b.png'', ''image/png'', 20, or_anonymous None, 2, 0),
           m2, sdrop (6 * Suc 1) ?rnd1)"
    by blast
  have m2: "media_insert ''bbbbbb'' ''QmB'' ''b.png'' ''image/png'' 20 ''anonymous'' 2 m1
        = Some m2"
    "handle (POST_api_media (Some ''QmB'') (Some ''b.png'') (Some ''image/png'') (Some 20) None, 2)
       (m1, ?rnd1) =
     Some (Media (''bbbbbb'', ''QmB'', ''b.png'', ''image/png'', 20, ''anonymous'', 2, 0), m2,
           sdrop (6 * Suc 1) ?rnd1)"
    using m2' by (simp_all only: k1 oa)
  from m2(1) cm1 have cm2: "map media_row.short_code (media m2) = [''aaaaaa'', ''bbbbbb'']"
    by (auto simp: media_insert_def split: if_splits)
  from m1(2) have m1h:
    "handle (POST_api_media (Some ''QmA'') (Some ''a.png'') (Some ''image/png'') (Some 10) None, 1)
       (empty_db, ?rnd) =
     Some (Media (''aaaaaa'', ''QmA'', ''a.png'', ''image/png'', 10, ''anonymous'', 1, 0), m1, ?rnd1)"
    by (simp only: sd)
  have E: "\<exists>d1 rnd1 d2 rnd2.
        handle (POST_api_media (Some ''QmA'') (Some ''a.png'') (Some ''image/png'') (Some 10) None, 1)
          (empty_db, ?rnd) =
          Some (Media (''aaaaaa'', ''QmA'', ''a.png'', ''image/png'', 10, ''anonymous'', 1, 0), d1, rnd1)
        \<and> handle (POST_api_media (Some ''QmB'') (Some ''b.png'') (Some ''image/png'') (Some 20) None, 2)
          (d1, rnd1) =
          Some (Media (''bbbbbb'', ''QmB'', ''b.png'', ''image/png'', 20, ''anonymous'', 2, 0), d2, rnd2)
        \<and> map media_row.short_code (media d2) = [''aaaaaa'', ''bbbbbb'']"
    by (rule exI[of _ m1], rule exI[of _ ?rnd1], rule exI[of _ m2],
        rule exI[of _ "sdrop (6 * Suc 1) ?rnd1"], intro conjI m1h m2(2) cm2)
  from A B A2 A3 C E show ?thesis by blast
qed

section \<open>The access counters\<close>

subsection \<open>The contract\<close>










subsection \<open>Looking rows up by their id\<close>





subsection \<open>The ids stay distinct\<close>











subsection \<open>The counters of the server, request by request\<close>










lemma link_clicks_frame [simp]:
  "link_clicks (media_view c d) i = link_clicks d i"
  "link_clicks (snd (media_delete c d)) i = link_clicks d i"
  "link_clicks (d\<lparr>media := M, media_seq := n\<rparr>) i = link_clicks d i"
  by (simp_all add: link_clicks_def media_view_def media_delete_def)

lemma media_views_frame [simp]:
  "media_views (links_click c d) i = media_views d i"
  "media_views (snd (links_delete c d)) i = media_views d i"
  "media_views (d\<lparr>links := L, links_seq := n\<rparr>) i = media_views d i"
  by (simp_all add: media_views_def links_click_def links_delete_def)

lemma seq_frame [simp]:
  "links_seq (snd (links_delete c d)) = links_seq d"
  "links_seq (snd (media_delete c d)) = links_seq d"
  "media_seq (snd (links_delete c d)) = media_seq d"
  "media_seq (snd (media_delete c d)) = media_seq d"
  by (simp_all add: links_delete_def media_delete_def)



subsection \<open>The counters of the server over a run\<close>





lemma post_api_links_empty_zero:
  "url \<noteq> [] \<Longrightarrow>
   post_api_links (Some url) cr now (empty_db, sconst 0) =
     Some (Link (''aaaaaa'', url, or_anonymous cr, now, 0),
           \<lparr>links = [\<lparr>links_row.rowid = 1, links_row.short_code = ''aaaaaa'',
                        original_url = url, links_row.creator = or_anonymous cr,
                        links_row.created_at = now, clicks = 0\<rparr>],
             links_seq = 1, media = [], media_seq = 0\<rparr>, sconst 0)"
  by (simp add: post_api_links_valid generateShortCode_zero while_taken_first
      empty_db_has_nothing) (simp add: empty_db_def)















section \<open>The totals\<close>

subsection \<open>The contract's counters\<close>

lemma transact_linkCounter_other:
  assumes "\<forall>url. call \<noteq> CreateShortLink url"
  shows "linkCounter (transact H (e, gas, call) s) = linkCounter s"
proof (cases call)
  case (UploadMedia h n ty sz)
  then show ?thesis by (auto split: sum.splits dest!: uploadMedia_Inr(8))
next
  case (GetLink c)
  then show ?thesis by (auto split: sum.splits dest!: getLink_Inr(3))
next
  case (GetMedia c)
  then show ?thesis by (auto split: sum.splits dest!: getMedia_Inr(3))
qed (use assms in simp_all)

lemma transact_mediaCounter_other:
  assumes "\<forall>h n ty sz. call \<noteq> UploadMedia h n ty sz"
  shows "mediaCounter (transact H (e, gas, call) s) = mediaCounter s"
proof (cases call)
  case (CreateShortLink url)
  then show ?thesis by (auto split: sum.splits dest!: createShortLink_Inr(8))
next
  case (GetLink c)
  then show ?thesis by (auto split: sum.splits dest!: getLink_Inr(3))
next
  case (GetMedia c)
  then show ?thesis by (auto split: sum.splits dest!: getMedia_Inr(3))
qed (use assms in simp_all)

subsection \<open>The server's row counts\<close>

lemma length_links_click [simp]: "length (links (links_click c d)) = length (links d)"
  by (simp add: links_click_def)

lemma length_media_view [simp]: "length (media (media_view c d)) = length (media d)"
  by (simp add: media_view_def)

lemma posted_link_codes_Cons:
  "posted_link_codes (q # qs) (r # rs) = posted_link_codes [q] [r] @ posted_link_codes qs rs"
proof -
  obtain q' now where q: "q = (q', now)" by (cases q)
  show ?thesis using q by (cases q'; cases r) simp_all
qed

lemma posted_media_codes_Cons:
  "posted_media_codes (q # qs) (r # rs) = posted_media_codes [q] [r] @ posted_media_codes qs rs"
proof -
  obtain q' now where q: "q = (q', now)" by (cases q)
  show ?thesis using q by (cases q'; cases r) simp_all
qed

lemma handle_lengths:
  assumes "handle q (d, rnd) = Some (r, d', rnd')" "\<not> is_delete (fst q)"
  shows "length (links d') = length (links d) + length (posted_link_codes [q] [r])
       \<and> length (media d') = length (media d) + length (posted_media_codes [q] [r])"
proof -
  obtain q' now where q: "q = (q', now)" by (cases q)
  show ?thesis
  proof (cases q')
    case (POST_api_links u cr)
    with assms(1) q have "post_api_links u cr now (d, rnd) = Some (r, d', rnd')" by simp
    from post_api_links_Some[OF this] show ?thesis
      using q POST_api_links by (elim disjE exE conjE) simp_all
  next
    case (POST_api_media bh bn bty bsz cr)
    with assms(1) q have "post_api_media bh bn bty bsz cr now (d, rnd) = Some (r, d', rnd')" by simp
    from post_api_media_Some[OF this] show ?thesis
      using q POST_api_media by (elim disjE exE conjE) simp_all
  next
    case (GET_api_links c)
    with assms q show ?thesis by (auto simp: get_api_links_def split: option.splits)
  next
    case (GET_api_media c)
    with assms q show ?thesis by (auto simp: get_api_media_def split: option.splits)
  next
    case (GET_api_links_redirect c)
    with assms q show ?thesis by (auto simp: get_api_links_redirect_def split: option.splits)
  next
    case (GET_api_media_view c)
    with assms q show ?thesis by (auto simp: get_api_media_view_def split: option.splits)
  next
    case (GET_api_users_links w)
    with assms q show ?thesis by (auto simp: get_api_users_links_def)
  next
    case (GET_api_users_media w)
    with assms q show ?thesis by (auto simp: get_api_users_media_def)
  next
    case GET_api_stats
    with assms q show ?thesis by (auto simp: get_api_stats_def)
  next
    case GET_api_health
    with assms q show ?thesis by auto
  next
    case GET_api_admin_links
    with assms q show ?thesis by (auto simp: get_api_admin_links_def)
  next
    case GET_api_admin_media
    with assms q show ?thesis by (auto simp: get_api_admin_media_def)
  qed (use assms q in simp_all)
qed

lemma serve_lengths:
  "serve qs (d, rnd) = Some (rs, d', rnd') \<Longrightarrow> \<forall>q\<in>set qs. \<not> is_delete (fst q) \<Longrightarrow>
   length (links d') = length (links d) + length (posted_link_codes qs rs)
   \<and> length (media d') = length (media d) + length (posted_media_codes qs rs)"
proof (induction qs arbitrary: d rnd rs)
  case Nil
  then show ?case by simp
next
  case (Cons q qs)
  from Cons.prems(1) obtain r d1 rnd1 rs' where
    h: "handle q (d, rnd) = Some (r, d1, rnd1)" and
    s: "serve qs (d1, rnd1) = Some (rs', d', rnd')" and rs: "rs = r # rs'"
    using serve_Cons_Some by blast
  from Cons.prems(2) have nd: "\<not> is_delete (fst q)" "\<forall>q\<in>set qs. \<not> is_delete (fst q)" by simp_all
  from handle_lengths[OF h nd(1)] Cons.IH[OF s nd(2)] rs
    posted_link_codes_Cons[of q qs r rs'] posted_media_codes_Cons[of q qs r rs']
  show ?case by simp
qed

lemma delete_links_length:
  "links_has c d \<Longrightarrow>
   length (links (snd (delete_api_admin_links c d))) < length (links d)
   \<and> fst (delete_api_admin_links c d) = Message ''Link deleted''"
proof -
  assume "links_has c d"
  then obtain x where x: "x \<in> set (links d)" "links_row.short_code x = c"
    by (auto simp: links_has_iff)
  then have a: "length (filter (\<lambda>r. links_row.short_code r \<noteq> c) (links d)) < length (links d)"
    by (intro length_filter_less[of x]) auto
  from x have "filter (\<lambda>r. links_row.short_code r = c) (links d) \<noteq> []"
    by (auto simp: filter_empty_conv)
  with a show ?thesis
    by (simp add: delete_api_admin_links_def links_delete_def)
qed

lemma delete_media_length:
  "media_has c d \<Longrightarrow>
   length (media (snd (delete_api_admin_media c d))) < length (media d)
   \<and> fst (delete_api_admin_media c d) = Message ''Media deleted''"
proof -
  assume "media_has c d"
  then obtain x where x: "x \<in> set (media d)" "media_row.short_code x = c"
    by (auto simp: media_has_iff)
  then have a: "length (filter (\<lambda>r. media_row.short_code r \<noteq> c) (media d)) < length (media d)"
    by (intro length_filter_less[of x]) auto
  from x have "filter (\<lambda>r. media_row.short_code r = c) (media d) \<noteq> []"
    by (auto simp: filter_empty_conv)
  with a show ?thesis
    by (simp add: delete_api_admin_media_def media_delete_def)
qed

subsection \<open>The contract's counters never go back\<close>

lemma unat_add_of_nat:
  assumes "unat (x :: uint256) + k < 2 ^ 256"
  shows "unat (x + of_nat k) = unat x + k"
proof -
  have "x + of_nat k = word_of_nat (unat x + k)" by simp
  then have "unat (x + of_nat k) = (unat x + k) mod 2 ^ 256"
    by (simp only: unat_of_nat) simp
  with assms show ?thesis by simp
qed

lemma links_unique_counter:
  "links_unique gas H e c s = Inr (c', s') \<Longrightarrow> \<exists>k\<le>gas. linkCounter s' = linkCounter s + of_nat k"
proof (induction gas arbitrary: c s)
  case 0
  then show ?case by (auto split: if_splits)
next
  case (Suc gas)
  show ?case
  proof (cases "LinkData.exists (LinkIO.links s c)")
    case True
    with Suc.prems have "links_unique gas H e (fst (contract_generateShortCode H e LINK s))
        (snd (contract_generateShortCode H e LINK s)) = Inr (c', s')" by simp
    from Suc.IH[OF this] obtain k where "k \<le> gas" "linkCounter s' = linkCounter s + 1 + of_nat k"
      by (auto simp: gen_counters)
    then have "Suc k \<le> Suc gas" "linkCounter s' = linkCounter s + of_nat (Suc k)"
      by (simp_all add: add.assoc)
    then show ?thesis by blast
  next
    case False
    with Suc.prems have "linkCounter s' = linkCounter s + of_nat 0" by auto
    then show ?thesis by blast
  qed
qed

lemma media_unique_counter:
  "media_unique gas H e c s = Inr (c', s') \<Longrightarrow> \<exists>k\<le>gas. mediaCounter s' = mediaCounter s + of_nat k"
proof (induction gas arbitrary: c s)
  case 0
  then show ?case by (auto split: if_splits)
next
  case (Suc gas)
  show ?case
  proof (cases "MediaData.exists (LinkIO.media s c)")
    case True
    with Suc.prems have "media_unique gas H e (fst (contract_generateShortCode H e MEDIA s))
        (snd (contract_generateShortCode H e MEDIA s)) = Inr (c', s')" by simp
    from Suc.IH[OF this] obtain k where "k \<le> gas" "mediaCounter s' = mediaCounter s + 1 + of_nat k"
      by (auto simp: gen_counters)
    then have "Suc k \<le> Suc gas" "mediaCounter s' = mediaCounter s + of_nat (Suc k)"
      by (simp_all add: add.assoc)
    then show ?thesis by blast
  next
    case False
    with Suc.prems have "mediaCounter s' = mediaCounter s + of_nat 0" by auto
    then show ?thesis by blast
  qed
qed

lemma createShortLink_counter_mono:
  assumes "createShortLink H e gas url s = Inr (c, s')" "unat (linkCounter s) + gas + 1 < 2 ^ 256"
  shows "unat (linkCounter s) < unat (linkCounter s')"
proof -
  let ?g = "contract_generateShortCode H e LINK s"
  from assms(1) obtain s1 where s1: "links_unique gas H e (fst ?g) (snd ?g) = Inr (c, s1)"
    and s': "linkCounter s' = linkCounter s1"
    by (auto simp: createShortLink_def split: sum.splits if_splits)
  from links_unique_counter[OF s1] obtain k where k: "k \<le> gas"
    "linkCounter s1 = linkCounter s + of_nat (Suc k)"
    by (auto simp: gen_counters add.assoc)
  from assms(2) k(1) have "unat (linkCounter s) + Suc k < 2 ^ 256" by simp
  from unat_add_of_nat[OF this] k(2) s' show ?thesis by simp
qed

lemma uploadMedia_counter_mono:
  assumes "uploadMedia H e gas h n ty sz s = Inr (c, s')" "unat (mediaCounter s) + gas + 1 < 2 ^ 256"
  shows "unat (mediaCounter s) < unat (mediaCounter s')"
proof -
  let ?g = "contract_generateShortCode H e MEDIA s"
  from assms(1) obtain s1 where s1: "media_unique gas H e (fst ?g) (snd ?g) = Inr (c, s1)"
    and s': "mediaCounter s' = mediaCounter s1"
    by (auto simp: uploadMedia_def split: sum.splits if_splits)
  from media_unique_counter[OF s1] obtain k where k: "k \<le> gas"
    "mediaCounter s1 = mediaCounter s + of_nat (Suc k)"
    by (auto simp: gen_counters add.assoc)
  from assms(2) k(1) have "unat (mediaCounter s) + Suc k < 2 ^ 256" by simp
  from unat_add_of_nat[OF this] k(2) s' show ?thesis by simp
qed

lemma transact_totals_mono:
  assumes "unat (linkCounter s) + gas + 1 < 2 ^ 256" "unat (mediaCounter s) + gas + 1 < 2 ^ 256"
  shows "unat (getTotalLinks s) \<le> unat (getTotalLinks (transact H (e, gas, call) s))
       \<and> unat (getTotalMedia s) \<le> unat (getTotalMedia (transact H (e, gas, call) s))"
proof (cases call)
  case (CreateShortLink url)
  show ?thesis
  proof (cases "createShortLink H e gas url s")
    case (Inl r)
    with CreateShortLink show ?thesis by simp
  next
    case (Inr y)
    obtain c s' where y: "y = (c, s')" by (cases y)
    from createShortLink_counter_mono[OF Inr[unfolded y] assms(1)]
      createShortLink_Inr(8)[OF Inr[unfolded y]] CreateShortLink Inr y
    show ?thesis by (simp add: getTotalLinks_def getTotalMedia_def)
  qed
next
  case (UploadMedia h n ty sz)
  show ?thesis
  proof (cases "uploadMedia H e gas h n ty sz s")
    case (Inl r)
    with UploadMedia show ?thesis by simp
  next
    case (Inr y)
    obtain c s' where y: "y = (c, s')" by (cases y)
    from uploadMedia_counter_mono[OF Inr[unfolded y] assms(2)]
      uploadMedia_Inr(8)[OF Inr[unfolded y]] UploadMedia Inr y
    show ?thesis by (simp add: getTotalLinks_def getTotalMedia_def)
  qed
next
  case (GetLink c)
  then show ?thesis
    by (auto simp: getTotalLinks_def getTotalMedia_def split: sum.splits dest!: getLink_Inr(3))
next
  case (GetMedia c)
  then show ?thesis
    by (auto simp: getTotalLinks_def getTotalMedia_def split: sum.splits dest!: getMedia_Inr(3))
qed simp_all

text \<open>
  C4, as amended. In the server, \<open>totalLinks\<close> and \<open>totalMedia\<close> are the numbers of
  rows that the tables hold now: over a run of requests without administrative deletion
  they grow by exactly the number of records that the run creates, and the deletion of
  an existing code makes the total of its table smaller. In the contract,
  \<open>getTotalLinks\<close> and \<open>getTotalMedia\<close> never decrease (as long as the counter is
  not about to wrap around at \<open>2^256\<close>), no call other than a successful creation in
  the namespace changes them, and a successful creation whose first candidate code is
  unused adds exactly one.
\<close>

theorem totals:
  "get_api_stats d = Stats (length (links d)) (length (media d))
   \<and> (serve qs (d, rnd) = Some (rs, d', rnd') \<and> (\<forall>q\<in>set qs. \<not> is_delete (fst q)) \<longrightarrow>
        length (links d') = length (links d) + length (posted_link_codes qs rs)
        \<and> length (media d') = length (media d) + length (posted_media_codes qs rs))
   \<and> (links_has c d \<longrightarrow>
        length (links (snd (delete_api_admin_links c d))) < length (links d))
   \<and> (media_has c d \<longrightarrow>
        length (media (snd (delete_api_admin_media c d))) < length (media d))
   \<and> (unat (linkCounter s) + gas + 1 < 2 ^ 256 \<and> unat (mediaCounter s) + gas + 1 < 2 ^ 256 \<longrightarrow>
        unat (getTotalLinks s) \<le> unat (getTotalLinks (transact H (e, gas, call) s))
        \<and> unat (getTotalMedia s) \<le> unat (getTotalMedia (transact H (e, gas, call) s)))
   \<and> ((\<forall>url. call \<noteq> CreateShortLink url) \<longrightarrow>
        getTotalLinks (transact H (e, gas, call) s) = getTotalLinks s)
   \<and> ((\<forall>h n ty sz. call \<noteq> UploadMedia h n ty sz) \<longrightarrow>
        getTotalMedia (transact H (e, gas, call) s) = getTotalMedia s)
   \<and> (createShortLink H e gas url s = Inl r \<longrightarrow>
        transact H (e, gas, CreateShortLink url) s = s)
   \<and> (uploadMedia H e gas h n ty sz s = Inl r \<longrightarrow>
        transact H (e, gas, UploadMedia h n ty sz) s = s)
   \<and> (url \<noteq> [] \<and> length url \<le> 2048 \<and> \<not> linkExists (link_candidate H e s 0) s \<longrightarrow>
        getTotalLinks (transact H (e, gas, CreateShortLink url) s) = getTotalLinks s + 1)
   \<and> (h \<noteq> [] \<and> n \<noteq> [] \<and> \<not> mediaExists (media_candidate H e s 0) s \<longrightarrow>
        getTotalMedia (transact H (e, gas, UploadMedia h n ty sz) s) = getTotalMedia s + 1)"
proof -
  have c1: "get_api_stats d = Stats (length (links d)) (length (media d))"
    by (simp add: get_api_stats_def)
  have c2: "serve qs (d, rnd) = Some (rs, d', rnd') \<and> (\<forall>q\<in>set qs. \<not> is_delete (fst q)) \<longrightarrow>
        length (links d') = length (links d) + length (posted_link_codes qs rs)
        \<and> length (media d') = length (media d) + length (posted_media_codes qs rs)"
    using serve_lengths by blast
  have c3: "links_has c d \<longrightarrow>
        length (links (snd (delete_api_admin_links c d))) < length (links d)"
    using delete_links_length by blast
  have c4: "media_has c d \<longrightarrow>
        length (media (snd (delete_api_admin_media c d))) < length (media d)"
    using delete_media_length by blast
  have c5: "unat (linkCounter s) + gas + 1 < 2 ^ 256 \<and> unat (mediaCounter s) + gas + 1 < 2 ^ 256 \<longrightarrow>
        unat (getTotalLinks s) \<le> unat (getTotalLinks (transact H (e, gas, call) s))
        \<and> unat (getTotalMedia s) \<le> unat (getTotalMedia (transact H (e, gas, call) s))"
    using transact_totals_mono by blast
  have c6: "(\<forall>url. call \<noteq> CreateShortLink url) \<longrightarrow>
        getTotalLinks (transact H (e, gas, call) s) = getTotalLinks s"
    using transact_linkCounter_other[of call H e gas s] by (simp add: getTotalLinks_def)
  have c7: "(\<forall>h n ty sz. call \<noteq> UploadMedia h n ty sz) \<longrightarrow>
        getTotalMedia (transact H (e, gas, call) s) = getTotalMedia s"
    using transact_mediaCounter_other[of call H e gas s] by (simp add: getTotalMedia_def)
  have c8: "createShortLink H e gas url s = Inl r \<longrightarrow>
        transact H (e, gas, CreateShortLink url) s = s"
    by simp
  have c9: "uploadMedia H e gas h n ty sz s = Inl r \<longrightarrow>
        transact H (e, gas, UploadMedia h n ty sz) s = s"
    by simp
  have c10: "url \<noteq> [] \<and> length url \<le> 2048 \<and> \<not> linkExists (link_candidate H e s 0) s \<longrightarrow>
        getTotalLinks (transact H (e, gas, CreateShortLink url) s) = getTotalLinks s + 1"
    using createShortLink_first_candidate[of url s H e gas]
    by (auto simp: linkExists_def getTotalLinks_def)
  have c11: "h \<noteq> [] \<and> n \<noteq> [] \<and> \<not> mediaExists (media_candidate H e s 0) s \<longrightarrow>
        getTotalMedia (transact H (e, gas, UploadMedia h n ty sz) s) = getTotalMedia s + 1"
    using uploadMedia_first_candidate[of h n s H e gas ty sz]
    by (auto simp: mediaExists_def getTotalMedia_def)
  show ?thesis
    by (intro conjI c1 c2 c3 c4 c5 c6 c7 c8 c9 c10 c11)
qed

lemma post_api_media_zero:
  assumes "h \<noteq> []" "n \<noteq> []" "ty \<noteq> []" "sz \<noteq> 0" "\<not> media_has ''aaaaaa'' d"
  shows "post_api_media (Some h) (Some n) (Some ty) (Some sz) cr now (d, sconst 0) =
     Some (Media (''aaaaaa'', h, n, ty, sz, or_anonymous cr, now, 0),
           d\<lparr>media := media d @
                 [\<lparr>media_row.rowid = media_seq d + 1, media_row.short_code = ''aaaaaa'',
                   ipfs_hash = h, file_name = n, file_type = ty, file_size = sz,
                   media_row.creator = or_anonymous cr, media_row.created_at = now,
                   views = 0\<rparr>],
               media_seq := media_seq d + 1\<rparr>, sconst 0)"
  using assms
  by (simp add: post_api_media_valid generateShortCode_zero while_taken_first)

text \<open>
  A link and a media record are created on the empty database and the totals read: one
  each. One link is created on the deployed contract: the total is 1.
\<close>

theorem totals_witness:
  "(\<exists>d'. serve [(POST_api_links (Some ''https://example.com/test'') None, 1),
                 (POST_api_media (Some ''QmTest123'') (Some ''a.png'') (Some ''image/png'')
                    (Some 1024000) None, 2),
                 (GET_api_stats, 3)] (empty_db, sconst 0) =
            Some ([Link (''aaaaaa'', ''https://example.com/test'', ''anonymous'', 1, 0),
                   Media (''aaaaaa'', ''QmTest123'', ''a.png'', ''image/png'', 1024000,
                          ''anonymous'', 2, 0),
                   Stats 1 1], d', sconst 0)
         \<and> length (links d') = 1 \<and> length (media d') = 1)
   \<and> getTotalLinks (transact (\<lambda>ts pr a c. c)
        (\<lparr>block_timestamp = 1, block_prevrandao = 2, msg_sender = 3\<rparr>, 0,
         CreateShortLink ''https://example.com/test'') deployed) = 1"
proof -
  let ?qs = "[(POST_api_links (Some ''https://example.com/test'') None, 1 :: nat),
                 (POST_api_media (Some ''QmTest123'') (Some ''a.png'') (Some ''image/png'')
                    (Some 1024000) None, 2),
                 (GET_api_stats, 3)]"
  let ?rs = "[Link (''aaaaaa'', ''https://example.com/test'', ''anonymous'', 1, 0),
                   Media (''aaaaaa'', ''QmTest123'', ''a.png'', ''image/png'', 1024000,
                          ''anonymous'', 2, 0),
                   Stats 1 1]"
  have "\<exists>d'. serve ?qs (empty_db, sconst 0) = Some (?rs, d', sconst 0)"
    by (simp add: post_api_links_empty_zero post_api_media_zero media_has_def or_anonymous_def
        get_api_stats_def del: One_nat_def)
  then obtain d' where S: "serve ?qs (empty_db, sconst 0) = Some (?rs, d', sconst 0)" by blast
  have D: "\<forall>q\<in>set ?qs. \<not> is_delete (fst q)" by simp
  from totals[where qs = ?qs and d = empty_db and rnd = "sconst 0" and rs = ?rs and d' = d',
      THEN conjunct2, THEN conjunct1] S D
  have "length (links d') = 1 \<and> length (media d') = 1"
    by (simp add: empty_db_def)
  with S have A: "\<exists>d'. serve ?qs (empty_db, sconst 0) = Some (?rs, d', sconst 0)
         \<and> length (links d') = 1 \<and> length (media d') = 1" by blast
  let ?H = "\<lambda>(ts :: uint256) (pr :: uint256) (a :: address) (c :: uint256). c"
  let ?e = "\<lparr>block_timestamp = 1, block_prevrandao = 2, msg_sender = 3\<rparr>"
  have "\<not> linkExists (link_candidate ?H ?e deployed 0) deployed"
    by (simp add: linkExists_def deployed_nothing_exists)
  with totals[where H = ?H and e = ?e and s = deployed and gas = 0
      and url = "''https://example.com/test''",
      THEN conjunct2, THEN conjunct2, THEN conjunct2, THEN conjunct2, THEN conjunct2,
      THEN conjunct2, THEN conjunct2, THEN conjunct2, THEN conjunct2, THEN conjunct1]
  have B: "getTotalLinks (transact ?H (?e, 0, CreateShortLink ''https://example.com/test'')
      deployed) = 1"
    by (simp add: getTotalLinks_def deployed_def)
  from A B show ?thesis by blast
qed

text \<open>
  C4 as stated fails: after a link is created and deleted again, the server reports
  a total of 0 links, although one record was created; the total went from 1 to 0.
\<close>

theorem total_decreases_on_delete:
  "map_option fst
     (serve [(POST_api_links (Some ''https://example.com/test'') None, 1), (GET_api_stats, 2),
             (DELETE_api_admin_links ''aaaaaa'', 3), (GET_api_stats, 4)] (empty_db, sconst 0)) =
   Some [Link (''aaaaaa'', ''https://example.com/test'', ''anonymous'', 1, 0), Stats 1 0,
         Message ''Link deleted'', Stats 0 0]"
  by (simp add: post_api_links_empty_zero or_anonymous_def get_api_stats_def
      delete_api_admin_links_def links_delete_def del: One_nat_def)

section \<open>Listing by owner\<close>

subsection \<open>The newest rows first, at most \<open>n\<close> of them\<close>

lemma sort_desc_sorted:
  "sorted_wrt (\<lambda>a b. f b \<le> f a) (sort_key (\<lambda>r. - int (f r)) xs)"
proof -
  have "sorted (map (\<lambda>r. - int (f r)) (sort_key (\<lambda>r. - int (f r)) xs))"
    by (rule sorted_sort_key)
  then show ?thesis by (simp add: sorted_map)
qed

lemma take_sorted_wrt_newest:
  assumes "sorted_wrt P xs" "a \<in> set (take n xs)" "b \<in> set xs" "b \<notin> set (take n xs)"
  shows "P a b"
proof -
  from assms(3,4) have "b \<in> set (drop n xs)"
    by (metis Un_iff append_take_drop_id set_append)
  moreover from assms(1) have "sorted_wrt P (take n xs @ drop n xs)" by simp
  ultimately show ?thesis using assms(2) by (auto simp only: sorted_wrt_append)
qed

lemma links_newest_props:
  "set (links_newest n rows) \<subseteq> set rows"
  "sorted_wrt (\<lambda>a b. links_row.created_at b \<le> links_row.created_at a) (links_newest n rows)"
  "length (links_newest n rows) = min n (length rows)"
  "length rows \<le> n \<Longrightarrow> set (links_newest n rows) = set rows"
  "a \<in> set (links_newest n rows) \<Longrightarrow> b \<in> set rows \<Longrightarrow> b \<notin> set (links_newest n rows) \<Longrightarrow>
     links_row.created_at b \<le> links_row.created_at a"
proof -
  let ?s = "sort_key (\<lambda>r. - int (links_row.created_at r)) rows"
  show "set (links_newest n rows) \<subseteq> set rows"
    using set_take_subset[of n ?s] by (simp add: links_newest_def)
  show "sorted_wrt (\<lambda>a b. links_row.created_at b \<le> links_row.created_at a) (links_newest n rows)"
    unfolding links_newest_def by (intro sorted_wrt_take sort_desc_sorted)
  show "length (links_newest n rows) = min n (length rows)"
    by (simp add: links_newest_def min.commute)
  show "length rows \<le> n \<Longrightarrow> set (links_newest n rows) = set rows"
    by (simp add: links_newest_def)
  show "a \<in> set (links_newest n rows) \<Longrightarrow> b \<in> set rows \<Longrightarrow> b \<notin> set (links_newest n rows) \<Longrightarrow>
     links_row.created_at b \<le> links_row.created_at a"
    using take_sorted_wrt_newest[OF sort_desc_sorted[of links_row.created_at rows], of a n b]
    by (simp add: links_newest_def)
qed

lemma media_newest_props:
  "set (media_newest n rows) \<subseteq> set rows"
  "sorted_wrt (\<lambda>a b. media_row.created_at b \<le> media_row.created_at a) (media_newest n rows)"
  "length (media_newest n rows) = min n (length rows)"
  "length rows \<le> n \<Longrightarrow> set (media_newest n rows) = set rows"
  "a \<in> set (media_newest n rows) \<Longrightarrow> b \<in> set rows \<Longrightarrow> b \<notin> set (media_newest n rows) \<Longrightarrow>
     media_row.created_at b \<le> media_row.created_at a"
proof -
  let ?s = "sort_key (\<lambda>r. - int (media_row.created_at r)) rows"
  show "set (media_newest n rows) \<subseteq> set rows"
    using set_take_subset[of n ?s] by (simp add: media_newest_def)
  show "sorted_wrt (\<lambda>a b. media_row.created_at b \<le> media_row.created_at a) (media_newest n rows)"
    unfolding media_newest_def by (intro sorted_wrt_take sort_desc_sorted)
  show "length (media_newest n rows) = min n (length rows)"
    by (simp add: media_newest_def min.commute)
  show "length rows \<le> n \<Longrightarrow> set (media_newest n rows) = set rows"
    by (simp add: media_newest_def)
  show "a \<in> set (media_newest n rows) \<Longrightarrow> b \<in> set rows \<Longrightarrow> b \<notin> set (media_newest n rows) \<Longrightarrow>
     media_row.created_at b \<le> media_row.created_at a"
    using take_sorted_wrt_newest[OF sort_desc_sorted[of media_row.created_at rows], of a n b]
    by (simp add: media_newest_def)
qed

subsection \<open>The contract's lists of codes\<close>

lemma transact_userLinks_other:
  assumes "\<forall>url. call \<noteq> CreateShortLink url"
  shows "userLinks (transact H (e, gas, call) s) = userLinks s"
proof (cases call)
  case (UploadMedia h n ty sz)
  then show ?thesis by (auto split: sum.splits dest!: uploadMedia_Inr(7))
next
  case (GetLink c)
  then show ?thesis by (auto split: sum.splits dest!: getLink_Inr(3))
next
  case (GetMedia c)
  then show ?thesis by (auto split: sum.splits dest!: getMedia_Inr(3))
qed (use assms in simp_all)

lemma transact_userMedia_other:
  assumes "\<forall>h n ty sz. call \<noteq> UploadMedia h n ty sz"
  shows "userMedia (transact H (e, gas, call) s) = userMedia s"
proof (cases call)
  case (CreateShortLink url)
  then show ?thesis by (auto split: sum.splits dest!: createShortLink_Inr(7))
next
  case (GetLink c)
  then show ?thesis by (auto split: sum.splits dest!: getLink_Inr(3))
next
  case (GetMedia c)
  then show ?thesis by (auto split: sum.splits dest!: getMedia_Inr(3))
qed (use assms in simp_all)

text \<open>
  The invariant of the lists: a code is in the list of a user exactly when it is the
  code of an existing record of that creator.
\<close>

lemma userLinks_inv_step:
  assumes "\<forall>u c. c \<in> set (userLinks s u) \<longleftrightarrow>
             LinkData.exists (LinkIO.links s c) \<and> LinkData.creator (LinkIO.links s c) = u"
  shows "\<forall>u c. c \<in> set (userLinks (transact H t s) u) \<longleftrightarrow>
             LinkData.exists (LinkIO.links (transact H t s) c)
             \<and> LinkData.creator (LinkIO.links (transact H t s) c) = u"
proof -
  obtain e gas call where t: "t = (e, gas, call)" by (cases t)
  show ?thesis
  proof (cases call)
    case (CreateShortLink url)
    show ?thesis
    proof (cases "createShortLink H e gas url s")
      case (Inl r)
      with t CreateShortLink assms show ?thesis by simp
    next
      case (Inr y)
      obtain c s' where y: "y = (c, s')" by (cases y)
      note f = createShortLink_Inr(3,4,5)[OF Inr[unfolded y]]
      from f(1) assms have "\<forall>u. c \<notin> set (userLinks s u)" by blast
      with f assms have "\<forall>u c'. c' \<in> set (userLinks s' u) \<longleftrightarrow>
             LinkData.exists (LinkIO.links s' c') \<and> LinkData.creator (LinkIO.links s' c') = u"
        by auto
      with t CreateShortLink Inr y show ?thesis by simp
    qed
  next
    case (UploadMedia h n ty sz)
    show ?thesis
    proof (cases "uploadMedia H e gas h n ty sz s")
      case (Inl r)
      with t UploadMedia assms show ?thesis by simp
    next
      case (Inr y)
      obtain c s' where y: "y = (c, s')" by (cases y)
      from uploadMedia_Inr(6,7)[OF Inr[unfolded y]] assms
      have "\<forall>u c. c \<in> set (userLinks s' u) \<longleftrightarrow>
             LinkData.exists (LinkIO.links s' c) \<and> LinkData.creator (LinkIO.links s' c) = u"
        by simp
      with t UploadMedia Inr y show ?thesis by simp
    qed
  next
    case (GetLink c')
    show ?thesis
    proof (cases "getLink c' s")
      case (Inl r)
      with t GetLink assms show ?thesis by simp
    next
      case (Inr y)
      obtain v s' where y: "y = (v, s')" by (cases y)
      from getLink_Inr(3)[OF Inr[unfolded y]] assms
      have "\<forall>u c. c \<in> set (userLinks s' u) \<longleftrightarrow>
             LinkData.exists (LinkIO.links s' c) \<and> LinkData.creator (LinkIO.links s' c) = u"
        by simp
      with t GetLink Inr y show ?thesis by simp
    qed
  next
    case (GetMedia c')
    with t assms show ?thesis
      by (auto split: sum.splits dest!: getMedia_Inr(3))
  qed (use t assms in simp_all)
qed

lemma userMedia_inv_step:
  assumes "\<forall>u c. c \<in> set (userMedia s u) \<longleftrightarrow>
             MediaData.exists (LinkIO.media s c) \<and> MediaData.creator (LinkIO.media s c) = u"
  shows "\<forall>u c. c \<in> set (userMedia (transact H t s) u) \<longleftrightarrow>
             MediaData.exists (LinkIO.media (transact H t s) c)
             \<and> MediaData.creator (LinkIO.media (transact H t s) c) = u"
proof -
  obtain e gas call where t: "t = (e, gas, call)" by (cases t)
  show ?thesis
  proof (cases call)
    case (UploadMedia h n ty sz)
    show ?thesis
    proof (cases "uploadMedia H e gas h n ty sz s")
      case (Inl r)
      with t UploadMedia assms show ?thesis by simp
    next
      case (Inr y)
      obtain c s' where y: "y = (c, s')" by (cases y)
      note f = uploadMedia_Inr(3,4,5)[OF Inr[unfolded y]]
      from f(1) assms have "\<forall>u. c \<notin> set (userMedia s u)" by blast
      with f assms have "\<forall>u c'. c' \<in> set (userMedia s' u) \<longleftrightarrow>
             MediaData.exists (LinkIO.media s' c') \<and> MediaData.creator (LinkIO.media s' c') = u"
        by auto
      with t UploadMedia Inr y show ?thesis by simp
    qed
  next
    case (CreateShortLink url)
    show ?thesis
    proof (cases "createShortLink H e gas url s")
      case (Inl r)
      with t CreateShortLink assms show ?thesis by simp
    next
      case (Inr y)
      obtain c s' where y: "y = (c, s')" by (cases y)
      from createShortLink_Inr(6,7)[OF Inr[unfolded y]] assms
      have "\<forall>u c. c \<in> set (userMedia s' u) \<longleftrightarrow>
             MediaData.exists (LinkIO.media s' c) \<and> MediaData.creator (LinkIO.media s' c) = u"
        by simp
      with t CreateShortLink Inr y show ?thesis by simp
    qed
  next
    case (GetMedia c')
    show ?thesis
    proof (cases "getMedia c' s")
      case (Inl r)
      with t GetMedia assms show ?thesis by simp
    next
      case (Inr y)
      obtain v s' where y: "y = (v, s')" by (cases y)
      from getMedia_Inr(3)[OF Inr[unfolded y]] assms
      have "\<forall>u c. c \<in> set (userMedia s' u) \<longleftrightarrow>
             MediaData.exists (LinkIO.media s' c) \<and> MediaData.creator (LinkIO.media s' c) = u"
        by simp
      with t GetMedia Inr y show ?thesis by simp
    qed
  next
    case (GetLink c')
    with t assms show ?thesis
      by (auto split: sum.splits dest!: getLink_Inr(3))
  qed (use t assms in simp_all)
qed

lemma userLinks_inv:
  "(\<forall>u c. c \<in> set (userLinks s u) \<longleftrightarrow>
       LinkData.exists (LinkIO.links s c) \<and> LinkData.creator (LinkIO.links s c) = u) \<Longrightarrow>
   c \<in> set (userLinks (transact_all H ts s) u) \<longleftrightarrow>
     LinkData.exists (LinkIO.links (transact_all H ts s) c)
     \<and> LinkData.creator (LinkIO.links (transact_all H ts s) c) = u"
proof (induction ts arbitrary: s)
  case Nil
  then show ?case by simp
next
  case (Cons t ts)
  from Cons.IH[OF userLinks_inv_step[OF Cons.prems, of H t]] show ?case by simp
qed

lemma userMedia_inv:
  "(\<forall>u c. c \<in> set (userMedia s u) \<longleftrightarrow>
       MediaData.exists (LinkIO.media s c) \<and> MediaData.creator (LinkIO.media s c) = u) \<Longrightarrow>
   c \<in> set (userMedia (transact_all H ts s) u) \<longleftrightarrow>
     MediaData.exists (LinkIO.media (transact_all H ts s) c)
     \<and> MediaData.creator (LinkIO.media (transact_all H ts s) c) = u"
proof (induction ts arbitrary: s)
  case Nil
  then show ?case by simp
next
  case (Cons t ts)
  from Cons.IH[OF userMedia_inv_step[OF Cons.prems, of H t]] show ?case by simp
qed

lemma links_of_creator_props:
  "\<forall>r\<in>set (links_of_creator w d). r \<in> set (links d) \<and> links_row.creator r = w"
  "sorted_wrt (\<lambda>a b. links_row.created_at b \<le> links_row.created_at a) (links_of_creator w d)"
  "length (links_of_creator w d) =
     min 10 (length (filter (\<lambda>r. links_row.creator r = w) (links d)))"
  "length (filter (\<lambda>r. links_row.creator r = w) (links d)) \<le> 10 \<longrightarrow>
     set (links_of_creator w d) = {r \<in> set (links d). links_row.creator r = w}"
  "\<forall>a\<in>set (links_of_creator w d). \<forall>b\<in>set (links d).
     links_row.creator b = w \<and> b \<notin> set (links_of_creator w d) \<longrightarrow>
     links_row.created_at b \<le> links_row.created_at a"
proof -
  let ?rows = "filter (\<lambda>r. links_row.creator r = w) (links d)"
  show "\<forall>r\<in>set (links_of_creator w d). r \<in> set (links d) \<and> links_row.creator r = w"
    using links_newest_props(1)[of 10 ?rows] by (auto simp: links_of_creator_def)
  show "sorted_wrt (\<lambda>a b. links_row.created_at b \<le> links_row.created_at a) (links_of_creator w d)"
    unfolding links_of_creator_def by (rule links_newest_props(2))
  show "length (links_of_creator w d) = min 10 (length ?rows)"
    unfolding links_of_creator_def by (rule links_newest_props(3))
  show "length ?rows \<le> 10 \<longrightarrow>
     set (links_of_creator w d) = {r \<in> set (links d). links_row.creator r = w}"
    using links_newest_props(4)[of ?rows 10] by (auto simp: links_of_creator_def)
  show "\<forall>a\<in>set (links_of_creator w d). \<forall>b\<in>set (links d).
     links_row.creator b = w \<and> b \<notin> set (links_of_creator w d) \<longrightarrow>
     links_row.created_at b \<le> links_row.created_at a"
    using links_newest_props(5)[of _ 10 ?rows] by (auto simp: links_of_creator_def)
qed

lemma media_of_creator_props:
  "\<forall>r\<in>set (media_of_creator w d). r \<in> set (media d) \<and> media_row.creator r = w"
  "sorted_wrt (\<lambda>a b. media_row.created_at b \<le> media_row.created_at a) (media_of_creator w d)"
  "length (media_of_creator w d) =
     min 10 (length (filter (\<lambda>r. media_row.creator r = w) (media d)))"
  "length (filter (\<lambda>r. media_row.creator r = w) (media d)) \<le> 10 \<longrightarrow>
     set (media_of_creator w d) = {r \<in> set (media d). media_row.creator r = w}"
  "\<forall>a\<in>set (media_of_creator w d). \<forall>b\<in>set (media d).
     media_row.creator b = w \<and> b \<notin> set (media_of_creator w d) \<longrightarrow>
     media_row.created_at b \<le> media_row.created_at a"
proof -
  let ?rows = "filter (\<lambda>r. media_row.creator r = w) (media d)"
  show "\<forall>r\<in>set (media_of_creator w d). r \<in> set (media d) \<and> media_row.creator r = w"
    using media_newest_props(1)[of 10 ?rows] by (auto simp: media_of_creator_def)
  show "sorted_wrt (\<lambda>a b. media_row.created_at b \<le> media_row.created_at a) (media_of_creator w d)"
    unfolding media_of_creator_def by (rule media_newest_props(2))
  show "length (media_of_creator w d) = min 10 (length ?rows)"
    unfolding media_of_creator_def by (rule media_newest_props(3))
  show "length ?rows \<le> 10 \<longrightarrow>
     set (media_of_creator w d) = {r \<in> set (media d). media_row.creator r = w}"
    using media_newest_props(4)[of ?rows 10] by (auto simp: media_of_creator_def)
  show "\<forall>a\<in>set (media_of_creator w d). \<forall>b\<in>set (media d).
     media_row.creator b = w \<and> b \<notin> set (media_of_creator w d) \<longrightarrow>
     media_row.created_at b \<le> media_row.created_at a"
    using media_newest_props(5)[of _ 10 ?rows] by (auto simp: media_of_creator_def)
qed

lemma deployed_lists_inv:
  "\<forall>u c. c \<in> set (userLinks deployed u) \<longleftrightarrow>
       LinkData.exists (LinkIO.links deployed c) \<and> LinkData.creator (LinkIO.links deployed c) = u"
  "\<forall>u c. c \<in> set (userMedia deployed u) \<longleftrightarrow>
       MediaData.exists (LinkIO.media deployed c) \<and> MediaData.creator (LinkIO.media deployed c) = u"
  by (simp_all add: deployed_def)

text \<open>
  C5, as amended. The server's listing of an owner returns records of that owner only,
  ordered by \<open>createdAt\<close> descending, but at most ten of them: all of the owner's
  records when there are no more than ten, and otherwise ten that are at least as new as
  every record left out. The contract's \<open>getUserLinks\<close> and \<open>getUserMedia\<close> return
  short codes, not records, in the order of creation, oldest first: a creation appends
  its code to the list of its sender, nothing else changes a list, and from deployment
  on the list of a user holds exactly the codes of the records that this user created.
\<close>

theorem listByOwner:
  "get_api_users_links w d = Links (map link_json (links_of_creator w d))
   \<and> (\<forall>r\<in>set (links_of_creator w d). r \<in> set (links d) \<and> links_row.creator r = w)
   \<and> sorted_wrt (\<lambda>a b. links_row.created_at b \<le> links_row.created_at a) (links_of_creator w d)
   \<and> length (links_of_creator w d) =
       min 10 (length (filter (\<lambda>r. links_row.creator r = w) (links d)))
   \<and> (length (filter (\<lambda>r. links_row.creator r = w) (links d)) \<le> 10 \<longrightarrow>
       set (links_of_creator w d) = {r \<in> set (links d). links_row.creator r = w})
   \<and> (\<forall>a\<in>set (links_of_creator w d). \<forall>b\<in>set (links d).
       links_row.creator b = w \<and> b \<notin> set (links_of_creator w d) \<longrightarrow>
       links_row.created_at b \<le> links_row.created_at a)
   \<and> get_api_users_media w d = Medias (map media_json (media_of_creator w d))
   \<and> (\<forall>r\<in>set (media_of_creator w d). r \<in> set (media d) \<and> media_row.creator r = w)
   \<and> sorted_wrt (\<lambda>a b. media_row.created_at b \<le> media_row.created_at a) (media_of_creator w d)
   \<and> length (media_of_creator w d) =
       min 10 (length (filter (\<lambda>r. media_row.creator r = w) (media d)))
   \<and> (length (filter (\<lambda>r. media_row.creator r = w) (media d)) \<le> 10 \<longrightarrow>
       set (media_of_creator w d) = {r \<in> set (media d). media_row.creator r = w})
   \<and> (\<forall>a\<in>set (media_of_creator w d). \<forall>b\<in>set (media d).
       media_row.creator b = w \<and> b \<notin> set (media_of_creator w d) \<longrightarrow>
       media_row.created_at b \<le> media_row.created_at a)
   \<and> (createShortLink H e gas url s = Inr (c, s') \<longrightarrow>
       getUserLinks (msg_sender e) s' = getUserLinks (msg_sender e) s @ [c]
       \<and> (\<forall>u. u \<noteq> msg_sender e \<longrightarrow> getUserLinks u s' = getUserLinks u s))
   \<and> (uploadMedia H e gas h n ty sz s = Inr (c, s') \<longrightarrow>
       getUserMedia (msg_sender e) s' = getUserMedia (msg_sender e) s @ [c]
       \<and> (\<forall>u. u \<noteq> msg_sender e \<longrightarrow> getUserMedia u s' = getUserMedia u s))
   \<and> ((\<forall>url. call \<noteq> CreateShortLink url) \<longrightarrow>
       getUserLinks u (transact H (e, gas, call) s) = getUserLinks u s)
   \<and> ((\<forall>h n ty sz. call \<noteq> UploadMedia h n ty sz) \<longrightarrow>
       getUserMedia u (transact H (e, gas, call) s) = getUserMedia u s)
   \<and> (c' \<in> set (getUserLinks u (transact_all H ts deployed)) \<longleftrightarrow>
       linkExists c' (transact_all H ts deployed)
       \<and> LinkData.creator (LinkIO.links (transact_all H ts deployed) c') = u)
   \<and> (c' \<in> set (getUserMedia u (transact_all H ts deployed)) \<longleftrightarrow>
       mediaExists c' (transact_all H ts deployed)
       \<and> MediaData.creator (LinkIO.media (transact_all H ts deployed) c') = u)"
proof -
  have c13: "createShortLink H e gas url s = Inr (c, s') \<longrightarrow>
       getUserLinks (msg_sender e) s' = getUserLinks (msg_sender e) s @ [c]
       \<and> (\<forall>u. u \<noteq> msg_sender e \<longrightarrow> getUserLinks u s' = getUserLinks u s)"
    using createShortLink_Inr(5)[of H e gas url s c s'] by (simp add: getUserLinks_def)
  have c14: "uploadMedia H e gas h n ty sz s = Inr (c, s') \<longrightarrow>
       getUserMedia (msg_sender e) s' = getUserMedia (msg_sender e) s @ [c]
       \<and> (\<forall>u. u \<noteq> msg_sender e \<longrightarrow> getUserMedia u s' = getUserMedia u s)"
    using uploadMedia_Inr(5)[of H e gas h n ty sz s c s'] by (simp add: getUserMedia_def)
  have c15: "(\<forall>url. call \<noteq> CreateShortLink url) \<longrightarrow>
       getUserLinks u (transact H (e, gas, call) s) = getUserLinks u s"
    using transact_userLinks_other[of call H e gas s] by (simp add: getUserLinks_def)
  have c16: "(\<forall>h n ty sz. call \<noteq> UploadMedia h n ty sz) \<longrightarrow>
       getUserMedia u (transact H (e, gas, call) s) = getUserMedia u s"
    using transact_userMedia_other[of call H e gas s] by (simp add: getUserMedia_def)
  have c17: "c' \<in> set (getUserLinks u (transact_all H ts deployed)) \<longleftrightarrow>
       linkExists c' (transact_all H ts deployed)
       \<and> LinkData.creator (LinkIO.links (transact_all H ts deployed) c') = u"
    using userLinks_inv[OF deployed_lists_inv(1), of c' H ts u]
    by (simp add: getUserLinks_def linkExists_def)
  have c18: "c' \<in> set (getUserMedia u (transact_all H ts deployed)) \<longleftrightarrow>
       mediaExists c' (transact_all H ts deployed)
       \<and> MediaData.creator (LinkIO.media (transact_all H ts deployed) c') = u"
    using userMedia_inv[OF deployed_lists_inv(2), of c' H ts u]
    by (simp add: getUserMedia_def mediaExists_def)
  show ?thesis
    by (intro conjI links_of_creator_props media_of_creator_props c13 c14 c15 c16 c17 c18)
      (simp_all add: get_api_users_links_def get_api_users_media_def)
qed

text \<open>
  Two links of one creator, made at the times 1 and 2, and one of another creator: the
  server lists the creator's two links, the newer first. On the deployed contract one
  creation puts its code on the list of its sender.
\<close>

theorem listByOwner_witness:
  "get_api_users_links ''0xABC''
     \<lparr>links = [\<lparr>links_row.rowid = 1, links_row.short_code = ''aaaaaa'',
                 original_url = ''https://example.com/a'', links_row.creator = ''0xABC'',
                 links_row.created_at = 1, clicks = 0\<rparr>,
               \<lparr>links_row.rowid = 2, links_row.short_code = ''bbbbbb'',
                 original_url = ''https://example.com/b'', links_row.creator = ''0xDEF'',
                 links_row.created_at = 2, clicks = 0\<rparr>,
               \<lparr>links_row.rowid = 3, links_row.short_code = ''cccccc'',
                 original_url = ''https://example.com/c'', links_row.creator = ''0xABC'',
                 links_row.created_at = 3, clicks = 0\<rparr>],
       links_seq = 3, media = [], media_seq = 0\<rparr> =
     Links [(''cccccc'', ''https://example.com/c'', ''0xABC'', 3, 0),
            (''aaaaaa'', ''https://example.com/a'', ''0xABC'', 1, 0)]
   \<and> (\<exists>c s'. createShortLink (\<lambda>ts pr a c. c)
          \<lparr>block_timestamp = 1, block_prevrandao = 2, msg_sender = 3\<rparr> 0
          ''https://example.com/test'' deployed = Inr (c, s')
        \<and> getUserLinks 3 s' = [c])"
proof -
  let ?d = "\<lparr>links = [\<lparr>links_row.rowid = 1, links_row.short_code = ''aaaaaa'',
                 original_url = ''https://example.com/a'', links_row.creator = ''0xABC'',
                 links_row.created_at = 1, clicks = 0\<rparr>,
               \<lparr>links_row.rowid = 2, links_row.short_code = ''bbbbbb'',
                 original_url = ''https://example.com/b'', links_row.creator = ''0xDEF'',
                 links_row.created_at = 2, clicks = 0\<rparr>,
               \<lparr>links_row.rowid = 3, links_row.short_code = ''cccccc'',
                 original_url = ''https://example.com/c'', links_row.creator = ''0xABC'',
                 links_row.created_at = 3, clicks = 0\<rparr>],
       links_seq = 3, media = [], media_seq = 0\<rparr>"
  have "get_api_users_links ''0xABC'' ?d = Links (map link_json (links_of_creator ''0xABC'' ?d))"
    using listByOwner[of "''0xABC''" ?d] by blast
  also have "\<dots> = Links [(''cccccc'', ''https://example.com/c'', ''0xABC'', 3, 0),
            (''aaaaaa'', ''https://example.com/a'', ''0xABC'', 1, 0)]"
    by (simp add: links_of_creator_def links_newest_def link_json_def)
  finally have A: "get_api_users_links ''0xABC'' ?d =
      Links [(''cccccc'', ''https://example.com/c'', ''0xABC'', 3, 0),
             (''aaaaaa'', ''https://example.com/a'', ''0xABC'', 1, 0)]" .
  let ?H = "\<lambda>(ts :: uint256) (pr :: uint256) (a :: address) (c :: uint256). c"
  let ?e = "\<lparr>block_timestamp = 1, block_prevrandao = 2, msg_sender = 3\<rparr>"
  have "\<not> LinkData.exists (LinkIO.links deployed (link_candidate ?H ?e deployed 0))"
    by (simp add: deployed_nothing_exists)
  from createShortLink_succeeds[OF _ _ _ this, of "''https://example.com/test''" 0]
  obtain c s' where s': "createShortLink ?H ?e 0 ''https://example.com/test'' deployed = Inr (c, s')"
    by auto
  from listByOwner[where H = ?H and e = ?e and gas = 0 and url = "''https://example.com/test''"
      and s = deployed and c = c and s' = s',
      THEN conjunct2, THEN conjunct2, THEN conjunct2, THEN conjunct2, THEN conjunct2,
      THEN conjunct2, THEN conjunct2, THEN conjunct2, THEN conjunct2, THEN conjunct2,
      THEN conjunct2, THEN conjunct2, THEN conjunct1] s'
  have "getUserLinks 3 s' = [c]"
    by (simp add: getUserLinks_def deployed_def)
  with s' have B: "\<exists>c s'. createShortLink ?H ?e 0 ''https://example.com/test'' deployed = Inr (c, s')
        \<and> getUserLinks 3 s' = [c]" by blast
  from A B show ?thesis by blast
qed

text \<open>
  C5 as stated fails twice. After two creations of one sender at the block times 1
  and 2, the contract lists the older code first. And of the eleven links of one creator
  the server lists ten, leaving out the oldest.
\<close>

theorem listing_order_and_limit:
  "getUserLinks 3 (transact_all (\<lambda>ts pr a c. c)
     [(\<lparr>block_timestamp = 1, block_prevrandao = 2, msg_sender = 3\<rparr>, 0,
       CreateShortLink ''https://example.com/a''),
      (\<lparr>block_timestamp = 2, block_prevrandao = 2, msg_sender = 3\<rparr>, 0,
       CreateShortLink ''https://example.com/b'')] deployed) = [''baaaaa'', ''caaaaa'']
   \<and> LinkData.createdAt (LinkIO.links (transact_all (\<lambda>ts pr a c. c)
     [(\<lparr>block_timestamp = 1, block_prevrandao = 2, msg_sender = 3\<rparr>, 0,
       CreateShortLink ''https://example.com/a''),
      (\<lparr>block_timestamp = 2, block_prevrandao = 2, msg_sender = 3\<rparr>, 0,
       CreateShortLink ''https://example.com/b'')] deployed) ''baaaaa'') = 1
   \<and> LinkData.createdAt (LinkIO.links (transact_all (\<lambda>ts pr a c. c)
     [(\<lparr>block_timestamp = 1, block_prevrandao = 2, msg_sender = 3\<rparr>, 0,
       CreateShortLink ''https://example.com/a''),
      (\<lparr>block_timestamp = 2, block_prevrandao = 2, msg_sender = 3\<rparr>, 0,
       CreateShortLink ''https://example.com/b'')] deployed) ''caaaaa'') = 2
   \<and> map links_row.creator (links eleven_links) = replicate 11 ''0xABC''
   \<and> get_api_users_links ''0xABC'' eleven_links =
       Links [(''laaaaa'', ''https://example.com'', ''0xABC'', 11, 0),
              (''kaaaaa'', ''https://example.com'', ''0xABC'', 10, 0),
              (''jaaaaa'', ''https://example.com'', ''0xABC'', 9, 0),
              (''iaaaaa'', ''https://example.com'', ''0xABC'', 8, 0),
              (''haaaaa'', ''https://example.com'', ''0xABC'', 7, 0),
              (''gaaaaa'', ''https://example.com'', ''0xABC'', 6, 0),
              (''faaaaa'', ''https://example.com'', ''0xABC'', 5, 0),
              (''eaaaaa'', ''https://example.com'', ''0xABC'', 4, 0),
              (''daaaaa'', ''https://example.com'', ''0xABC'', 3, 0),
              (''caaaaa'', ''https://example.com'', ''0xABC'', 2, 0)]"
proof -
  let ?ts = "[(\<lparr>block_timestamp = 1, block_prevrandao = 2, msg_sender = 3\<rparr>, 0 :: nat,
       CreateShortLink ''https://example.com/a''),
      (\<lparr>block_timestamp = 2, block_prevrandao = 2, msg_sender = 3\<rparr>, 0,
       CreateShortLink ''https://example.com/b'')]"
  let ?H = "\<lambda>(ts :: uint256) (pr :: uint256) (a :: address) (c :: uint256). c"
  have A: "getUserLinks 3 (transact_all ?H ?ts deployed) = [''baaaaa'', ''caaaaa'']"
    "LinkData.createdAt (LinkIO.links (transact_all ?H ?ts deployed) ''baaaaa'') = 1"
    "LinkData.createdAt (LinkIO.links (transact_all ?H ?ts deployed) ''caaaaa'') = 2"
    by (simp_all add: createShortLink_def contract_generateShortCode_def Let_def deployed_def
        code_of_1 code_of_2 getUserLinks_def)
  have rows: "links eleven_links =
      map (\<lambda>i. \<lparr>links_row.rowid = i, links_row.short_code = chars ! i # ''aaaaa'',
                 original_url = ''https://example.com'', links_row.creator = ''0xABC'',
                 links_row.created_at = i, clicks = 0\<rparr>) [1, 2, 3, 4, 5, 6, 7, 8, 9, 10, 11]"
  proof -
    have "[1..<12] = [1, 2, 3, 4, 5, 6, 7, 8, 9, 10, 11 :: nat]" by code_simp
    then show ?thesis by (simp only: eleven_links_def db.simps)
  qed
  have B: "map links_row.creator (links eleven_links) = replicate 11 ''0xABC''"
    by (simp add: rows eval_nat_numeral)
  have C: "get_api_users_links ''0xABC'' eleven_links =
       Links [(''laaaaa'', ''https://example.com'', ''0xABC'', 11, 0),
              (''kaaaaa'', ''https://example.com'', ''0xABC'', 10, 0),
              (''jaaaaa'', ''https://example.com'', ''0xABC'', 9, 0),
              (''iaaaaa'', ''https://example.com'', ''0xABC'', 8, 0),
              (''haaaaa'', ''https://example.com'', ''0xABC'', 7, 0),
              (''gaaaaa'', ''https://example.com'', ''0xABC'', 6, 0),
              (''faaaaa'', ''https://example.com'', ''0xABC'', 5, 0),
              (''eaaaaa'', ''https://example.com'', ''0xABC'', 4, 0),
              (''daaaaa'', ''https://example.com'', ''0xABC'', 3, 0),
              (''caaaaa'', ''https://example.com'', ''0xABC'', 2, 0)]"
    by (simp add: get_api_users_links_def links_of_creator_def links_newest_def rows
        link_json_def chars_def)
  from A B C show ?thesis by (intro conjI)
qed

end
